(* ===== verification/Prelude.thy ===== *)
theory Prelude
  imports Main "HOL-Library.Word" "HOL-Library.AList"
begin

text \<open>
  Shared vocabulary of the vde3 development: pointers and machine faults, the state-and-fault
  monad in which the C functions are written, iteration over GLib lists, the \<open>errno\<close> values,
  the Hoare-style predicates \<open>keeps\<close> (an invariant survives) and \<open>wp\<close> (the program returns,
  with this postcondition), and the generic lemmas on lists and
  association lists that the component theories use.

  Conventions. A C pointer is a \<^typ>\<open>nat\<close> and \<open>NULL\<close> is 0. A C function that reads or
  writes memory is a function from the state to either a fault (what the C standard leaves
  undefined, a failed \<open>vde_assert\<close>, or the exhaustion of the call-depth bound of the
  dispatcher) or its result and the new state. Integers returned by the C functions are
  \<^typ>\<open>int\<close>: 0 for success, \<open>- 1\<close> for an error that also sets \<open>errno\<close>.
\<close>

named_theorems mon \<open>unfolding of monadic programs applied to a state\<close>
named_theorems keep \<open>introduction rules for preservation of an invariant\<close>
named_theorems wpI \<open>introduction rules for total correctness\<close>

section \<open>Pointers, faults, error numbers\<close>

type_synonym ptr = nat

abbreviation NULL :: ptr where "NULL \<equiv> 0"

text \<open>Tests against \<open>NULL\<close> stay disequations instead of becoming \<open>0 < p\<close>.\<close>

declare neq0_conv [iff del] bot_nat_0.not_eq_extremum [simp del]

datatype fault =
    Null_Deref
  | Dangling
  | Double_Free
  | Null_Call
  | Div_By_Zero
  | Out_Of_Bounds
  | Iterator_Invalid
  | Assert_Failed
  | Out_Of_Fuel

abbreviation ENOENT :: int where "ENOENT \<equiv> 2"
abbreviation EAGAIN :: int where "EAGAIN \<equiv> 11"
abbreviation ENOMEM :: int where "ENOMEM \<equiv> 12"
abbreviation EBUSY :: int where "EBUSY \<equiv> 16"
abbreviation EEXIST :: int where "EEXIST \<equiv> 17"
abbreviation EINVAL :: int where "EINVAL \<equiv> 22"
abbreviation ENOSPC :: int where "ENOSPC \<equiv> 28"
abbreviation EPIPE :: int where "EPIPE \<equiv> 32"
abbreviation EBADMSG :: int where "EBADMSG \<equiv> 74"
abbreviation EADDRINUSE :: int where "EADDRINUSE \<equiv> 98"
abbreviation ECONNREFUSED :: int where "ECONNREFUSED \<equiv> 111"

section \<open>The state-and-fault monad\<close>

type_synonym ('s, 'a) M = "'s \<Rightarrow> fault + 'a \<times> 's"

definition ret :: "'a \<Rightarrow> ('s, 'a) M" where
  "ret a = (\<lambda>w. Inr (a, w))"

definition mbind :: "('s, 'a) M \<Rightarrow> ('a \<Rightarrow> ('s, 'b) M) \<Rightarrow> ('s, 'b) M" where
  "mbind m k = (\<lambda>w. case m w of Inl f \<Rightarrow> Inl f | Inr r \<Rightarrow> k (fst r) (snd r))"

definition mfail :: "fault \<Rightarrow> ('s, 'a) M" where
  "mfail f = (\<lambda>w. Inl f)"

definition gets :: "('s \<Rightarrow> 'a) \<Rightarrow> ('s, 'a) M" where
  "gets g = (\<lambda>w. Inr (g w, w))"

definition modify :: "('s \<Rightarrow> 's) \<Rightarrow> ('s, unit) M" where
  "modify g = (\<lambda>w. Inr ((), g w))"

text \<open>A computation that neither reads nor writes the state, such as a pure data structure's.\<close>

definition lift :: "fault + 'a \<Rightarrow> ('s, 'a) M" where
  "lift r = (\<lambda>w. case r of Inl f \<Rightarrow> Inl f | Inr a \<Rightarrow> Inr (a, w))"

text \<open>Sequencing of computations that may fault but have no state.\<close>

definition fbind :: "fault + 'a \<Rightarrow> ('a \<Rightarrow> fault + 'b) \<Rightarrow> fault + 'b" where
  "fbind r k = (case r of Inl f \<Rightarrow> Inl f | Inr a \<Rightarrow> k a)"

lemma ret_apply [simp, mon]: "ret a w = Inr (a, w)"
  by (simp add: ret_def)

lemma mfail_apply [simp, mon]: "mfail f w = Inl f"
  by (simp add: mfail_def)

lemma gets_apply [simp, mon]: "gets g w = Inr (g w, w)"
  by (simp add: gets_def)

lemma modify_apply [simp, mon]: "modify g w = Inr ((), g w)"
  by (simp add: modify_def)

lemma lift_apply [simp, mon]: "lift (Inl f) w = Inl f" "lift (Inr a) w = Inr (a, w)"
  by (simp_all add: lift_def)

lemma fbind_simps [simp, mon]: "fbind (Inl f) k = Inl f" "fbind (Inr a) k = k a"
  by (simp_all add: fbind_def)

lemma mbind_apply [mon]:
  "mbind m k w = (case m w of Inl f \<Rightarrow> Inl f | Inr r \<Rightarrow> k (fst r) (snd r))"
  by (simp add: mbind_def)

lemma mbind_ret_left [simp]: "mbind (ret a) k = k a"
  by (simp add: mbind_def fun_eq_iff)

lemma mbind_Inr [simp]: "m w = Inr (a, w') \<Longrightarrow> mbind m k w = k a w'"
  by (simp add: mbind_def)

lemma mbind_Inl [simp]: "m w = Inl f \<Longrightarrow> mbind m k w = Inl f"
  by (simp add: mbind_def)

lemma mbind_eq_Inr:
  "mbind m k w = Inr r \<longleftrightarrow> (\<exists>a w'. m w = Inr (a, w') \<and> k a w' = Inr r)"
  by (auto simp: mbind_def split: sum.splits)

lemma mbind_InrE [elim]:
  assumes "mbind m k w = Inr r"
  obtains a w' where "m w = Inr (a, w')" and "k a w' = Inr r"
  using assms by (auto simp: mbind_eq_Inr)

lemma mbind_assoc: "mbind (mbind m k) l = mbind m (\<lambda>a. mbind (k a) l)"
  by (auto simp: mbind_def fun_eq_iff split: sum.splits)

lemma fbind_eq_Inr: "fbind r k = Inr b \<longleftrightarrow> (\<exists>a. r = Inr a \<and> k a = Inr b)"
  by (cases r) auto

text \<open>Congruences that show the recursion package which calls a program can make.\<close>

lemma fbind_cong [fundef_cong]:
  "r = r' \<Longrightarrow> (\<And>a. r' = Inr a \<Longrightarrow> k a = k' a) \<Longrightarrow> fbind r k = fbind r' k'"
  by (cases r') auto

lemma mbind_cong [fundef_cong]:
  "m w = m' w' \<Longrightarrow> (\<And>a v. m' w' = Inr (a, v) \<Longrightarrow> k a v = k' a v) \<Longrightarrow> w = w' \<Longrightarrow>
    mbind m k w = mbind m' k' w'"
  by (auto simp: mbind_def split: sum.splits)

text \<open>
  \<open>vde_assert\<close> of \<^verbatim>\<open>common.h\<close>: the debug build stops the program, the release build
  compiles the assertion away.
\<close>

definition assertM :: "bool \<Rightarrow> bool \<Rightarrow> ('s, unit) M" where
  "assertM dbg b = (if dbg \<and> \<not> b then mfail Assert_Failed else ret ())"

lemma assertM_apply [simp, mon]:
  "assertM dbg b w = (if dbg \<and> \<not> b then Inl Assert_Failed else Inr ((), w))"
  by (simp add: assertM_def)

section \<open>Iteration over a GLib list\<close>

text \<open>
  The loops \<^verbatim>\<open>iter = vde_list_first(l); while (iter) { ...; iter = vde_list_next(iter); }\<close>
  call functions that may change the list under iteration. The iterator is a node of the
  list: reading its successor looks at the list as it is after the body ran, and a node that
  has been removed meanwhile is freed memory. The lists of vde3 grow at their front only,
  which no iterator sees; the length test makes this explicit and gives the termination
  argument.
\<close>

fun foreach :: "('s, 'a list) M \<Rightarrow> ('a \<Rightarrow> ('s, unit) M) \<Rightarrow> 'a list \<Rightarrow> ('s, unit) M" where
  "foreach get body [] w = Inr ((), w)"
| "foreach get body (e # rest) w =
     (case body e w of
        Inl f \<Rightarrow> Inl f
      | Inr (u, w1) \<Rightarrow>
          (case get w1 of
             Inl f \<Rightarrow> Inl f
           | Inr (xs, w2) \<Rightarrow>
               (case dropWhile (\<lambda>x. x \<noteq> e) xs of
                  [] \<Rightarrow> Inl Iterator_Invalid
                | e' # rest' \<Rightarrow>
                    if length rest' \<le> length rest then foreach get body rest' w2
                    else Inl Iterator_Invalid)))"

text \<open>Running the body over a fixed list: what the loop does when nothing disturbs the list.\<close>

fun mapM :: "('a \<Rightarrow> ('s, unit) M) \<Rightarrow> 'a list \<Rightarrow> ('s, unit) M" where
  "mapM body [] = ret ()"
| "mapM body (e # rest) = mbind (body e) (\<lambda>_. mapM body rest)"

lemma dropWhile_distinct_split:
  assumes "distinct (pre @ e # rest)"
  shows "dropWhile (\<lambda>x. x \<noteq> e) (pre @ e # rest) = e # rest"
  using assms by (induction pre) auto

section \<open>Preservation and total correctness\<close>

definition keeps :: "('s \<Rightarrow> bool) \<Rightarrow> ('s, 'a) M \<Rightarrow> bool" where
  "keeps I m \<longleftrightarrow> (\<forall>w a w'. I w \<longrightarrow> m w = Inr (a, w') \<longrightarrow> I w')"

text \<open>Total correctness: from \<open>w\<close> the program returns, and its result satisfies \<open>Q\<close>.\<close>

definition wp :: "('s, 'a) M \<Rightarrow> ('a \<Rightarrow> 's \<Rightarrow> bool) \<Rightarrow> 's \<Rightarrow> bool" where
  "wp m Q w \<longleftrightarrow> (\<exists>a w'. m w = Inr (a, w') \<and> Q a w')"

lemma keepsI: "(\<And>w a w'. I w \<Longrightarrow> m w = Inr (a, w') \<Longrightarrow> I w') \<Longrightarrow> keeps I m"
  by (auto simp: keeps_def)

lemma keepsD: "keeps I m \<Longrightarrow> I w \<Longrightarrow> m w = Inr (a, w') \<Longrightarrow> I w'"
  by (auto simp: keeps_def)

lemma keeps_ret [keep]: "keeps I (ret a)"
  by (simp add: keeps_def)

lemma keeps_mfail [keep]: "keeps I (mfail f)"
  by (simp add: keeps_def)

lemma keeps_gets [keep]: "keeps I (gets g)"
  by (simp add: keeps_def)

lemma keeps_lift [keep]: "keeps I (lift r)"
  by (cases r) (auto simp: keeps_def)

lemma keeps_assertM [keep]: "keeps I (assertM dbg b)"
  by (auto simp: keeps_def)

lemma keeps_mbind [keep]: "keeps I m \<Longrightarrow> (\<And>a. keeps I (k a)) \<Longrightarrow> keeps I (mbind m k)"
  unfolding keeps_def by (metis mbind_eq_Inr)

lemma keeps_if [keep]: "keeps I m \<Longrightarrow> keeps I n \<Longrightarrow> keeps I (if b then m else n)"
  by simp

lemma keeps_case_option [keep]:
  "keeps I m \<Longrightarrow> (\<And>x. keeps I (k x)) \<Longrightarrow> keeps I (case x of None \<Rightarrow> m | Some y \<Rightarrow> k y)"
  by (cases x) auto

lemma keeps_case_prod [keep]:
  "(\<And>a b. keeps I (k a b)) \<Longrightarrow> keeps I (case x of (a, b) \<Rightarrow> k a b)"
  by (cases x) auto

lemma keeps_modify: "(\<And>w. I w \<Longrightarrow> I (g w)) \<Longrightarrow> keeps I (modify g)"
  by (auto simp: keeps_def)

lemma keeps_mapM [keep]: "(\<And>e. keeps I (body e)) \<Longrightarrow> keeps I (mapM body xs)"
  by (induction xs) (auto intro: keep)

lemma keeps_foreach [keep]:
  assumes "keeps I get" and "\<And>e. keeps I (body e)"
  shows "keeps I (foreach get body xs)"
proof (rule keepsI)
  fix w a w'
  assume "I w" and "foreach get body xs w = Inr (a, w')"
  then show "I w'"
  proof (induction xs arbitrary: w rule: length_induct)
    case (1 xs)
    show ?case
    proof (cases xs)
      case Nil
      with "1.prems" show ?thesis by simp
    next
      case (Cons e rest)
      with "1.prems"(2) obtain w1 ys w2 e' rest' where
        b: "body e w = Inr ((), w1)" and g: "get w1 = Inr (ys, w2)"
        and l: "length rest' \<le> length rest"
        and r: "foreach get body rest' w2 = Inr (a, w')"
        by (auto split: sum.splits list.splits if_splits)
      have "I w2" using assms b g "1.prems"(1) by (blast dest: keepsD)
      with "1.IH" l r Cons show ?thesis by (auto simp: less_Suc_eq_le)
    qed
  qed
qed

text \<open>
  The loop runs its body once for each element of a list without repetition, in order, when
  the body keeps a property \<open>P\<close> under which the list is unchanged; \<open>body'\<close> is what the body
  does under \<open>P\<close>.
\<close>

lemma foreach_eq_mapM:
  assumes "P w"
    and "\<And>w. P w \<Longrightarrow> get w = Inr (pre @ xs, w)"
    and "distinct (pre @ xs)"
    and "\<And>e w. e \<in> set xs \<Longrightarrow> P w \<Longrightarrow> body e w = body' e w"
    and "\<And>e. e \<in> set xs \<Longrightarrow> keeps P (body' e)"
  shows "foreach get body xs w = mapM body' xs w"
  using assms
proof (induction xs arbitrary: pre w)
  case Nil
  then show ?case by simp
next
  case (Cons e rest)
  have b: "body e w = body' e w" using Cons.prems(1,4) by simp
  show ?case
  proof (cases "body' e w")
    case (Inl f)
    with b show ?thesis by simp
  next
    case (Inr r)
    obtain w1 where r: "r = ((), w1)" by (cases r) simp
    with Inr Cons.prems(1,5) have P1: "P w1" by (auto dest: keepsD)
    have "foreach get body rest w1 = mapM body' rest w1"
      using P1 Cons.prems(2-5) by (intro Cons.IH [where pre = "pre @ [e]"]) auto
    with b Inr r P1 Cons.prems(2,3) show ?thesis
      by (simp add: dropWhile_distinct_split)
  qed
qed

lemma mapM_runs:
  assumes "P w" and "\<And>e w. e \<in> set xs \<Longrightarrow> P w \<Longrightarrow> \<exists>w'. body e w = Inr ((), w') \<and> P w'"
  shows "\<exists>w'. mapM body xs w = Inr ((), w') \<and> P w'"
  using assms
proof (induction xs arbitrary: w)
  case Nil
  then show ?case by simp
next
  case (Cons e xs)
  then obtain w1 where "body e w = Inr ((), w1)" "P w1" by force
  moreover from Cons this have "\<exists>w'. mapM body xs w1 = Inr ((), w') \<and> P w'" by force
  ultimately show ?case by auto
qed

lemma mapM_append: "mapM f (xs @ ys) w = mbind (mapM f xs) (\<lambda>_. mapM f ys) w"
  by (induction xs arbitrary: w) (auto simp: mbind_apply split: sum.splits)

lemma mapM_if_filter:
  "mapM (\<lambda>p. if Q p then f p else ret ()) ps = mapM f (filter Q ps)"
  by (induction ps) simp_all

text \<open>Rules that compute the precondition of a program from its text.\<close>

lemma wpD: "wp m Q w \<Longrightarrow> \<exists>a w'. m w = Inr (a, w') \<and> Q a w'"
  by (simp add: wp_def)

lemma wp_Inr: "m w = Inr (a, w') \<Longrightarrow> Q a w' \<Longrightarrow> wp m Q w"
  by (simp add: wp_def)

lemma wp_mono: "wp m Q w \<Longrightarrow> (\<And>a w'. Q a w' \<Longrightarrow> R a w') \<Longrightarrow> wp m R w"
  by (auto simp: wp_def)

lemma wp_ret [wpI]: "Q a w \<Longrightarrow> wp (ret a) Q w"
  by (simp add: wp_def)

lemma wp_gets [wpI]: "Q (g w) w \<Longrightarrow> wp (gets g) Q w"
  by (simp add: wp_def)

lemma wp_modify [wpI]: "Q () (g w) \<Longrightarrow> wp (modify g) Q w"
  by (simp add: wp_def)

lemma wp_mbind [wpI]: "wp m (\<lambda>a. wp (k a) Q) w \<Longrightarrow> wp (mbind m k) Q w"
  by (auto simp: wp_def)

lemma wp_if [wpI]: "(b \<Longrightarrow> wp m Q w) \<Longrightarrow> (\<not> b \<Longrightarrow> wp n Q w) \<Longrightarrow> wp (if b then m else n) Q w"
  by simp

lemma wp_case_option [wpI]:
  "(x = None \<Longrightarrow> wp m Q w) \<Longrightarrow> (\<And>y. x = Some y \<Longrightarrow> wp (n y) Q w) \<Longrightarrow>
    wp (case x of None \<Rightarrow> m | Some y \<Rightarrow> n y) Q w"
  by (cases x) simp_all

lemma wp_case_prod [wpI]: "(\<And>a b. x = (a, b) \<Longrightarrow> wp (f a b) Q w) \<Longrightarrow> wp (case x of (a, b) \<Rightarrow> f a b) Q w"
  by (cases x) simp

lemma wp_lift: "r = Inr a \<Longrightarrow> Q a w \<Longrightarrow> wp (lift r) Q w"
  by (simp add: wp_def)

section \<open>Lists and association lists\<close>

text \<open>
  \<open>g_list_remove\<close> drops the first occurrence, which is \<^const>\<open>remove1\<close>. GLib hash tables
  are association lists with distinct keys, read by \<^const>\<open>map_of\<close> and written by
  \<^const>\<open>AList.update\<close> and \<^const>\<open>AList.delete\<close>; \<open>hget\<close> is
  \<open>g_hash_table_lookup\<close>, which gives \<open>NULL\<close> for an absent key.
\<close>

definition hget :: "(nat \<times> ptr) list \<Rightarrow> nat \<Rightarrow> ptr" where
  "hget h k = (case map_of h k of None \<Rightarrow> NULL | Some v \<Rightarrow> v)"

lemma hget_Nil [simp]: "hget [] k = NULL"
  by (simp add: hget_def)

lemma hget_update [simp]: "hget (AList.update k v h) k' = (if k' = k then v else hget h k')"
  by (simp add: hget_def update_conv')

lemma hget_delete [simp]: "hget (AList.delete k h) k' = (if k' = k then NULL else hget h k')"
  by (simp add: hget_def delete_conv')

lemma hget_in_keys: "hget h k \<noteq> NULL \<Longrightarrow> k \<in> fst ` set h"
  by (auto simp: hget_def image_iff split: option.splits dest!: map_of_SomeD) force

lemma update_absent:
  "k \<notin> fst ` set h \<Longrightarrow> AList.update k v h = h @ [(k, v)]"
  by (induction h) auto

lemma set_delete: "set (AList.delete k h) = {kv \<in> set h. fst kv \<noteq> k}"
  by (auto simp: AList.delete_eq)

lemma keys_delete [simp]: "fst ` set (AList.delete k h) = fst ` set h - {k}"
  by (force simp: set_delete)

lemma delete_map_pair:
  "AList.delete k (map (\<lambda>j. (j, f j)) ks) = map (\<lambda>j. (j, f j)) (filter (\<lambda>j. j \<noteq> k) ks)"
  by (induction ks) auto

lemma length_delete_distinct:
  assumes "distinct (map fst h)" and "k \<in> fst ` set h"
  shows "Suc (length (AList.delete k h)) = length h"
  using assms
proof (induction h)
  case Nil
  then show ?case by simp
next
  case (Cons kv h)
  show ?case
  proof (cases "fst kv = k")
    case True
    with Cons.prems have "AList.delete k h = h" by auto
    with True show ?thesis by (cases kv) auto
  next
    case False
    with Cons show ?thesis by (cases kv) auto
  qed
qed

lemma remove1_append_notin: "x \<notin> set xs \<Longrightarrow> remove1 x (xs @ ys) = xs @ remove1 x ys"
  by (simp add: remove1_append)

lemma filter_neq_remove1: "distinct xs \<Longrightarrow> filter (\<lambda>y. y \<noteq> x) xs = remove1 x xs"
  by (auto simp: distinct_remove1_removeAll removeAll_filter_not_eq intro: filter_cong)

section \<open>C strings\<close>

text \<open>The digits of the conversions \<^verbatim>\<open>%d\<close> and \<^verbatim>\<open>%i\<close>.\<close>

fun dec_digits :: "nat \<Rightarrow> string" where
  "dec_digits n = (if n < 10 then [char_of (48 + n)] else dec_digits (n div 10) @ [char_of (48 + n mod 10)])"

declare dec_digits.simps [simp del]

text \<open>Reading a string from a block of memory, up to the first zero byte.\<close>

definition c_string :: "char list \<Rightarrow> nat \<Rightarrow> fault + string" where
  "c_string buf off = (if CHR 0x00 \<in> set (drop off buf) then Inr (takeWhile (\<lambda>c. c \<noteq> CHR 0x00) (drop off buf))
     else Inl Out_Of_Bounds)"

lemma c_string_token:
  "CHR 0x00 \<notin> set tok \<Longrightarrow> c_string (tok @ CHR 0x00 # rest) 0 = Inr tok"
  by (simp add: c_string_def takeWhile_append)

lemma c_string_unterminated: "CHR 0x00 \<notin> set buf \<Longrightarrow> c_string buf 0 = Inl Out_Of_Bounds"
  by (simp add: c_string_def)

end
