(* ===== verification/Ordhash.thy ===== *)
theory Ordhash
  imports Prelude
begin

text \<open>
  The ordered hash table of \<^verbatim>\<open>src/vde_ordhash.c\<close>: a hash table beside the list of its
  keys in insertion order, with an iterator that walks the list in both directions. The
  contract it owes its clients is the locale \<open>ordered_table\<close>; the interpretation \<open>oh\<close>
  discharges it for the code in both build modes, and the context theory builds on it.

  The argument \<open>dbg\<close> says whether \<open>vde_assert\<close> is compiled in. The assertions
  \<open>oh != NULL\<close> are the caller's dereference of the pointer and appear there.
\<close>

section \<open>The structure and its operations\<close>

record vde_ordhash =
  oh_hash :: "(nat \<times> ptr) list"
  oh_list :: "nat list"

text \<open>
  A \<open>vde_ordhash_entry\<close> is a node of the key list. From it the code reaches the previous
  and the next nodes: the keys before it (nearest first), its own key, the keys after it.
\<close>

type_synonym vde_ordhash_entry = "nat list \<times> nat \<times> nat list"

definition fassert :: "bool \<Rightarrow> bool \<Rightarrow> fault + unit" where
  "fassert dbg b = (if dbg \<and> \<not> b then Inl Assert_Failed else Inr ())"

definition vde_ordhash_new :: "bool \<Rightarrow> vde_ordhash option" where
  "vde_ordhash_new calloc_null =
     (if calloc_null then None else Some \<lparr>oh_hash = [], oh_list = []\<rparr>)"

definition vde_ordhash_delete :: "bool \<Rightarrow> vde_ordhash \<Rightarrow> fault + unit" where
  "vde_ordhash_delete dbg oh =
     fbind (fassert dbg (length (oh_hash oh) = 0)) (\<lambda>_.
     fassert dbg (length (oh_list oh) = 0))"

definition vde_ordhash_insert :: "bool \<Rightarrow> vde_ordhash \<Rightarrow> nat \<Rightarrow> ptr \<Rightarrow> fault + vde_ordhash" where
  "vde_ordhash_insert dbg oh k v =
     fbind (fassert dbg (hget (oh_hash oh) k = NULL)) (\<lambda>_.
     Inr (oh\<lparr>oh_list := oh_list oh @ [k], oh_hash := AList.update k v (oh_hash oh)\<rparr>))"

definition vde_ordhash_remove :: "bool \<Rightarrow> vde_ordhash \<Rightarrow> nat \<Rightarrow> fault + int \<times> vde_ordhash" where
  "vde_ordhash_remove dbg oh k =
     fbind (fassert dbg (hget (oh_hash oh) k \<noteq> NULL)) (\<lambda>_.
     Inr (if k \<in> set (map fst (oh_hash oh)) then 1 else 0,
          oh\<lparr>oh_list := remove1 k (oh_list oh), oh_hash := AList.delete k (oh_hash oh)\<rparr>))"

definition vde_ordhash_lookup :: "vde_ordhash \<Rightarrow> nat \<Rightarrow> ptr" where
  "vde_ordhash_lookup oh k = hget (oh_hash oh) k"

definition vde_ordhash_first :: "vde_ordhash \<Rightarrow> vde_ordhash_entry option" where
  "vde_ordhash_first oh = (case oh_list oh of [] \<Rightarrow> None | k # ks \<Rightarrow> Some ([], k, ks))"

definition vde_ordhash_last :: "vde_ordhash \<Rightarrow> vde_ordhash_entry option" where
  "vde_ordhash_last oh = (case rev (oh_list oh) of [] \<Rightarrow> None | k # ks \<Rightarrow> Some (ks, k, []))"

fun vde_ordhash_next :: "vde_ordhash_entry \<Rightarrow> vde_ordhash_entry option" where
  "vde_ordhash_next (ps, k, []) = None"
| "vde_ordhash_next (ps, k, n # ns) = Some (k # ps, n, ns)"

fun vde_ordhash_prev :: "vde_ordhash_entry \<Rightarrow> vde_ordhash_entry option" where
  "vde_ordhash_prev ([], k, ns) = None"
| "vde_ordhash_prev (p # ps, k, ns) = Some (ps, p, k # ns)"

definition entry_key :: "vde_ordhash_entry \<Rightarrow> nat" where
  "entry_key e = fst (snd e)"

definition vde_ordhash_entry_lookup ::
  "bool \<Rightarrow> vde_ordhash \<Rightarrow> vde_ordhash_entry \<Rightarrow> fault + ptr" where
  "vde_ordhash_entry_lookup dbg oh e =
     (let v = hget (oh_hash oh) (entry_key e)
      in fbind (fassert dbg (v \<noteq> NULL)) (\<lambda>_. Inr v))"

definition vde_ordhash_entry_getkey ::
  "bool \<Rightarrow> vde_ordhash \<Rightarrow> vde_ordhash_entry \<Rightarrow> fault + nat" where
  "vde_ordhash_entry_getkey dbg oh e =
     fbind (fassert dbg (entry_key e \<noteq> 0)) (\<lambda>_. Inr (entry_key e))"

lemma fassert_simps [simp]:
  "fassert dbg True = Inr ()" "fassert False b = Inr ()"
  by (simp_all add: fassert_def)

lemma fassert_eq_Inr [simp]: "fassert dbg b = Inr u \<longleftrightarrow> (dbg \<longrightarrow> b)"
  by (auto simp: fassert_def)

lemma remove_length_less:
  assumes "oh_list oh = k # ks" and "vde_ordhash_remove dbg oh k = Inr (r, oh')"
  shows "length (oh_list oh') < length (oh_list oh)"
  using assms by (auto simp: vde_ordhash_remove_def fbind_eq_Inr)

function vde_ordhash_remove_all :: "bool \<Rightarrow> vde_ordhash \<Rightarrow> fault + vde_ordhash" where
  "vde_ordhash_remove_all dbg oh =
     (case oh_list oh of
        [] \<Rightarrow> Inr oh
      | k # _ \<Rightarrow>
          (case vde_ordhash_remove dbg oh k of
             Inl f \<Rightarrow> Inl f
           | Inr (r, oh') \<Rightarrow> vde_ordhash_remove_all dbg oh'))"
  by pat_completeness auto
termination
  by (relation "measure (\<lambda>(dbg, oh). length (oh_list oh))")
    (auto dest: remove_length_less [rotated])

declare vde_ordhash_remove_all.simps [simp del]

section \<open>The contract: a table with an insertion order\<close>

locale ordered_table =
  fixes ins :: "'m \<Rightarrow> nat \<Rightarrow> ptr \<Rightarrow> fault + 'm"
    and rem :: "'m \<Rightarrow> nat \<Rightarrow> fault + int \<times> 'm"
    and look :: "'m \<Rightarrow> nat \<Rightarrow> ptr"
    and ents :: "'m \<Rightarrow> (nat \<times> ptr) list"
    and inv :: "'m \<Rightarrow> bool"
  assumes look_ents: "inv m \<Longrightarrow> look m k = hget (ents m) k"
    and ents_distinct: "inv m \<Longrightarrow> distinct (map fst (ents m))"
    and ents_nonnull: "inv m \<Longrightarrow> (k, v) \<in> set (ents m) \<Longrightarrow> v \<noteq> NULL"
    and ins_ok: "inv m \<Longrightarrow> look m k = NULL \<Longrightarrow> v \<noteq> NULL \<Longrightarrow>
      \<exists>m'. ins m k v = Inr m' \<and> inv m' \<and> ents m' = ents m @ [(k, v)]"
    and rem_ok: "inv m \<Longrightarrow> look m k \<noteq> NULL \<Longrightarrow>
      \<exists>m'. rem m k = Inr (1, m') \<and> inv m' \<and> ents m' = AList.delete k (ents m)"
begin

lemma look_iff:
  assumes "inv m"
  shows "look m k = v \<and> v \<noteq> NULL \<longleftrightarrow> (k, v) \<in> set (ents m)"
proof -
  have "(k, v) \<in> set (ents m) \<longleftrightarrow> map_of (ents m) k = Some v"
    using ents_distinct [OF assms] by simp
  moreover have "map_of (ents m) k = Some v \<Longrightarrow> v \<noteq> NULL" for v
    using ents_nonnull [OF assms] by (blast dest: map_of_SomeD)
  ultimately show ?thesis
    by (auto simp: look_ents [OF assms] hget_def split: option.splits)
qed

lemma look_NULL:
  assumes "inv m" and "look m k = NULL"
  shows "k \<notin> fst ` set (ents m)"
  using look_iff [OF assms(1), of k] assms(2) ents_nonnull [OF assms(1)] by auto

lemma look_ins:
  assumes "inv m" and "look m k = NULL" and "v \<noteq> NULL" and "ins m k v = Inr m'"
  shows "inv m' \<and> look m' j = (if j = k then v else look m j)"
proof -
  from ins_ok [OF assms(1-3)] assms(4) have m': "inv m'" "ents m' = ents m @ [(k, v)]"
    by auto
  from assms(1,2) have "k \<notin> fst ` set (ents m)" by (rule look_NULL)
  then have "ents m' = AList.update k v (ents m)"
    by (simp add: m' update_absent)
  then show ?thesis by (simp add: m'(1) assms(1) look_ents)
qed

lemma look_rem:
  assumes "inv m" and "look m k \<noteq> NULL" and "rem m k = Inr (r, m')"
  shows "r = 1 \<and> inv m' \<and> look m' j = (if j = k then NULL else look m j)"
proof -
  from rem_ok [OF assms(1,2)] assms(3)
  have m': "r = 1" "inv m'" "ents m' = AList.delete k (ents m)"
    by auto
  then show ?thesis by (simp add: assms(1) look_ents)
qed

text \<open>Removing the key inserted last restores the table's contents and order.\<close>

lemma rem_ins:
  assumes "inv m" and "look m k = NULL" and "v \<noteq> NULL"
  shows "\<exists>m1 m2. ins m k v = Inr m1 \<and> rem m1 k = Inr (1, m2) \<and> ents m2 = ents m"
proof -
  obtain m1 where m1: "ins m k v = Inr m1" "inv m1" "ents m1 = ents m @ [(k, v)]"
    using ins_ok [OF assms] by blast
  have "look m1 k \<noteq> NULL"
    using look_ins [OF assms m1(1)] assms(3) by simp
  with rem_ok [OF m1(2)] obtain m2 where
    m2: "rem m1 k = Inr (1, m2)" "ents m2 = AList.delete k (ents m1)" by blast
  from assms(1,2) have "k \<notin> fst ` set (ents m)" by (rule look_NULL)
  then have "AList.delete k (ents m @ [(k, v)]) = ents m"
    using delete_id [of k "ents m"] by (simp add: AList.delete_eq)
  with m1 m2 show ?thesis by auto
qed

end

section \<open>The code meets the contract\<close>

definition oh_inv :: "vde_ordhash \<Rightarrow> bool" where
  "oh_inv oh \<longleftrightarrow> distinct (map fst (oh_hash oh)) \<and> distinct (oh_list oh) \<and>
     set (oh_list oh) = fst ` set (oh_hash oh) \<and> NULL \<notin> snd ` set (oh_hash oh)"

definition oh_ents :: "vde_ordhash \<Rightarrow> (nat \<times> ptr) list" where
  "oh_ents oh = map (\<lambda>k. (k, hget (oh_hash oh) k)) (oh_list oh)"

lemma oh_ents_keys [simp]: "map fst (oh_ents oh) = oh_list oh"
  by (simp add: oh_ents_def comp_def)

lemma oh_ents_set_keys [simp]: "fst ` set (oh_ents oh) = set (oh_list oh)"
  by (metis oh_ents_keys set_map)

lemma hget_nonnull_iff:
  assumes "oh_inv oh"
  shows "hget (oh_hash oh) k \<noteq> NULL \<longleftrightarrow> k \<in> set (oh_list oh)"
proof
  assume "hget (oh_hash oh) k \<noteq> NULL"
  with assms show "k \<in> set (oh_list oh)"
    by (auto simp: oh_inv_def dest: hget_in_keys)
next
  assume "k \<in> set (oh_list oh)"
  with assms obtain v where v: "(k, v) \<in> set (oh_hash oh)"
    by (auto simp: oh_inv_def)
  with assms have "map_of (oh_hash oh) k = Some v" and "v \<noteq> NULL"
    by (auto simp: oh_inv_def image_iff)
  then show "hget (oh_hash oh) k \<noteq> NULL" by (simp add: hget_def)
qed

lemma map_of_oh_ents:
  "map_of (oh_ents oh) k =
     (if k \<in> set (oh_list oh) then Some (hget (oh_hash oh) k) else None)"
  by (simp add: oh_ents_def map_of_map_restrict restrict_map_def comp_def)

lemma hget_oh_ents: "oh_inv oh \<Longrightarrow> hget (oh_ents oh) k = hget (oh_hash oh) k"
  using hget_nonnull_iff [of oh k] by (auto simp: hget_def [of "oh_ents oh"] map_of_oh_ents)

lemma oh_insert_ok:
  assumes "oh_inv oh" and "hget (oh_hash oh) k = NULL" and "v \<noteq> NULL"
  shows "\<exists>oh'. vde_ordhash_insert dbg oh k v = Inr oh' \<and> oh_inv oh' \<and>
    oh_ents oh' = oh_ents oh @ [(k, v)]"
proof -
  have new: "k \<notin> set (oh_list oh)" using assms(2) hget_nonnull_iff [OF assms(1)] by auto
  with assms(1) have absent: "k \<notin> fst ` set (oh_hash oh)" by (simp add: oh_inv_def)
  define oh' where "oh' = oh\<lparr>oh_list := oh_list oh @ [k],
      oh_hash := AList.update k v (oh_hash oh)\<rparr>"
  have "vde_ordhash_insert dbg oh k v = Inr oh'"
    by (simp add: vde_ordhash_insert_def assms(2) oh'_def)
  moreover have "oh_inv oh'"
    using assms new absent by (auto simp: oh_inv_def oh'_def update_absent)
  moreover have "oh_ents oh' = oh_ents oh @ [(k, v)]"
    using new by (auto simp: oh_ents_def oh'_def)
  ultimately show ?thesis by blast
qed

lemma oh_remove_ok:
  assumes "oh_inv oh" and "hget (oh_hash oh) k \<noteq> NULL"
  shows "\<exists>oh'. vde_ordhash_remove dbg oh k = Inr (1, oh') \<and> oh_inv oh' \<and>
    oh_ents oh' = AList.delete k (oh_ents oh)"
proof -
  define oh' where "oh' = oh\<lparr>oh_list := remove1 k (oh_list oh),
      oh_hash := AList.delete k (oh_hash oh)\<rparr>"
  have "k \<in> set (map fst (oh_hash oh))" using assms(2) by (auto dest: hget_in_keys)
  then have "vde_ordhash_remove dbg oh k = Inr (1, oh')"
    using assms(2) by (simp add: vde_ordhash_remove_def oh'_def)
  moreover have "oh_inv oh'"
    using assms(1)
    by (auto simp: oh_inv_def oh'_def distinct_delete set_delete)
  moreover have "oh_ents oh' = AList.delete k (oh_ents oh)"
    using assms(1)
    by (auto simp: oh_ents_def oh'_def oh_inv_def delete_map_pair filter_neq_remove1 [symmetric])
  ultimately show ?thesis by blast
qed

interpretation oh: ordered_table
  "vde_ordhash_insert dbg" "vde_ordhash_remove dbg" vde_ordhash_lookup oh_ents oh_inv
  for dbg
proof
  show "vde_ordhash_lookup m k = hget (oh_ents m) k" if "oh_inv m" for m k
    by (simp add: vde_ordhash_lookup_def hget_oh_ents that)
  show "distinct (map fst (oh_ents m))" if "oh_inv m" for m
    using that by (simp add: oh_inv_def)
  show "v \<noteq> NULL" if "oh_inv m" and "(k, v) \<in> set (oh_ents m)" for m k v
    using that(2) hget_nonnull_iff [OF that(1)] by (auto simp: oh_ents_def)
qed (auto simp: vde_ordhash_lookup_def oh_insert_ok oh_remove_ok)

section \<open>Iteration and emptying\<close>

text \<open>
  The two loops clients run over the table (\<^verbatim>\<open>vde_context_fini\<close>, the unit test): from
  the first entry by \<open>vde_ordhash_next\<close>, from the last by \<open>vde_ordhash_prev\<close>, looking
  each entry up.
\<close>

function walk_forward :: "bool \<Rightarrow> vde_ordhash \<Rightarrow> vde_ordhash_entry option \<Rightarrow> fault + ptr list" where
  "walk_forward dbg oh None = Inr []"
| "walk_forward dbg oh (Some e) =
     fbind (vde_ordhash_entry_lookup dbg oh e) (\<lambda>v.
     fbind (walk_forward dbg oh (vde_ordhash_next e)) (\<lambda>vs. Inr (v # vs)))"
  by pat_completeness auto
termination
  by (relation "measure (\<lambda>(dbg, oh, e). case e of None \<Rightarrow> 0 | Some (ps, k, ns) \<Rightarrow> Suc (length ns))")
    (auto split: option.splits elim: vde_ordhash_next.elims)

function walk_backward :: "bool \<Rightarrow> vde_ordhash \<Rightarrow> vde_ordhash_entry option \<Rightarrow> fault + ptr list" where
  "walk_backward dbg oh None = Inr []"
| "walk_backward dbg oh (Some e) =
     fbind (vde_ordhash_entry_lookup dbg oh e) (\<lambda>v.
     fbind (walk_backward dbg oh (vde_ordhash_prev e)) (\<lambda>vs. Inr (v # vs)))"
  by pat_completeness auto
termination
  by (relation "measure (\<lambda>(dbg, oh, e). case e of None \<Rightarrow> 0 | Some (ps, k, ns) \<Rightarrow> Suc (length ps))")
    (auto split: option.splits elim: vde_ordhash_prev.elims)

lemma entry_lookup_ok:
  "oh_inv oh \<Longrightarrow> entry_key e \<in> set (oh_list oh) \<Longrightarrow>
    vde_ordhash_entry_lookup dbg oh e = Inr (hget (oh_hash oh) (entry_key e))"
  by (simp add: vde_ordhash_entry_lookup_def Let_def hget_nonnull_iff)

lemma walk_forward_from:
  "oh_inv oh \<Longrightarrow> set (k # ns) \<subseteq> set (oh_list oh) \<Longrightarrow>
    walk_forward dbg oh (Some (ps, k, ns)) = Inr (map (hget (oh_hash oh)) (k # ns))"
proof (induction ns arbitrary: ps k)
  case Nil
  then show ?case by (simp add: entry_lookup_ok entry_key_def)
next
  case (Cons n ns)
  then show ?case by (simp add: entry_lookup_ok entry_key_def)
qed

lemma walk_backward_from:
  "oh_inv oh \<Longrightarrow> set (k # ps) \<subseteq> set (oh_list oh) \<Longrightarrow>
    walk_backward dbg oh (Some (ps, k, ns)) = Inr (map (hget (oh_hash oh)) (k # ps))"
proof (induction ps arbitrary: ns k)
  case Nil
  then show ?case by (simp add: entry_lookup_ok entry_key_def)
next
  case (Cons p ps)
  then show ?case by (simp add: entry_lookup_ok entry_key_def)
qed

lemma map_snd_oh_ents: "map snd (oh_ents oh) = map (hget (oh_hash oh)) (oh_list oh)"
  by (simp add: oh_ents_def comp_def)

lemma walk_first:
  "oh_inv oh \<Longrightarrow> walk_forward dbg oh (vde_ordhash_first oh) = Inr (map snd (oh_ents oh))"
  by (cases "oh_list oh")
    (simp_all add: vde_ordhash_first_def map_snd_oh_ents walk_forward_from
      del: walk_forward.simps(2))

lemma walk_last:
  assumes "oh_inv oh"
  shows "walk_backward dbg oh (vde_ordhash_last oh) = Inr (rev (map snd (oh_ents oh)))"
proof (cases "rev (oh_list oh)")
  case Nil
  then show ?thesis by (simp add: vde_ordhash_last_def map_snd_oh_ents)
next
  case (Cons k ps)
  then have "set (k # ps) \<subseteq> set (oh_list oh)" by (metis order_refl set_rev)
  from walk_backward_from [OF assms this] Cons show ?thesis
    by (simp add: vde_ordhash_last_def map_snd_oh_ents flip: rev_map)
qed

lemma remove_all_empties:
  assumes "oh_inv oh"
  shows "vde_ordhash_remove_all dbg oh = Inr (oh\<lparr>oh_hash := [], oh_list := []\<rparr>)"
  using assms
proof (induction dbg oh rule: vde_ordhash_remove_all.induct)
  case (1 dbg oh)
  show ?case
  proof (cases "oh_list oh")
    case Nil
    with "1.prems" have "oh_hash oh = []" by (simp add: oh_inv_def)
    with Nil show ?thesis by (simp add: vde_ordhash_remove_all.simps [of dbg oh])
  next
    case (Cons k ks)
    with "1.prems" have "hget (oh_hash oh) k \<noteq> NULL" by (simp add: hget_nonnull_iff)
    from oh_remove_ok [OF "1.prems" this] obtain oh' where
      oh': "vde_ordhash_remove dbg oh k = Inr (1, oh')" "oh_inv oh'" by blast
    then have "vde_ordhash_remove_all dbg oh' = Inr (oh'\<lparr>oh_hash := [], oh_list := []\<rparr>)"
      using Cons by (intro "1.IH") auto
    moreover have "oh'\<lparr>oh_hash := [], oh_list := []\<rparr> = oh\<lparr>oh_hash := [], oh_list := []\<rparr>"
      using oh'(1) by (auto simp: vde_ordhash_remove_def fbind_eq_Inr)
    ultimately show ?thesis
      using oh'(1) Cons by (simp add: vde_ordhash_remove_all.simps [of dbg oh])
  qed
qed

section \<open>Histories of operations\<close>

text \<open>
  A client's history of insertions and removals, run on the code and on the abstract table (an
  association list in insertion order). \<open>spec_run\<close> gives \<open>None\<close> for a history that
  breaks the documented preconditions: inserting a present key or the value \<open>NULL\<close>,
  removing an absent key.
\<close>

datatype oh_op = Insert nat ptr | Remove nat

fun oh_run :: "bool \<Rightarrow> vde_ordhash \<Rightarrow> oh_op list \<Rightarrow> fault + vde_ordhash" where
  "oh_run dbg oh [] = Inr oh"
| "oh_run dbg oh (Insert k v # ops) =
     fbind (vde_ordhash_insert dbg oh k v) (\<lambda>oh'. oh_run dbg oh' ops)"
| "oh_run dbg oh (Remove k # ops) =
     fbind (vde_ordhash_remove dbg oh k) (\<lambda>r. oh_run dbg (snd r) ops)"

fun spec_run :: "(nat \<times> ptr) list \<Rightarrow> oh_op list \<Rightarrow> (nat \<times> ptr) list option" where
  "spec_run es [] = Some es"
| "spec_run es (Insert k v # ops) =
     (if hget es k = NULL \<and> v \<noteq> NULL then spec_run (es @ [(k, v)]) ops else None)"
| "spec_run es (Remove k # ops) =
     (if hget es k \<noteq> NULL then spec_run (AList.delete k es) ops else None)"

lemma oh_run_refines:
  assumes "oh_inv oh" and "spec_run (oh_ents oh) ops = Some es"
  shows "\<exists>oh'. oh_run dbg oh ops = Inr oh' \<and> oh_inv oh' \<and> oh_ents oh' = es"
  using assms
proof (induction ops arbitrary: oh)
  case Nil
  then show ?case by simp
next
  case (Cons op ops)
  show ?case
  proof (cases op)
    case (Insert k v)
    with Cons.prems have k: "vde_ordhash_lookup oh k = NULL" "v \<noteq> NULL"
      and r: "spec_run (oh_ents oh @ [(k, v)]) ops = Some es"
      by (auto simp: oh.look_ents split: if_splits)
    obtain oh1 where "vde_ordhash_insert dbg oh k v = Inr oh1" "oh_inv oh1"
      "oh_ents oh1 = oh_ents oh @ [(k, v)]"
      using oh.ins_ok [OF Cons.prems(1) k] by blast
    with Cons.IH [of oh1] r Insert show ?thesis by simp
  next
    case (Remove k)
    with Cons.prems have k: "vde_ordhash_lookup oh k \<noteq> NULL"
      and r: "spec_run (AList.delete k (oh_ents oh)) ops = Some es"
      by (auto simp: oh.look_ents split: if_splits)
    obtain oh1 where "vde_ordhash_remove dbg oh k = Inr (1, oh1)" "oh_inv oh1"
      "oh_ents oh1 = AList.delete k (oh_ents oh)"
      using oh.rem_ok [OF Cons.prems(1) k] by blast
    with Cons.IH [of oh1] r Remove show ?thesis by simp
  qed
qed

lemma oh_inv_new: "vde_ordhash_new False = Some oh \<Longrightarrow> oh_inv oh \<and> oh_ents oh = []"
  by (auto simp: vde_ordhash_new_def oh_inv_def oh_ents_def)

section \<open>Properties\<close>

text \<open>
  C13: Every history of insertions and removals that respects the documented preconditions, run on
  a new table in either build mode, never faults, keeps the invariant, and leaves exactly the
  entries that the abstract insertion-ordered table holds, in the order of their insertion.
\<close>

theorem ordhash_history_refines_ordered_table:
  assumes "vde_ordhash_new False = Some oh" and "spec_run [] ops = Some es"
  shows "\<exists>oh'. oh_run dbg oh ops = Inr oh' \<and> oh_inv oh' \<and> oh_ents oh' = es \<and>
    (\<forall>k. vde_ordhash_lookup oh' k = hget es k)"
proof -
  from oh_inv_new [OF assms(1)] oh_run_refines assms(2) obtain oh' where
    "oh_run dbg oh ops = Inr oh'" "oh_inv oh'" "oh_ents oh' = es" by metis
  then show ?thesis using oh.look_ents by metis
qed

theorem ordhash_history_refines_ordered_table_witness:
  "\<exists>oh'. oh_run True \<lparr>oh_hash = [], oh_list = []\<rparr>
      [Insert 5 50, Insert 3 30, Remove 5, Insert 5 51] = Inr oh' \<and>
    oh_ents oh' = [(3, 30), (5, 51)]"
  using ordhash_history_refines_ordered_table
    [of "\<lparr>oh_hash = [], oh_list = []\<rparr>" "[Insert 5 50, Insert 3 30, Remove 5, Insert 5 51]"
      "[(3, 30), (5, 51)]" True]
  by (auto simp: vde_ordhash_new_def hget_def)

text \<open>
  The iterator of a table satisfying the invariant visits every entry exactly once: from the
  first entry by \<open>next\<close> oldest to youngest, from the last by \<open>prev\<close> youngest to oldest, and
  no lookup of an entry fails, also with assertions compiled in.
\<close>

theorem ordhash_iterators_visit_in_order:
  assumes "oh_inv oh"
  shows "walk_forward dbg oh (vde_ordhash_first oh) = Inr (map snd (oh_ents oh)) \<and>
    walk_backward dbg oh (vde_ordhash_last oh) = Inr (rev (map snd (oh_ents oh)))"
  using walk_first [OF assms] walk_last [OF assms] by simp

theorem ordhash_iterators_visit_in_order_witness:
  "walk_forward True \<lparr>oh_hash = [(3, 4), (1, 2)], oh_list = [1, 3]\<rparr>
     (vde_ordhash_first \<lparr>oh_hash = [(3, 4), (1, 2)], oh_list = [1, 3]\<rparr>) = Inr [2, 4] \<and>
   oh_inv \<lparr>oh_hash = [(3, 4), (1, 2)], oh_list = [1, 3]\<rparr>"
proof -
  have inv: "oh_inv \<lparr>oh_hash = [(3, 4), (1, 2)], oh_list = [1, 3]\<rparr>"
    by (auto simp: oh_inv_def)
  from ordhash_iterators_visit_in_order [OF inv, of True] inv show ?thesis
    by (simp add: oh_ents_def hget_def)
qed

text \<open>
  C14: \<open>vde_ordhash_remove_all\<close> terminates on every table, and on one satisfying the invariant it
  returns the empty table without failing an assertion, so that \<open>vde_ordhash_delete\<close> accepts it.
\<close>

theorem ordhash_remove_all_then_delete:
  assumes "oh_inv oh"
  shows "fbind (vde_ordhash_remove_all dbg oh) (vde_ordhash_delete dbg) = Inr ()"
  using remove_all_empties [OF assms] by (simp add: vde_ordhash_delete_def)

theorem ordhash_remove_all_then_delete_witness:
  "fbind (vde_ordhash_remove_all True \<lparr>oh_hash = [(3, 4), (1, 2)], oh_list = [1, 3]\<rparr>)
     (vde_ordhash_delete True) = Inr () \<and>
   vde_ordhash_delete True \<lparr>oh_hash = [(3, 4), (1, 2)], oh_list = [1, 3]\<rparr> = Inl Assert_Failed"
proof -
  have inv: "oh_inv \<lparr>oh_hash = [(3, 4), (1, 2)], oh_list = [1, 3]\<rparr>"
    by (auto simp: oh_inv_def)
  from ordhash_remove_all_then_delete [OF inv, of True] show ?thesis
    by (simp add: vde_ordhash_delete_def fassert_def)
qed

end
