(* ===== verification/Packet.thy ===== *)
theory Packet
  imports Prelude
begin

text \<open>
  Packets, \<^verbatim>\<open>src/include/vde3/packet.h\<close>: the layout of a \<open>vde_pkt\<close> inside its block of
  memory, allocation, and the two copies. The pointers \<open>hdr\<close>, \<open>head\<close>, \<open>payload\<close> and
  \<open>tail\<close> point into \<open>data\<close> and are offsets from it (\<open>hdr\<close> is always at offset 0);
  \<open>p_data\<close> is the memory from \<open>data\<close> to the end of the allocation. The header occupies its
  first four bytes: version, type, and the payload length as a little-endian \<open>uint16_t\<close>.
  Sizes are those of the LP64 ABI. Accesses outside the allocation are the fault
  \<open>Out_Of_Bounds\<close>.
\<close>

section \<open>Bytes of memory\<close>

definition mem_read :: "char list \<Rightarrow> int \<Rightarrow> nat \<Rightarrow> fault + char list" where
  "mem_read m off n =
     (if 0 \<le> off \<and> nat off + n \<le> length m then Inr (take n (drop (nat off) m))
      else Inl Out_Of_Bounds)"

definition mem_write :: "char list \<Rightarrow> int \<Rightarrow> char list \<Rightarrow> fault + char list" where
  "mem_write m off bs =
     (if 0 \<le> off \<and> nat off + length bs \<le> length m
      then Inr (take (nat off) m @ bs @ drop (nat off + length bs) m)
      else Inl Out_Of_Bounds)"

lemma mem_read_write_same:
  "mem_write m off bs = Inr m' \<Longrightarrow> n = length bs \<Longrightarrow> mem_read m' off n = Inr bs"
  by (auto simp: mem_write_def mem_read_def split: if_splits)

lemma mem_write_length: "mem_write m off bs = Inr m' \<Longrightarrow> length m' = length m"
  by (auto simp: mem_write_def split: if_splits)

lemma mem_write_ok:
  "0 \<le> off \<Longrightarrow> nat off + length bs \<le> length m \<Longrightarrow> \<exists>m'. mem_write m off bs = Inr m'"
  by (simp add: mem_write_def)

lemma take_drop_append: "i + n \<le> length A \<Longrightarrow> take n (drop i (A @ B)) = take n (drop i A)"
  by simp

lemma take_drop_take: "i + n \<le> j \<Longrightarrow> take n (drop i (take j m)) = take n (drop i m)"
  by (simp add: drop_take min_def)

lemma mem_read_write_before:
  assumes "mem_write m off bs = Inr m'" and "0 \<le> i" and "nat i + n \<le> nat off"
  shows "mem_read m' i n = mem_read m i n"
proof -
  from assms(1) have le: "nat off + length bs \<le> length m"
    and m': "m' = take (nat off) m @ bs @ drop (nat off + length bs) m"
    by (auto simp: mem_write_def split: if_splits)
  have "take n (drop (nat i) m') = take n (drop (nat i) (take (nat off) m))"
    unfolding m' using assms(3) le by (intro take_drop_append) simp
  also have "\<dots> = take n (drop (nat i) m)"
    using assms(3) by (rule take_drop_take)
  finally show ?thesis
    using assms(2,3) le mem_write_length [OF assms(1)] by (simp add: mem_read_def)
qed

lemma mem_read_write_after:
  assumes "mem_write m off bs = Inr m'" and "nat off + length bs \<le> nat i" and "0 \<le> i"
  shows "mem_read m' i n = mem_read m i n"
proof -
  from assms(1) have le: "nat off + length bs \<le> length m"
    and m': "m' = take (nat off) m @ bs @ drop (nat off + length bs) m"
    by (auto simp: mem_write_def split: if_splits)
  have "drop (nat i) m' = drop (nat i) m"
    unfolding m' using assms(2) le by simp
  then show ?thesis using mem_write_length [OF assms(1)] by (simp add: mem_read_def)
qed

section \<open>The packet structure\<close>

definition SIZEOF_VDE_HDR :: nat where "SIZEOF_VDE_HDR = 4"
definition SIZEOF_VDE_PKT :: nat where "SIZEOF_VDE_PKT = 40"
definition OFFSETOF_DATA :: nat where "OFFSETOF_DATA = 36"
definition SIZEOF_ETH_HDR :: nat where "SIZEOF_ETH_HDR = 14"
definition SIZEOF_ETH_FRAME :: nat where "SIZEOF_ETH_FRAME = SIZEOF_ETH_HDR + (1500 + 4)"

lemmas size_defs = SIZEOF_VDE_HDR_def SIZEOF_VDE_PKT_def OFFSETOF_DATA_def
  SIZEOF_ETH_HDR_def SIZEOF_ETH_FRAME_def

record vde_pkt =
  p_head :: int
  p_payload :: int
  p_tail :: int
  data_size :: "32 word"
  p_data :: "char list"

definition get_pkt_len :: "vde_pkt \<Rightarrow> fault + nat" where
  "get_pkt_len p =
     fbind (mem_read (p_data p) 2 2) (\<lambda>b. Inr (of_char (b ! 0) + 256 * of_char (b ! 1)))"

definition set_pkt_len :: "vde_pkt \<Rightarrow> nat \<Rightarrow> fault + vde_pkt" where
  "set_pkt_len p n =
     fbind (mem_write (p_data p) 2 [char_of (n mod 256), char_of (n div 256 mod 256)]) (\<lambda>d.
     Inr (p\<lparr>p_data := d\<rparr>))"

text \<open>The payload a packet carries: \<open>pkt_len\<close> bytes from the payload pointer.\<close>

definition pkt_bytes :: "vde_pkt \<Rightarrow> fault + char list" where
  "pkt_bytes p = fbind (get_pkt_len p) (\<lambda>n. mem_read (p_data p) (p_payload p) n)"

definition vde_pkt_init :: "vde_pkt \<Rightarrow> 32 word \<Rightarrow> 32 word \<Rightarrow> 32 word \<Rightarrow> vde_pkt" where
  "vde_pkt_init p dsz head tail =
     p\<lparr>p_head := int SIZEOF_VDE_HDR,
       p_payload := int SIZEOF_VDE_HDR + uint head,
       p_tail := uint dsz - uint tail,
       data_size := dsz\<rparr>"

text \<open>
  The sizes are added up in \<open>unsigned int\<close> and wrap around. \<open>g_malloc0\<close> of size 0 gives
  \<open>NULL\<close>; a block smaller than the structure is written out of bounds.
\<close>

definition vde_pkt_new ::
  "bool \<Rightarrow> 32 word \<Rightarrow> 32 word \<Rightarrow> 32 word \<Rightarrow> fault + vde_pkt option" where
  "vde_pkt_new malloc_null payload_sz head tail =
     (let data_sz = of_nat SIZEOF_VDE_HDR + head + payload_sz + tail;
          pkt_sz = of_nat SIZEOF_VDE_PKT + data_sz
      in if malloc_null \<or> pkt_sz = 0 then Inr None
         else if unat pkt_sz < SIZEOF_VDE_PKT then Inl Out_Of_Bounds
         else Inr (Some (vde_pkt_init
           \<lparr>p_head = 0, p_payload = 0, p_tail = 0, data_size = 0,
            p_data = replicate (unat pkt_sz - OFFSETOF_DATA) (char_of (0::nat))\<rparr>
           data_sz head tail)))"

definition vde_pkt_cpy :: "vde_pkt \<Rightarrow> vde_pkt \<Rightarrow> fault + vde_pkt" where
  "vde_pkt_cpy dst src =
     (let dst = vde_pkt_init dst (data_size src)
                  (word_of_int (p_payload src - p_head src))
                  (word_of_int (uint (data_size src) - p_tail src))
      in fbind (mem_read (p_data src) 0 (unat (data_size src))) (\<lambda>bs.
         fbind (mem_write (p_data dst) 0 bs) (\<lambda>d. Inr (dst\<lparr>p_data := d\<rparr>))))"

definition vde_pkt_compact_cpy :: "vde_pkt \<Rightarrow> vde_pkt \<Rightarrow> fault + vde_pkt" where
  "vde_pkt_compact_cpy dst src =
     (let dst = vde_pkt_init dst (data_size src) 0 0
      in fbind (mem_read (p_data src) 0 SIZEOF_VDE_HDR) (\<lambda>h.
         fbind (mem_write (p_data dst) 0 h) (\<lambda>d1.
         fbind (get_pkt_len src) (\<lambda>n.
         fbind (mem_read (p_data src) (p_payload src) n) (\<lambda>bs.
         fbind (mem_write d1 (p_payload dst) bs) (\<lambda>d2.
         Inr (dst\<lparr>p_data := d2\<rparr>)))))))"

section \<open>Well-formed packets\<close>

text \<open>
  Header, head space, payload and tail space follow each other inside the allocation, and the
  payload the header announces lies between the payload and the tail pointers.
\<close>

definition pkt_wf :: "vde_pkt \<Rightarrow> bool" where
  "pkt_wf p \<longleftrightarrow> p_head p = int SIZEOF_VDE_HDR \<and> p_head p \<le> p_payload p \<and>
     p_payload p \<le> p_tail p \<and> p_tail p \<le> uint (data_size p) \<and>
     unat (data_size p) \<le> length (p_data p) \<and>
     (\<exists>n. get_pkt_len p = Inr n \<and> p_payload p + int n \<le> p_tail p)"

lemma nat_offset_le:
  assumes "0 \<le> x" and "x + int n \<le> uint (k :: 32 word)"
  shows "nat x + n \<le> unat k"
proof -
  have "int (nat x) = x" and "int (unat k) = uint k" using assms(1) by simp_all
  with assms(2) show ?thesis by linarith
qed

lemma pkt_wf_bytes:
  assumes "pkt_wf p"
  obtains n bs where "get_pkt_len p = Inr n" and "pkt_bytes p = Inr bs" and "length bs = n"
    and "mem_read (p_data p) (p_payload p) n = Inr bs" and "4 + n \<le> unat (data_size p)"
proof -
  from assms obtain n where n: "get_pkt_len p = Inr n" "p_payload p + int n \<le> p_tail p"
    and p: "p_head p = 4" "4 \<le> p_payload p" "p_tail p \<le> uint (data_size p)"
      "unat (data_size p) \<le> length (p_data p)"
    by (auto simp: pkt_wf_def size_defs)
  have le: "nat (p_payload p) + n \<le> unat (data_size p)"
    using n(2) p by (intro nat_offset_le) linarith+
  with p have "mem_read (p_data p) (p_payload p) n = Inr (take n (drop (nat (p_payload p)) (p_data p)))"
    by (simp add: mem_read_def)
  moreover have "length (take n (drop (nat (p_payload p)) (p_data p))) = n"
    using le p by simp
  moreover have "4 + n \<le> unat (data_size p)"
    using le p(2) by linarith
  ultimately show ?thesis
    using that [OF n(1)] by (simp add: pkt_bytes_def n(1))
qed

lemma get_pkt_len_cong:
  "mem_read d 0 4 = mem_read d' 0 4 \<Longrightarrow> 4 \<le> length d \<Longrightarrow> 4 \<le> length d' \<Longrightarrow>
    get_pkt_len (p\<lparr>p_data := d\<rparr>) = get_pkt_len (q\<lparr>p_data := d'\<rparr>)"
proof -
  assume a: "mem_read d 0 4 = mem_read d' 0 4" "4 \<le> length d" "4 \<le> length d'"
  then have t: "take 4 d = take 4 d'" by (simp add: mem_read_def)
  have "take 2 (drop 2 d) = drop 2 (take 4 d)" for d :: "char list" by (simp add: drop_take)
  with t have "take 2 (drop 2 d) = take 2 (drop 2 d')" by metis
  with a show ?thesis by (simp add: get_pkt_len_def mem_read_def)
qed

lemma set_get_pkt_len:
  assumes "set_pkt_len p n = Inr p'"
  shows "get_pkt_len p' = Inr (n mod 65536)"
proof -
  from assms obtain d where
    d: "mem_write (p_data p) 2 [char_of (n mod 256), char_of (n div 256 mod 256)] = Inr d"
    and p': "p' = p\<lparr>p_data := d\<rparr>"
    by (auto simp: set_pkt_len_def fbind_eq_Inr)
  have "n mod 65536 = n mod 256 + 256 * (n div 256 mod 256)"
    using mod_mult2_eq [of n 256 256] by simp
  with mem_read_write_same [OF d, of 2] show ?thesis
    by (simp add: p' get_pkt_len_def)
qed

lemma uint_word_of_int_id: "0 \<le> x \<Longrightarrow> x < 2 ^ 32 \<Longrightarrow> uint (word_of_int x :: 32 word) = x"
  by (simp add: unsigned_of_int take_bit_int_eq_self)

lemma get_pkt_len_prefix:
  "take 4 (p_data p) = take 4 (p_data q) \<Longrightarrow> 4 \<le> length (p_data p) \<Longrightarrow> 4 \<le> length (p_data q) \<Longrightarrow>
    get_pkt_len p = get_pkt_len q"
  using get_pkt_len_cong [of "p_data p" "p_data q" p q] by (simp add: mem_read_def)

text \<open>Storing the length in the header does not touch the payload.\<close>

lemma set_pkt_len_bytes:
  assumes "set_pkt_len p n = Inr q" and "4 \<le> p_payload p"
  shows "q = p\<lparr>p_data := p_data q\<rparr>" and "length (p_data q) = length (p_data p)"
    and "get_pkt_len q = Inr (n mod 65536)" and "pkt_bytes q = mem_read (p_data p) (p_payload p) (n mod 65536)"
proof -
  obtain d where d: "mem_write (p_data p) 2 [char_of (n mod 256), char_of (n div 256 mod 256)] = Inr d"
    and q: "q = p\<lparr>p_data := d\<rparr>"
    using assms(1) by (auto simp: set_pkt_len_def fbind_eq_Inr)
  show "q = p\<lparr>p_data := p_data q\<rparr>" "length (p_data q) = length (p_data p)"
    using q mem_write_length [OF d] by simp_all
  show g: "get_pkt_len q = Inr (n mod 65536)" using assms(1) by (rule set_get_pkt_len)
  have "mem_read d (p_payload p) k = mem_read (p_data p) (p_payload p) k" for k
    using d by (rule mem_read_write_after) (use assms(2) in simp_all)
  then show "pkt_bytes q = mem_read (p_data p) (p_payload p) (n mod 65536)"
    using g by (simp add: pkt_bytes_def q)
qed

lemma set_pkt_len_ok: "4 \<le> length (p_data p) \<Longrightarrow> \<exists>q. set_pkt_len p n = Inr q"
  by (simp add: set_pkt_len_def mem_write_def)

section \<open>Properties\<close>

text \<open>
  C15: As long as the sum of the requested sizes does not overflow \<open>unsigned int\<close>,
  \<open>vde_pkt_new\<close> gives a packet whose parts follow each other inside the allocation: head space of
  the requested size, room for exactly \<open>payload_sz\<close> bytes, tail space of the requested size up to
  \<open>data_size\<close>; and the packet is well formed and empty.
\<close>

theorem vde_pkt_new_layout:
  assumes "44 + unat head + unat payload_sz + unat tail < 2 ^ 32"
  shows "\<exists>p. vde_pkt_new False payload_sz head tail = Inr (Some p) \<and> pkt_wf p \<and>
    pkt_bytes p = Inr [] \<and> p_payload p - p_head p = uint head \<and>
    p_tail p - p_payload p = uint payload_sz \<and> uint (data_size p) - p_tail p = uint tail"
proof -
  define dsz where "dsz = of_nat SIZEOF_VDE_HDR + head + payload_sz + tail"
  have d: "unat dsz = 4 + unat head + unat payload_sz + unat tail"
    using assms unfolding dsz_def size_defs by (simp add: unat_word_ariths)
  then have s: "unat (of_nat SIZEOF_VDE_PKT + dsz) = 40 + unat dsz"
    using assms by (simp add: size_defs unat_word_ariths)
  then have nz: "of_nat SIZEOF_VDE_PKT + dsz \<noteq> 0" by (metis add_eq_0_iff_both_eq_0
      unat_0 zero_neq_numeral)
  define p where "p = vde_pkt_init \<lparr>p_head = 0, p_payload = 0, p_tail = 0, data_size = 0,
      p_data = replicate (4 + unat dsz) (char_of (0::nat))\<rparr> dsz head tail"
  have "vde_pkt_new False payload_sz head tail = Inr (Some p)"
    using s nz unfolding vde_pkt_new_def Let_def dsz_def [symmetric] p_def
    by (simp add: size_defs)
  moreover have u: "uint dsz = 4 + uint head + uint payload_sz + uint tail"
    using arg_cong [OF d, of int] by simp
  moreover have len: "get_pkt_len p = Inr 0"
    using d by (simp add: p_def get_pkt_len_def vde_pkt_init_def mem_read_def nth_append)
  moreover have "pkt_bytes p = Inr []"
    using len d by (simp add: pkt_bytes_def mem_read_def) (simp add: p_def vde_pkt_init_def size_defs
      nat_add_distrib)
  ultimately show ?thesis
    using len by (auto simp: pkt_wf_def p_def vde_pkt_init_def size_defs)
qed

theorem vde_pkt_new_layout_witness:
  "\<exists>p. vde_pkt_new False 1518 4 0 = Inr (Some p) \<and> p_payload p - p_head p = 4 \<and>
    p_tail p - p_payload p = 1518"
  using vde_pkt_new_layout [of 4 1518 0] by auto

lemma compact_cpy_ok:
  assumes "pkt_wf src" and "unat (data_size src) \<le> length (p_data dst)"
  shows "\<exists>p. vde_pkt_compact_cpy dst src = Inr p \<and> pkt_wf p \<and> pkt_bytes p = pkt_bytes src \<and>
    get_pkt_len p = get_pkt_len src \<and> p_payload p = p_head p \<and> p_tail p = uint (data_size p) \<and>
    length (p_data p) = length (p_data dst)"
proof -
  obtain n bs where n: "get_pkt_len src = Inr n" "pkt_bytes src = Inr bs" "length bs = n"
    "mem_read (p_data src) (p_payload src) n = Inr bs" "4 + n \<le> unat (data_size src)"
    using assms(1) by (rule pkt_wf_bytes)
  have src4: "4 \<le> length (p_data src)"
    using n(5) assms(1) by (simp add: pkt_wf_def)
  obtain d1 where d1: "mem_write (p_data dst) 0 (take 4 (p_data src)) = Inr d1"
    using mem_write_ok [of 0 "take 4 (p_data src)" "p_data dst"] n(5) src4 assms(2) by auto
  have l1: "length d1 = length (p_data dst)" using d1 by (rule mem_write_length)
  obtain d2 where d2: "mem_write d1 4 bs = Inr d2"
    using mem_write_ok [of 4 bs d1] n(3,5) assms(2) l1 by auto
  have l2: "length d2 = length (p_data dst)" using mem_write_length [OF d2] l1 by simp
  define p where "p = (vde_pkt_init dst (data_size src) 0 0)\<lparr>p_data := d2\<rparr>"
  have "vde_pkt_compact_cpy dst src = Inr p"
    using n src4 d1 d2
    by (simp add: vde_pkt_compact_cpy_def p_def vde_pkt_init_def mem_read_def size_defs)
  moreover have h: "take 4 (p_data p) = take 4 (p_data src)"
  proof -
    have "mem_read d2 0 4 = mem_read d1 0 4" using d2 by (rule mem_read_write_before) simp_all
    moreover have "mem_read d1 0 4 = Inr (take 4 (p_data src))"
      using d1 src4 by (intro mem_read_write_same) auto
    ultimately show ?thesis using l2 n(5) assms(2) by (simp add: p_def mem_read_def)
  qed
  moreover have len: "get_pkt_len p = Inr n"
    using get_pkt_len_prefix [OF h] src4 l2 n(1,5) assms(2) by (simp add: p_def)
  moreover have "pkt_bytes p = Inr bs"
    using mem_read_write_same [OF d2 n(3) [symmetric]]
    by (simp add: pkt_bytes_def len) (simp add: p_def vde_pkt_init_def size_defs)
  moreover have "4 + int n \<le> uint (data_size src)"
    using n(5) by (metis of_nat_add of_nat_le_iff of_nat_numeral uint_nat)
  ultimately show ?thesis
    using n(1,2) l2 assms(2)
    by (auto simp: pkt_wf_def p_def vde_pkt_init_def size_defs)
qed

text \<open>
  Copying a well-formed packet with \<open>vde_pkt_compact_cpy\<close> into a block that can hold its
  \<open>data_size\<close> (the documented precondition) stays inside both blocks and gives a well-formed packet
  with the same length field and payload, no head space and no tail space.
\<close>

theorem vde_pkt_compact_cpy_correct:
  assumes "pkt_wf src" and "unat (data_size src) \<le> length (p_data dst)"
  shows "\<exists>p. vde_pkt_compact_cpy dst src = Inr p \<and> pkt_wf p \<and> pkt_bytes p = pkt_bytes src \<and>
    get_pkt_len p = get_pkt_len src \<and> p_payload p = p_head p \<and> p_tail p = uint (data_size p) \<and>
    length (p_data p) = length (p_data dst)"
  using assms by (rule compact_cpy_ok)

definition example_pkt :: vde_pkt where
  "example_pkt = \<lparr>p_head = 4, p_payload = 6, p_tail = 9, data_size = 9,
     p_data = map char_of [1, 2, 3, 0, 0, 0 :: nat] @ ''ABC''\<rparr>"

lemma example_pkt_wf: "pkt_wf example_pkt" "pkt_bytes example_pkt = Inr ''ABC''"
  by (simp_all add: pkt_wf_def pkt_bytes_def example_pkt_def size_defs get_pkt_len_def
      mem_read_def)

theorem vde_pkt_compact_cpy_correct_witness:
  "\<exists>p. vde_pkt_compact_cpy (example_pkt\<lparr>p_data := replicate 9 CHR 0x00\<rparr>) example_pkt = Inr p \<and>
    pkt_bytes p = Inr ''ABC'' \<and> p_payload p = p_head p"
  using vde_pkt_compact_cpy_correct [OF example_pkt_wf(1),
      of "example_pkt\<lparr>p_data := replicate 9 CHR 0x00\<rparr>"] example_pkt_wf(2)
  by (auto simp: example_pkt_def)

text \<open>
  \<open>vde_pkt_cpy\<close> into a block that can hold the packet stays inside both blocks and reproduces
  the packet with its head space, tail space, length field and payload.
\<close>

theorem vde_pkt_cpy_correct:
  assumes "pkt_wf src" and "unat (data_size src) \<le> length (p_data dst)"
  shows "\<exists>p. vde_pkt_cpy dst src = Inr p \<and> pkt_wf p \<and> pkt_bytes p = pkt_bytes src \<and>
    get_pkt_len p = get_pkt_len src \<and> p_payload p = p_payload src \<and> p_tail p = p_tail src"
proof -
  obtain n bs where n: "get_pkt_len src = Inr n" "pkt_bytes src = Inr bs" "length bs = n"
    "mem_read (p_data src) (p_payload src) n = Inr bs" "4 + n \<le> unat (data_size src)"
    using assms(1) by (rule pkt_wf_bytes)
  let ?k = "unat (data_size src)"
  from assms(1) have w: "p_head src = 4" "4 \<le> p_payload src" "p_payload src + int n \<le> p_tail src"
    "p_tail src \<le> uint (data_size src)" "?k \<le> length (p_data src)"
    using n(1) by (auto simp: pkt_wf_def size_defs)
  obtain d where d: "mem_write (p_data dst) 0 (take ?k (p_data src)) = Inr d"
    using mem_write_ok [of 0 "take ?k (p_data src)" "p_data dst"] w(5) assms(2) by auto
  define p where "p = (vde_pkt_init dst (data_size src)
    (word_of_int (p_payload src - p_head src)) (word_of_int (uint (data_size src) - p_tail src)))
    \<lparr>p_data := d\<rparr>"
  have cpy: "vde_pkt_cpy dst src = Inr p"
    using d w(5) by (simp add: vde_pkt_cpy_def p_def vde_pkt_init_def mem_read_def)
  have b: "uint (data_size src) < 2 ^ 32" using uint_lt2p [of "data_size src"] by simp
  have "uint (word_of_int (p_payload src - p_head src) :: 32 word) = p_payload src - 4"
    using uint_word_of_int_id [of "p_payload src - p_head src"] w b by linarith
  moreover have "uint (word_of_int (uint (data_size src) - p_tail src) :: 32 word) =
      uint (data_size src) - p_tail src"
    using w b by (intro uint_word_of_int_id) linarith+
  ultimately have lay: "p_head p = 4" "p_payload p = p_payload src" "p_tail p = p_tail src"
    "data_size p = data_size src" "length (p_data p) = length (p_data dst)"
    using mem_write_length [OF d] by (simp_all add: p_def vde_pkt_init_def size_defs)
  have same: "take ?k (p_data p) = take ?k (p_data src)"
    using d w(5) by (auto simp: p_def mem_write_def split: if_splits)
  have h: "take 4 (p_data p) = take 4 (p_data src)"
    using arg_cong [OF same, of "take 4"] n(5) by (simp add: min_def)
  have l4: "4 \<le> length (p_data p)" "4 \<le> length (p_data src)"
    using n(5) w(5) assms(2) lay(5) by linarith+
  have len: "get_pkt_len p = Inr n"
    using get_pkt_len_prefix [OF h l4] n(1) by simp
  have le: "nat (p_payload src) + n \<le> ?k"
    using w(2-4) by (intro nat_offset_le) linarith+
  have "take n (drop (nat (p_payload src)) (p_data p)) = take n (drop (nat (p_payload src)) (p_data src))"
    using take_drop_take [OF le, of "p_data p"] take_drop_take [OF le, of "p_data src"] same by simp
  then have "pkt_bytes p = Inr bs"
    using le w(2,5) n(4) lay assms(2) by (simp add: pkt_bytes_def len mem_read_def)
  with cpy len lay n(1,2) w assms(2) show ?thesis
    by (auto simp: pkt_wf_def size_defs)
qed

theorem vde_pkt_cpy_correct_witness:
  "\<exists>p. vde_pkt_cpy (example_pkt\<lparr>p_data := replicate 9 CHR 0x00\<rparr>) example_pkt = Inr p \<and>
    pkt_bytes p = Inr ''ABC'' \<and> p_payload p = 6"
  using vde_pkt_cpy_correct [OF example_pkt_wf(1),
      of "example_pkt\<lparr>p_data := replicate 9 CHR 0x00\<rparr>"] example_pkt_wf(2)
  by (auto simp: example_pkt_def)

end
