(* ===== verification/World.thy ===== *)
theory World
  imports Ordhash Packet
begin

text \<open>
  The state of a running vde3 program: every \<open>struct\<close> of the sources as a record, one heap
  per structure type (all heaps share one address space), \<open>errno\<close>, the strings GLib has
  interned, and the system calls made so far. A freed object is absent from its heap, so any
  use of it is the fault \<open>Dangling\<close>.

  Function pointers are constructors of one datatype per pointer type: the functions of the
  repository that are ever stored in such a pointer by name, and \<open>Ext_\<dots>\<close> for functions of
  other modules and of the application. What calling a pointer does is a field of the record
  \<open>env\<close>, the parameter of every program of the model, which also stands for the code outside
  the repository: the allocator's failures, GLib's quarks, json-c's parser and printer, the
  operating system, the application's event handler, the indeterminate contents of local
  buffers, and the arrays of commands with their argument-checking wrappers, which the build
  generates. The theory \<open>Dispatch\<close> ties the knot.

  GLib lists and queues are lists (a queue's head is the first element), hash tables are
  association lists, json-c objects are the datatype \<open>vde_sobj\<close> with \<open>SNull\<close> for the
  \<open>NULL\<close> pointer; reference counts of json objects, logging and the release of memory that
  nothing can reach any more are not modelled.
\<close>

section \<open>Serializable objects\<close>

datatype vde_sobj =
    SNull
  | SInt int
  | SDouble nat
  | SBool bool
  | SString string
  | SArray "vde_sobj list"
  | SHash "(string \<times> vde_sobj) list"

section \<open>Function pointers\<close>

datatype conn_be_write = Vde_lc_write | Vde2_conn_write | Ext_be_write nat
datatype conn_be_close = Vde_lc_close | Vde2_conn_close | Ext_be_close nat
datatype conn_read_cb = Hub_engine_readcb | Ctrl_engine_readcb | Ext_read_cb nat
datatype conn_write_cb = Ctrl_engine_writecb | Ext_write_cb nat
datatype conn_error_cb = Hub_engine_errorcb | Ctrl_engine_errorcb | Ext_error_cb nat
datatype vde_signal_cb = Signal_callback | Ext_signal_cb nat
datatype vde_signal_destroy_cb = Signal_destroy_callback | Ext_signal_destroy_cb nat
datatype command_func =
    Engine_hub_status_wrapper
  | Engine_hub_printport_wrapper
  | Engine_ctrl_notify_add_wrapper
  | Engine_ctrl_notify_del_wrapper
  | Ext_command nat
datatype cops_init =
  Conn_manager_init | Engine_hub_init | Engine_ctrl_init | Transport_vde2_init | Ext_init nat
datatype cops_fini =
  Conn_manager_fini | Engine_hub_fini | Engine_ctrl_fini | Transport_vde2_fini | Ext_fini nat
datatype cm_listen = Conn_manager_listen | Ext_cm_listen nat
datatype cm_connect = Conn_manager_connect | Ext_cm_connect nat
datatype eng_new_conn = Hub_engine_newconn | Ctrl_engine_newconn | Ext_eng_new_conn nat
datatype tr_listen = Vde2_listen | Ext_tr_listen nat
datatype tr_connect = Vde2_connect | Ext_tr_connect nat
datatype cm_connect_cb = Conn_manager_connect_cb | Ext_cm_connect_cb nat
datatype cm_accept_cb = Conn_manager_accept_cb | Ext_cm_accept_cb nat
datatype cm_error_cb = Conn_manager_error_cb | Ext_cm_error_cb nat
datatype event_cb =
    Vde2_accept
  | Vde2_srv_get_request
  | Vde2_srv_send_request
  | Vde2_conn_read_ctl_event
  | Vde2_conn_read_data_event
  | Vde2_conn_write_data_event
  | Ext_event_cb nat

text \<open>Functions of the application: connect callbacks and the event handler's operations.\<close>

type_synonym app_fun = nat

section \<open>Structures\<close>

datatype vde_component_kind = VDE_ENGINE | VDE_TRANSPORT | VDE_CONNECTION_MANAGER

datatype vde_conn_error =
  CONN_OK | CONN_READ_CLOSED | CONN_READ_DELAY | CONN_WRITE_CLOSED | CONN_WRITE_DELAY

record timeval =
  tv_sec :: int
  tv_usec :: int

record vde_connection =
  attributes :: ptr
  c_context :: ptr
  max_pload :: "32 word"
  pkt_head_sz :: "32 word"
  pkt_tail_sz :: "32 word"
  send_maxtries :: "32 word"
  send_maxtimeout :: timeval
  be_write :: "conn_be_write option"
  be_close :: "conn_be_close option"
  be_priv :: ptr
  read_cb :: "conn_read_cb option"
  write_cb :: "conn_write_cb option"
  error_cb :: "conn_error_cb option"
  cb_priv :: ptr

record vde_lc =
  lc_conn :: ptr
  lc_peer :: ptr

record signal_cb =
  scb_cb :: "vde_signal_cb option"
  scb_destroy_cb :: "vde_signal_destroy_cb option"
  scb_data :: ptr

record vde_signal =
  sig_name :: "string option"
  sig_description :: "string option"
  callbacks :: "signal_cb list"

record vde_argument =
  arg_name :: string
  arg_description :: string
  arg_type :: string

record vde_command =
  cmd_name :: "string option"
  cmd_func :: command_func
  cmd_description :: string
  cmd_args :: "vde_argument list"

record component_ops =
  ops_init :: "cops_init option"
  ops_fini :: "cops_fini option"

record vde_module =
  m_kind :: vde_component_kind
  m_family :: string
  m_cops :: "component_ops option"
  m_cm_connect :: "cm_connect option"
  m_cm_listen :: "cm_listen option"
  m_eng_new_conn :: "eng_new_conn option"
  m_tr_connect :: "tr_connect option"
  m_tr_listen :: "tr_listen option"
  m_dlhandle :: ptr

record vde_component =
  comp_ctx :: ptr
  comp_cops :: "component_ops option"
  qname :: nat
  comp_kind :: vde_component_kind
  comp_family :: string
  refcount :: int
  commands :: "(nat \<times> vde_command) list"
  signals :: "(nat \<times> ptr) list"
  comp_priv :: ptr
  initialized :: bool
  c_cm_listen :: "cm_listen option"
  c_cm_connect :: "cm_connect option"
  c_tr_listen :: "tr_listen option"
  c_tr_connect :: "tr_connect option"
  c_eng_new_conn :: "eng_new_conn option"
  c_cm_connect_cb :: "cm_connect_cb option"
  c_cm_accept_cb :: "cm_accept_cb option"
  c_cm_error_cb :: "cm_error_cb option"
  cm_cb_arg :: ptr

record vde_event_handler =
  eh_event_add :: "app_fun option"
  eh_event_del :: "app_fun option"
  eh_timeout_add :: "app_fun option"
  eh_timeout_del :: "app_fun option"

record vde_context =
  ctx_initialized :: int
  event_handler :: vde_event_handler
  components :: "vde_ordhash option"
  modules :: "ptr list"

record hub_engine =
  hub_component :: ptr
  ports :: "ptr list"

record ctrl_engine =
  ctrl_conns :: "ptr list"
  ctrl_component :: ptr

text \<open>
  \<open>inbuf\<close> holds the first \<open>inbuf_len\<close> bytes of the buffer, the valid ones. An entry of
  \<open>reg_signals\<close> is \<open>None\<close> when the copy of the path could not be allocated.
\<close>

record ctrl_conn =
  cc_conn :: ptr
  inbuf :: "char list"
  out_queue :: "vde_pkt list"
  reg_signals :: "string option list"
  cc_engine :: ptr

datatype vde_conn_state =
    CONNECT_WAIT
  | AUTHORIZATION_REQ_SENT
  | AUTHORIZATION_REQ_WAIT
  | AUTHORIZATION_REPLY_SENT
  | AUTHORIZATION_REPLY_WAIT
  | NOT_AUTHORIZED
  | AUTHORIZED

record pending_conn =
  pc_conn :: ptr
  lreq :: ptr
  rreq :: ptr
  pc_state :: vde_conn_state
  success_cb :: "app_fun option"
  pc_error_cb :: "app_fun option"
  connect_cb_arg :: ptr

record conn_manager =
  cm_transport :: ptr
  cm_engine :: ptr
  cm_component :: ptr
  pending_conns :: "ptr list"
  do_remote_authorization :: int

record sockaddr_un =
  sun_family :: int
  sun_path :: string

record vde2_pkt =
  numtries :: "32 word"
  v2_pkt :: vde_pkt

record vde2_conn =
  data_fd :: int
  data_ev_rd :: ptr
  data_ev_wr :: ptr
  ctl_fd :: int
  ctl_ev :: ptr
  pkt_queue :: "vde2_pkt list"
  local_sa :: sockaddr_un
  remote_sa :: sockaddr_un
  remote_request :: "char list option"
  v2_conn :: ptr
  v2_transport :: ptr

record vde2_tr =
  vdesock_dir :: string
  listen_fd :: int
  listen_event :: ptr
  connections :: "32 word"
  tr_pending_conns :: "ptr list"

section \<open>System calls\<close>

datatype syscall =
    Sys_socket_stream
  | Sys_socket_dgram
  | Sys_setsockopt int
  | Sys_fcntl_nonblock int
  | Sys_mkdir string
  | Sys_rmdir string
  | Sys_bind int sockaddr_un
  | Sys_listen int nat
  | Sys_connect int sockaddr_un
  | Sys_accept int
  | Sys_access string
  | Sys_unlink string
  | Sys_read int nat
  | Sys_write int sockaddr_un
  | Sys_recvfrom int nat
  | Sys_sendto int "char list" sockaddr_un
  | Sys_close int

record sysres =
  retval :: int
  reterrno :: int
  retbytes :: "char list"

section \<open>The state\<close>

record world =
  errno :: int
  brk :: nat
  interned :: "string list"
  trace :: "syscall list"
  w_conn :: "ptr \<rightharpoonup> vde_connection"
  w_lc :: "ptr \<rightharpoonup> vde_lc"
  w_signal :: "ptr \<rightharpoonup> vde_signal"
  w_module :: "ptr \<rightharpoonup> vde_module"
  w_comp :: "ptr \<rightharpoonup> vde_component"
  w_ctx :: "ptr \<rightharpoonup> vde_context"
  w_hub :: "ptr \<rightharpoonup> hub_engine"
  w_ctrl :: "ptr \<rightharpoonup> ctrl_engine"
  w_cc :: "ptr \<rightharpoonup> ctrl_conn"
  w_pc :: "ptr \<rightharpoonup> pending_conn"
  w_cm :: "ptr \<rightharpoonup> conn_manager"
  w_v2c :: "ptr \<rightharpoonup> vde2_conn"
  w_tr :: "ptr \<rightharpoonup> vde2_tr"

type_synonym 'a prog = "(world, 'a) M"

section \<open>The environment\<close>

text \<open>
  What \<open>fts_read\<close> reports of a path: regular files, directories with their contents, errors
  (\<open>FTS_ERR\<close>, \<open>FTS_DNR\<close>, \<open>FTS_NS\<close>) and entries of another type.
\<close>

datatype fts_node =
    FTS_F string
  | FTS_D string "fts_node list"
  | FTS_ERR string int
  | FTS_OTHER string

record env =
  vde3_debug :: bool
  malloc_null :: "nat \<Rightarrow> bool"
  quark_id :: "string \<Rightarrow> nat"
  sobj_parse :: "string \<Rightarrow> vde_sobj option"
  sobj_print :: "vde_sobj \<Rightarrow> string option"
  sys :: "syscall list \<Rightarrow> syscall \<Rightarrow> sysres"
  default_modules_path :: "string list"
  fts_open :: "string list \<Rightarrow> int + fts_node list"
  fts_close :: "string list \<Rightarrow> int"
  dl_open :: "string \<Rightarrow> ptr"
  dl_sym :: "ptr \<Rightarrow> (ptr \<times> vde_module) option"
  stack_garbage :: "nat \<Rightarrow> char"
  engine_hub_commands :: "vde_command list"
  engine_ctrl_commands :: "vde_command list"
  call_be_write :: "conn_be_write \<Rightarrow> ptr \<Rightarrow> vde_pkt \<Rightarrow> int prog"
  call_be_close :: "conn_be_close \<Rightarrow> ptr \<Rightarrow> unit prog"
  call_read_cb :: "conn_read_cb \<Rightarrow> ptr \<Rightarrow> vde_pkt \<Rightarrow> ptr \<Rightarrow> int prog"
  call_write_cb :: "conn_write_cb \<Rightarrow> ptr \<Rightarrow> vde_pkt \<Rightarrow> ptr \<Rightarrow> int prog"
  call_error_cb :: "conn_error_cb \<Rightarrow> ptr \<Rightarrow> vde_pkt option \<Rightarrow> vde_conn_error \<Rightarrow> ptr \<Rightarrow> int prog"
  call_signal_cb :: "vde_signal_cb \<Rightarrow> ptr \<Rightarrow> string option \<Rightarrow> vde_sobj \<Rightarrow> ptr \<Rightarrow> unit prog"
  call_signal_destroy_cb :: "vde_signal_destroy_cb \<Rightarrow> ptr \<Rightarrow> string option \<Rightarrow> ptr \<Rightarrow> unit prog"
  call_command :: "command_func \<Rightarrow> ptr \<Rightarrow> vde_sobj \<Rightarrow> (int \<times> vde_sobj) prog"
  call_init :: "cops_init \<Rightarrow> ptr \<Rightarrow> vde_sobj \<Rightarrow> int prog"
  call_fini :: "cops_fini \<Rightarrow> ptr \<Rightarrow> unit prog"
  call_cm_listen :: "cm_listen \<Rightarrow> ptr \<Rightarrow> int prog"
  call_cm_connect :: "cm_connect \<Rightarrow> ptr \<Rightarrow> ptr \<Rightarrow> ptr \<Rightarrow> app_fun option \<Rightarrow> app_fun option \<Rightarrow>
    ptr \<Rightarrow> int prog"
  call_eng_new_conn :: "eng_new_conn \<Rightarrow> ptr \<Rightarrow> ptr \<Rightarrow> ptr \<Rightarrow> int prog"
  call_tr_listen :: "tr_listen \<Rightarrow> ptr \<Rightarrow> int prog"
  call_tr_connect :: "tr_connect \<Rightarrow> ptr \<Rightarrow> ptr \<Rightarrow> int prog"
  call_cm_connect_cb :: "cm_connect_cb \<Rightarrow> ptr \<Rightarrow> ptr \<Rightarrow> unit prog"
  call_cm_accept_cb :: "cm_accept_cb \<Rightarrow> ptr \<Rightarrow> ptr \<Rightarrow> unit prog"
  call_cm_error_cb :: "cm_error_cb \<Rightarrow> ptr \<Rightarrow> int \<Rightarrow> ptr \<Rightarrow> unit prog"
  call_app_cb :: "app_fun \<Rightarrow> ptr \<Rightarrow> ptr \<Rightarrow> unit prog"
  call_event_add :: "app_fun \<Rightarrow> int \<Rightarrow> nat \<Rightarrow> timeval option \<Rightarrow> event_cb \<Rightarrow> ptr \<Rightarrow> ptr prog"
  call_event_del :: "app_fun \<Rightarrow> ptr \<Rightarrow> unit prog"
  call_timeout_add :: "app_fun \<Rightarrow> timeval \<Rightarrow> nat \<Rightarrow> event_cb \<Rightarrow> ptr \<Rightarrow> ptr prog"
  call_timeout_del :: "app_fun \<Rightarrow> ptr \<Rightarrow> unit prog"

section \<open>Accessors of a module\<close>

definition vde_module_get_kind :: "vde_module \<Rightarrow> vde_component_kind" where
  "vde_module_get_kind module = m_kind module"

definition vde_module_get_family :: "vde_module \<Rightarrow> string" where
  "vde_module_get_family module = m_family module"

definition vde_module_get_component_ops :: "vde_module \<Rightarrow> component_ops option" where
  "vde_module_get_component_ops module = m_cops module"

definition vde_module_get_cm_connect :: "vde_module \<Rightarrow> cm_connect option" where
  "vde_module_get_cm_connect module = m_cm_connect module"

definition vde_module_get_cm_listen :: "vde_module \<Rightarrow> cm_listen option" where
  "vde_module_get_cm_listen module = m_cm_listen module"

definition vde_module_get_eng_new_conn :: "vde_module \<Rightarrow> eng_new_conn option" where
  "vde_module_get_eng_new_conn module = m_eng_new_conn module"

definition vde_module_get_tr_connect :: "vde_module \<Rightarrow> tr_connect option" where
  "vde_module_get_tr_connect module = m_tr_connect module"

definition vde_module_get_tr_listen :: "vde_module \<Rightarrow> tr_listen option" where
  "vde_module_get_tr_listen module = m_tr_listen module"

lemmas vde_module_get_simps [simp] =
  vde_module_get_kind_def vde_module_get_family_def vde_module_get_component_ops_def vde_module_get_cm_connect_def
  vde_module_get_cm_listen_def vde_module_get_eng_new_conn_def vde_module_get_tr_connect_def vde_module_get_tr_listen_def

end
