(* ===== verification/Memory.thy ===== *)
theory Memory
  imports World
begin

text \<open>
  Primitive actions on the state: reading and writing a structure through a pointer,
  allocation and release, \<open>errno\<close>, quarks, calls through a function pointer, system calls.
  A heap is given by its selector and its update function (\<open>w_conn\<close> and \<open>w_conn_update\<close>).
\<close>

section \<open>Memory\<close>

definition deref :: "(world \<Rightarrow> ptr \<rightharpoonup> 'a) \<Rightarrow> ptr \<Rightarrow> 'a prog" where
  "deref h p = (\<lambda>w. case h w p of
       Some x \<Rightarrow> Inr (x, w)
     | None \<Rightarrow> Inl (if p = NULL then Null_Deref else Dangling))"

definition store ::
  "(world \<Rightarrow> ptr \<rightharpoonup> 'a) \<Rightarrow> (((ptr \<rightharpoonup> 'a) \<Rightarrow> (ptr \<rightharpoonup> 'a)) \<Rightarrow> world \<Rightarrow> world) \<Rightarrow>
   ptr \<Rightarrow> ('a \<Rightarrow> 'a) \<Rightarrow> unit prog" where
  "store h u p f = mbind (deref h p) (\<lambda>x. modify (u (\<lambda>m. m(p \<mapsto> f x))))"

text \<open>
  \<open>malloc_null E n\<close> says whether the allocation that would get address \<open>n\<close> fails; addresses
  are never reused.
\<close>

definition alloc ::
  "(((ptr \<rightharpoonup> 'a) \<Rightarrow> (ptr \<rightharpoonup> 'a)) \<Rightarrow> world \<Rightarrow> world) \<Rightarrow> env \<Rightarrow> 'a \<Rightarrow> ptr prog" where
  "alloc u E x = (\<lambda>w.
     let p = brk w; w1 = w\<lparr>brk := Suc p\<rparr>
     in if malloc_null E p then Inr (NULL, w1) else Inr (p, u (\<lambda>m. m(p \<mapsto> x)) w1))"

text \<open>Allocation of a block whose address the program never compares: only failure matters.\<close>

definition malloc_fails :: "env \<Rightarrow> bool prog" where
  "malloc_fails E = (\<lambda>w. Inr (malloc_null E (brk w), w\<lparr>brk := Suc (brk w)\<rparr>))"

definition dealloc ::
  "(world \<Rightarrow> ptr \<rightharpoonup> 'a) \<Rightarrow> (((ptr \<rightharpoonup> 'a) \<Rightarrow> (ptr \<rightharpoonup> 'a)) \<Rightarrow> world \<Rightarrow> world) \<Rightarrow>
   ptr \<Rightarrow> unit prog" where
  "dealloc h u p = (\<lambda>w.
     if p = NULL then Inr ((), w)
     else if h w p = None then Inl Double_Free
     else Inr ((), u (\<lambda>m. m(p := None)) w))"

definition set_errno :: "int \<Rightarrow> unit prog" where
  "set_errno e = modify (\<lambda>w. w\<lparr>errno := e\<rparr>)"

text \<open>\<^verbatim>\<open>errno = e; return -1;\<close>\<close>

definition fail_errno :: "int \<Rightarrow> int prog" where
  "fail_errno e = mbind (set_errno e) (\<lambda>_. ret (- 1))"

definition vde_assert :: "env \<Rightarrow> bool \<Rightarrow> unit prog" where
  "vde_assert E b = assertM (vde3_debug E) b"

text \<open>Calling through a function pointer that may be \<open>NULL\<close>.\<close>

definition call_ptr :: "'f option \<Rightarrow> ('f \<Rightarrow> 'a prog) \<Rightarrow> 'a prog" where
  "call_ptr f k = (case f of None \<Rightarrow> mfail Null_Call | Some g \<Rightarrow> k g)"

lemma deref_eq_Inr [simp]: "deref h p w = Inr (x, w') \<longleftrightarrow> h w p = Some x \<and> w' = w"
  by (auto simp: deref_def split: option.splits)

lemma deref_Some [mon]: "h w p = Some x \<Longrightarrow> deref h p w = Inr (x, w)"
  by simp

lemma deref_None: "h w p = None \<Longrightarrow> deref h p w = Inl (if p = NULL then Null_Deref else Dangling)"
  by (simp add: deref_def)

lemma store_eq_Inr [simp]:
  "store h u p f w = Inr (r, w') \<longleftrightarrow> (\<exists>x. h w p = Some x \<and> w' = u (\<lambda>m. m(p \<mapsto> f x)) w)"
  by (auto simp: store_def mbind_eq_Inr)

lemma store_Some [mon]: "h w p = Some x \<Longrightarrow> store h u p f w = Inr ((), u (\<lambda>m. m(p \<mapsto> f x)) w)"
  by simp

text \<open>A heap update in the form record updates have elsewhere.\<close>

lemma heap_update_eq [simp]:
  "w_conn_update (\<lambda>m. m(p := x_conn)) w = w\<lparr>w_conn := (w_conn w)(p := x_conn)\<rparr>"
  "w_lc_update (\<lambda>m. m(p := x_lc)) w = w\<lparr>w_lc := (w_lc w)(p := x_lc)\<rparr>"
  "w_signal_update (\<lambda>m. m(p := x_signal)) w = w\<lparr>w_signal := (w_signal w)(p := x_signal)\<rparr>"
  "w_module_update (\<lambda>m. m(p := x_module)) w = w\<lparr>w_module := (w_module w)(p := x_module)\<rparr>"
  "w_comp_update (\<lambda>m. m(p := x_comp)) w = w\<lparr>w_comp := (w_comp w)(p := x_comp)\<rparr>"
  "w_ctx_update (\<lambda>m. m(p := x_ctx)) w = w\<lparr>w_ctx := (w_ctx w)(p := x_ctx)\<rparr>"
  "w_hub_update (\<lambda>m. m(p := x_hub)) w = w\<lparr>w_hub := (w_hub w)(p := x_hub)\<rparr>"
  "w_ctrl_update (\<lambda>m. m(p := x_ctrl)) w = w\<lparr>w_ctrl := (w_ctrl w)(p := x_ctrl)\<rparr>"
  "w_cc_update (\<lambda>m. m(p := x_cc)) w = w\<lparr>w_cc := (w_cc w)(p := x_cc)\<rparr>"
  "w_pc_update (\<lambda>m. m(p := x_pc)) w = w\<lparr>w_pc := (w_pc w)(p := x_pc)\<rparr>"
  "w_cm_update (\<lambda>m. m(p := x_cm)) w = w\<lparr>w_cm := (w_cm w)(p := x_cm)\<rparr>"
  "w_v2c_update (\<lambda>m. m(p := x_v2c)) w = w\<lparr>w_v2c := (w_v2c w)(p := x_v2c)\<rparr>"
  "w_tr_update (\<lambda>m. m(p := x_tr)) w = w\<lparr>w_tr := (w_tr w)(p := x_tr)\<rparr>"
  by simp_all

lemma store_None: "h w p = None \<Longrightarrow> store h u p f w = Inl (if p = NULL then Null_Deref else Dangling)"
  by (simp add: store_def deref_None)

lemma alloc_apply [mon]:
  "alloc u E x w =
     (if malloc_null E (brk w) then Inr (NULL, w\<lparr>brk := Suc (brk w)\<rparr>)
      else Inr (brk w, u (\<lambda>m. m(brk w \<mapsto> x)) (w\<lparr>brk := Suc (brk w)\<rparr>)))"
  by (simp add: alloc_def Let_def)

lemma malloc_fails_apply [simp, mon]:
  "malloc_fails E w = Inr (malloc_null E (brk w), w\<lparr>brk := Suc (brk w)\<rparr>)"
  by (simp add: malloc_fails_def)

lemma dealloc_apply [mon]:
  "dealloc h u p w =
     (if p = NULL then Inr ((), w)
      else if h w p = None then Inl Double_Free
      else Inr ((), u (\<lambda>m. m(p := None)) w))"
  by (simp add: dealloc_def)

lemma set_errno_apply [simp, mon]: "set_errno e w = Inr ((), w\<lparr>errno := e\<rparr>)"
  by (simp add: set_errno_def)

lemma fail_errno_apply [simp, mon]: "fail_errno e w = Inr (- 1, w\<lparr>errno := e\<rparr>)"
  by (simp add: fail_errno_def)

lemma vde_assert_apply [simp, mon]:
  "vde_assert E b w = (if vde3_debug E \<and> \<not> b then Inl Assert_Failed else Inr ((), w))"
  by (simp add: vde_assert_def)

lemma call_ptr_simps [simp, mon]:
  "call_ptr None k w = Inl Null_Call" "call_ptr (Some g) k = k g"
  by (simp_all add: call_ptr_def)

lemma call_ptr_eq_Inr: "call_ptr f k w = Inr r \<longleftrightarrow> (\<exists>g. f = Some g \<and> k g w = Inr r)"
  by (cases f) auto

section \<open>Preservation by the primitives\<close>

lemma keeps_deref [keep]: "keeps I (deref h p)"
  by (auto simp: keeps_def)

lemma keeps_vde_assert [keep]: "keeps I (vde_assert E b)"
  by (auto simp: keeps_def)

lemma keeps_call_ptr [keep]: "(\<And>g. f = Some g \<Longrightarrow> keeps I (k g)) \<Longrightarrow> keeps I (call_ptr f k)"
  by (cases f) (auto simp: keeps_def)

lemma keeps_store:
  "(\<And>w x. I w \<Longrightarrow> h w p = Some x \<Longrightarrow> I (u (\<lambda>m. m(p \<mapsto> f x)) w)) \<Longrightarrow> keeps I (store h u p f)"
  by (auto simp: keeps_def)

lemma keeps_dealloc:
  "(\<And>w. I w \<Longrightarrow> I (u (\<lambda>m. m(p := None)) w)) \<Longrightarrow> keeps I (dealloc h u p)"
  by (auto simp: keeps_def dealloc_apply)

lemma keeps_alloc:
  assumes "\<And>w. I w \<Longrightarrow> I (w\<lparr>brk := Suc (brk w)\<rparr>)"
    and "\<And>w. I w \<Longrightarrow> I (u (\<lambda>m. m(brk w \<mapsto> x)) (w\<lparr>brk := Suc (brk w)\<rparr>))"
  shows "keeps I (alloc u E x)"
  using assms by (auto simp: keeps_def alloc_apply split: if_splits)

lemma keeps_malloc_fails: "(\<And>w. I w \<Longrightarrow> I (w\<lparr>brk := Suc (brk w)\<rparr>)) \<Longrightarrow> keeps I (malloc_fails E)"
  by (auto simp: keeps_def)

lemma keeps_set_errno: "(\<And>w. I w \<Longrightarrow> I (w\<lparr>errno := e\<rparr>)) \<Longrightarrow> keeps I (set_errno e)"
  by (auto simp: keeps_def)

lemma keeps_fail_errno: "(\<And>w. I w \<Longrightarrow> I (w\<lparr>errno := e\<rparr>)) \<Longrightarrow> keeps I (fail_errno e)"
  by (auto simp: keeps_def)

section \<open>Quarks\<close>

text \<open>
  GLib maps every string it has seen to a number of its own, never 0 (\<open>quark_id\<close>);
  \<open>g_quark_try_string\<close> gives 0 for a string not seen yet, and both give 0 for \<open>NULL\<close>.
  \<open>quark_ok\<close> is what the GLib manual promises of the numbers.
\<close>

definition quark_ok :: "env \<Rightarrow> bool" where
  "quark_ok E \<longleftrightarrow> inj (quark_id E) \<and> 0 \<notin> range (quark_id E)"

definition vde_quark_from_string :: "env \<Rightarrow> string option \<Rightarrow> nat prog" where
  "vde_quark_from_string E s = (case s of
       None \<Rightarrow> ret 0
     | Some s \<Rightarrow> mbind (modify (\<lambda>w. w\<lparr>interned := List.insert s (interned w)\<rparr>)) (\<lambda>_.
                ret (quark_id E s)))"

definition quark_of :: "env \<Rightarrow> world \<Rightarrow> string option \<Rightarrow> nat" where
  "quark_of E w s = (case s of
       None \<Rightarrow> 0
     | Some s \<Rightarrow> if s \<in> set (interned w) then quark_id E s else 0)"

definition vde_quark_try_string :: "env \<Rightarrow> string option \<Rightarrow> nat prog" where
  "vde_quark_try_string E s = gets (\<lambda>w. quark_of E w s)"

definition vde_quark_to_string :: "env \<Rightarrow> nat \<Rightarrow> string option prog" where
  "vde_quark_to_string E q = gets (\<lambda>w. find (\<lambda>s. quark_id E s = q) (interned w))"

lemma quark_id_eq [simp]: "quark_ok E \<Longrightarrow> quark_id E s = quark_id E t \<longleftrightarrow> s = t"
  by (auto simp: quark_ok_def dest: injD)

lemma quark_id_nonzero [simp]: "quark_ok E \<Longrightarrow> quark_id E s \<noteq> 0"
  by (auto simp: quark_ok_def)

lemma try_string_apply [simp, mon]: "vde_quark_try_string E s w = Inr (quark_of E w s, w)"
  by (simp add: vde_quark_try_string_def)

lemma from_string_apply [simp, mon]:
  "vde_quark_from_string E (Some s) w =
     Inr (quark_id E s, w\<lparr>interned := List.insert s (interned w)\<rparr>)"
  "vde_quark_from_string E None w = Inr (0, w)"
  by (simp_all add: vde_quark_from_string_def)

lemma find_quark:
  "quark_ok E \<Longrightarrow> find (\<lambda>t. quark_id E t = quark_id E s) ss = (if s \<in> set ss then Some s else None)"
  by (induction ss) auto

section \<open>System calls\<close>

definition syscall :: "env \<Rightarrow> syscall \<Rightarrow> sysres prog" where
  "syscall E c = (\<lambda>w.
     let r = sys E (trace w) c
     in Inr (r, w\<lparr>trace := trace w @ [c],
                  errno := (if retval r < 0 then reterrno r else errno w)\<rparr>))"

lemma syscall_apply [mon]:
  "syscall E c w = Inr (sys E (trace w) c, w\<lparr>trace := trace w @ [c],
     errno := (if retval (sys E (trace w) c) < 0 then reterrno (sys E (trace w) c) else errno w)\<rparr>)"
  by (simp add: syscall_def Let_def)

section \<open>Total correctness of the primitives\<close>

lemma wp_deref: "h w p = Some x \<Longrightarrow> Q x w \<Longrightarrow> wp (deref h p) Q w"
  by (simp add: wp_def)

lemma wp_store: "h w p = Some x \<Longrightarrow> Q () (u (\<lambda>m. m(p \<mapsto> f x)) w) \<Longrightarrow> wp (store h u p f) Q w"
  by (simp add: wp_def)

lemma wp_set_errno [wpI]: "Q () (w\<lparr>errno := e\<rparr>) \<Longrightarrow> wp (set_errno e) Q w"
  by (simp add: wp_def)

lemma wp_fail_errno [wpI]: "Q (- 1) (w\<lparr>errno := e\<rparr>) \<Longrightarrow> wp (fail_errno e) Q w"
  by (simp add: wp_def)

lemma wp_vde_assert [wpI]: "b \<Longrightarrow> Q () w \<Longrightarrow> wp (vde_assert E b) Q w"
  by (simp add: wp_def)

lemma wp_malloc_fails [wpI]:
  "Q (malloc_null E (brk w)) (w\<lparr>brk := Suc (brk w)\<rparr>) \<Longrightarrow> wp (malloc_fails E) Q w"
  by (simp add: wp_def)

text \<open>Whatever the system answers, it only adds to the trace and sets \<open>errno\<close>.\<close>

lemma wp_syscall:
  "(\<And>e. Q (sys E (trace w) c) (w\<lparr>trace := trace w @ [c], errno := e\<rparr>)) \<Longrightarrow> wp (syscall E c) Q w"
  by (simp add: wp_def syscall_apply)

section \<open>The state before the program starts\<close>

definition empty_world :: world where
  "empty_world = \<lparr>errno = 0, brk = 1, interned = [], trace = [], w_conn = (\<lambda>_. None),
     w_lc = (\<lambda>_. None), w_signal = (\<lambda>_. None), w_module = (\<lambda>_. None), w_comp = (\<lambda>_. None),
     w_ctx = (\<lambda>_. None), w_hub = (\<lambda>_. None), w_ctrl = (\<lambda>_. None), w_cc = (\<lambda>_. None),
     w_pc = (\<lambda>_. None), w_cm = (\<lambda>_. None), w_v2c = (\<lambda>_. None), w_tr = (\<lambda>_. None)\<rparr>"

text \<open>
  Addresses handed out later are not in use, and \<open>NULL\<close> never is. Module structures are static data
  of shared objects and have addresses of their own.
\<close>

definition fresh_above :: "world \<Rightarrow> bool" where
  "fresh_above w \<longleftrightarrow> 0 < brk w \<and> (\<forall>p. p = NULL \<or> brk w \<le> p \<longrightarrow>
     w_conn w p = None \<and> w_lc w p = None \<and> w_signal w p = None \<and> w_comp w p = None \<and> w_ctx w p = None \<and>
     w_hub w p = None \<and> w_ctrl w p = None \<and> w_cc w p = None \<and> w_pc w p = None \<and> w_cm w p = None \<and> w_v2c w p = None \<and> w_tr w p = None)"

lemma fresh_above_empty: "fresh_above empty_world"
  by (simp add: fresh_above_def empty_world_def)

section \<open>A concrete environment\<close>

text \<open>
  Numbers for strings with the properties of quarks: the characters are the digits to the
  base 256 below a leading 1. \<open>base_env\<close> is a debug build on a machine with enough memory
  whose system calls succeed and in which no function outside the repository is ever called;
  the examples of the component theories start from it.
\<close>

primrec quark_num :: "string \<Rightarrow> nat" where
  "quark_num [] = 1"
| "quark_num (c # cs) = 256 * quark_num cs + of_char c"

lemma quark_num_pos: "0 < quark_num s"
  by (induction s) simp_all

lemma quark_num_inj: "quark_num s = quark_num t \<Longrightarrow> s = t"
proof (induction s arbitrary: t)
  case Nil
  show ?case
  proof (cases t)
    case (Cons d ds)
    with Nil quark_num_pos [of ds] show ?thesis by simp
  qed simp
next
  case (Cons c cs)
  show ?case
  proof (cases t)
    case Nil
    with Cons.prems quark_num_pos [of cs] show ?thesis by simp
  next
    case t: (Cons d ds)
    have "(256 * quark_num cs + of_char c) mod 256 = (256 * quark_num ds + of_char d) mod 256"
      using Cons.prems t by simp
    then have "(of_char c :: nat) = of_char d" by simp
    with Cons t show ?thesis by simp
  qed
qed

definition base_env :: env where
  "base_env = \<lparr>vde3_debug = True, malloc_null = (\<lambda>_. False), quark_id = quark_num,
     sobj_parse = (\<lambda>_. None), sobj_print = (\<lambda>_. None),
     sys = (\<lambda>_ _. \<lparr>retval = 0, reterrno = 0, retbytes = []\<rparr>), default_modules_path = [''.''],
     fts_open = (\<lambda>_. Inr []), fts_close = (\<lambda>_. 0), dl_open = (\<lambda>_. NULL), dl_sym = (\<lambda>_. None),
     stack_garbage = (\<lambda>_. CHR 0x00), engine_hub_commands = [], engine_ctrl_commands = [],
     call_be_write = (\<lambda>_ _ _. mfail Null_Call), call_be_close = (\<lambda>_ _. mfail Null_Call),
     call_read_cb = (\<lambda>_ _ _ _. mfail Null_Call), call_write_cb = (\<lambda>_ _ _ _. mfail Null_Call),
     call_error_cb = (\<lambda>_ _ _ _ _. mfail Null_Call),
     call_signal_cb = (\<lambda>_ _ _ _ _. mfail Null_Call),
     call_signal_destroy_cb = (\<lambda>_ _ _ _. mfail Null_Call),
     call_command = (\<lambda>_ _ _. mfail Null_Call), call_init = (\<lambda>_ _ _. mfail Null_Call),
     call_fini = (\<lambda>_ _. mfail Null_Call), call_cm_listen = (\<lambda>_ _. mfail Null_Call),
     call_cm_connect = (\<lambda>_ _ _ _ _ _ _. mfail Null_Call),
     call_eng_new_conn = (\<lambda>_ _ _ _. mfail Null_Call), call_tr_listen = (\<lambda>_ _. mfail Null_Call),
     call_tr_connect = (\<lambda>_ _ _. mfail Null_Call), call_cm_connect_cb = (\<lambda>_ _ _. mfail Null_Call),
     call_cm_accept_cb = (\<lambda>_ _ _. mfail Null_Call), call_cm_error_cb = (\<lambda>_ _ _ _. mfail Null_Call),
     call_app_cb = (\<lambda>_ _ _. mfail Null_Call),
     call_event_add = (\<lambda>_ _ _ _ _ _. mfail Null_Call), call_event_del = (\<lambda>_ _. mfail Null_Call),
     call_timeout_add = (\<lambda>_ _ _ _ _. mfail Null_Call), call_timeout_del = (\<lambda>_ _. mfail Null_Call)\<rparr>"

lemma quark_ok_num: "quark_id E = quark_num \<Longrightarrow> quark_ok E"
  using quark_num_pos by (auto simp: quark_ok_def intro!: injI quark_num_inj) (metis less_irrefl)

lemma base_env_simps [simp]:
  "vde3_debug base_env" "malloc_null base_env = (\<lambda>_. False)" "quark_id base_env = quark_num"
  by (simp_all add: base_env_def)

end
