(* ===== verification/Connection.thy ===== *)
theory Connection
  imports Memory
begin

text \<open>
  Connections, \<^verbatim>\<open>src/connection.c\<close> and the inline functions of
  \<^verbatim>\<open>src/include/vde3/connection.h\<close>: life cycle, the properties an engine sets, and the two
  directions of calls: from the engine to the backend (\<open>vde_connection_write\<close>,
  \<open>vde_connection_fini\<close>) and from the backend to the engine (\<open>vde_connection_call_read\<close>,
  \<open>_write\<close>, \<open>_error\<close>).
\<close>

section \<open>Operations\<close>

definition zero_connection :: vde_connection where
  "zero_connection = \<lparr>attributes = NULL, c_context = NULL, max_pload = 0, pkt_head_sz = 0,
     pkt_tail_sz = 0, send_maxtries = 0, send_maxtimeout = \<lparr>tv_sec = 0, tv_usec = 0\<rparr>,
     be_write = None, be_close = None, be_priv = NULL, read_cb = None, write_cb = None,
     error_cb = None, cb_priv = NULL\<rparr>"

abbreviation upd_conn :: "ptr \<Rightarrow> (vde_connection \<Rightarrow> vde_connection) \<Rightarrow> unit prog" where
  "upd_conn \<equiv> store w_conn w_conn_update"

text \<open>The result and, through the reference argument, the new connection.\<close>

definition vde_connection_new :: "env \<Rightarrow> (int \<times> ptr) prog" where
  "vde_connection_new E =
     mbind (alloc w_conn_update E zero_connection) (\<lambda>conn.
     if conn = NULL then mbind (set_errno ENOMEM) (\<lambda>_. ret (- 1, NULL))
     else ret (0, conn))"

definition vde_connection_init ::
  "env \<Rightarrow> ptr \<Rightarrow> ptr \<Rightarrow> 32 word \<Rightarrow> conn_be_write option \<Rightarrow> conn_be_close option \<Rightarrow> ptr \<Rightarrow> int prog"
where
  "vde_connection_init E conn ctx payload_size bw bc priv =
     mbind (vde_assert E (conn \<noteq> NULL)) (\<lambda>_.
     mbind (vde_assert E (ctx \<noteq> NULL)) (\<lambda>_.
     mbind (vde_assert E (0 < payload_size)) (\<lambda>_.
     mbind (vde_assert E (bw \<noteq> None)) (\<lambda>_.
     mbind (vde_assert E (bc \<noteq> None)) (\<lambda>_.
     mbind (vde_assert E (priv \<noteq> NULL)) (\<lambda>_.
     mbind (upd_conn conn (\<lambda>c. c\<lparr>c_context := ctx, max_pload := payload_size,
       be_write := bw, be_close := bc, be_priv := priv\<rparr>)) (\<lambda>_.
     ret 0)))))))"

definition vde_connection_fini :: "env \<Rightarrow> ptr \<Rightarrow> unit prog" where
  "vde_connection_fini E conn =
     mbind (vde_assert E (conn \<noteq> NULL)) (\<lambda>_.
     mbind (deref w_conn conn) (\<lambda>c.
     call_ptr (be_close c) (\<lambda>f. call_be_close E f conn)))"

definition vde_connection_delete :: "env \<Rightarrow> ptr \<Rightarrow> unit prog" where
  "vde_connection_delete E conn =
     mbind (vde_assert E (conn \<noteq> NULL)) (\<lambda>_.
     dealloc w_conn w_conn_update conn)"

definition vde_connection_write :: "env \<Rightarrow> ptr \<Rightarrow> vde_pkt \<Rightarrow> int prog" where
  "vde_connection_write E conn pkt =
     mbind (vde_assert E (conn \<noteq> NULL)) (\<lambda>_.
     mbind (deref w_conn conn) (\<lambda>c.
     call_ptr (be_write c) (\<lambda>f. call_be_write E f conn pkt)))"

definition vde_connection_call_read :: "env \<Rightarrow> ptr \<Rightarrow> vde_pkt \<Rightarrow> int prog" where
  "vde_connection_call_read E conn pkt =
     mbind (vde_assert E (conn \<noteq> NULL)) (\<lambda>_.
     mbind (deref w_conn conn) (\<lambda>c.
     mbind (vde_assert E (read_cb c \<noteq> None)) (\<lambda>_.
     call_ptr (read_cb c) (\<lambda>f. call_read_cb E f conn pkt (cb_priv c)))))"

definition vde_connection_call_write :: "env \<Rightarrow> ptr \<Rightarrow> vde_pkt \<Rightarrow> int prog" where
  "vde_connection_call_write E conn pkt =
     mbind (vde_assert E (conn \<noteq> NULL)) (\<lambda>_.
     mbind (deref w_conn conn) (\<lambda>c.
     case write_cb c of
       Some f \<Rightarrow> call_write_cb E f conn pkt (cb_priv c)
     | None \<Rightarrow> ret 0))"

definition vde_connection_call_error ::
  "env \<Rightarrow> ptr \<Rightarrow> vde_pkt option \<Rightarrow> vde_conn_error \<Rightarrow> int prog" where
  "vde_connection_call_error E conn pkt err =
     mbind (vde_assert E (conn \<noteq> NULL)) (\<lambda>_.
     mbind (deref w_conn conn) (\<lambda>c.
     mbind (vde_assert E (error_cb c \<noteq> None)) (\<lambda>_.
     call_ptr (error_cb c) (\<lambda>f. call_error_cb E f conn pkt err (cb_priv c)))))"

definition vde_connection_set_callbacks ::
  "env \<Rightarrow> ptr \<Rightarrow> conn_read_cb option \<Rightarrow> conn_write_cb option \<Rightarrow> conn_error_cb option \<Rightarrow> ptr \<Rightarrow>
   unit prog" where
  "vde_connection_set_callbacks E conn r wr er arg =
     mbind (vde_assert E (conn \<noteq> NULL)) (\<lambda>_.
     mbind (vde_assert E (r \<noteq> None \<and> er \<noteq> None)) (\<lambda>_.
     upd_conn conn (\<lambda>c. c\<lparr>read_cb := r, write_cb := wr, error_cb := er, cb_priv := arg\<rparr>)))"

definition vde_connection_get_context :: "env \<Rightarrow> ptr \<Rightarrow> ptr prog" where
  "vde_connection_get_context E conn =
     mbind (vde_assert E (conn \<noteq> NULL)) (\<lambda>_.
     mbind (deref w_conn conn) (\<lambda>c. ret (c_context c)))"

definition vde_connection_max_payload :: "env \<Rightarrow> ptr \<Rightarrow> 32 word prog" where
  "vde_connection_max_payload E conn =
     mbind (vde_assert E (conn \<noteq> NULL)) (\<lambda>_.
     mbind (deref w_conn conn) (\<lambda>c. ret (max_pload c)))"

definition vde_connection_get_priv :: "env \<Rightarrow> ptr \<Rightarrow> ptr prog" where
  "vde_connection_get_priv E conn =
     mbind (vde_assert E (conn \<noteq> NULL)) (\<lambda>_.
     mbind (deref w_conn conn) (\<lambda>c. ret (be_priv c)))"

definition vde_connection_set_pkt_properties :: "env \<Rightarrow> ptr \<Rightarrow> 32 word \<Rightarrow> 32 word \<Rightarrow> unit prog" where
  "vde_connection_set_pkt_properties E conn head_sz tail_sz =
     mbind (vde_assert E (conn \<noteq> NULL)) (\<lambda>_.
     upd_conn conn (\<lambda>c. c\<lparr>pkt_head_sz := head_sz, pkt_tail_sz := tail_sz\<rparr>))"

definition vde_connection_get_pkt_headsize :: "env \<Rightarrow> ptr \<Rightarrow> 32 word prog" where
  "vde_connection_get_pkt_headsize E conn =
     mbind (vde_assert E (conn \<noteq> NULL)) (\<lambda>_.
     mbind (deref w_conn conn) (\<lambda>c. ret (pkt_head_sz c)))"

definition vde_connection_get_pkt_tailsize :: "env \<Rightarrow> ptr \<Rightarrow> 32 word prog" where
  "vde_connection_get_pkt_tailsize E conn =
     mbind (vde_assert E (conn \<noteq> NULL)) (\<lambda>_.
     mbind (deref w_conn conn) (\<lambda>c. ret (pkt_tail_sz c)))"

text \<open>\<open>timeradd\<close> of \<^verbatim>\<open>sys/time.h\<close>, with the carry of the microseconds.\<close>

definition timeradd :: "timeval \<Rightarrow> timeval \<Rightarrow> timeval" where
  "timeradd a b =
     (let s = tv_sec a + tv_sec b; u = tv_usec a + tv_usec b
      in if 1000000 \<le> u then \<lparr>tv_sec = s + 1, tv_usec = u - 1000000\<rparr>
         else \<lparr>tv_sec = s, tv_usec = u\<rparr>)"

definition vde_connection_set_send_properties :: "env \<Rightarrow> ptr \<Rightarrow> 32 word \<Rightarrow> timeval \<Rightarrow> unit prog" where
  "vde_connection_set_send_properties E conn max_tries max_timeout =
     mbind (vde_assert E (conn \<noteq> NULL)) (\<lambda>_.
     upd_conn conn (\<lambda>c. c\<lparr>send_maxtries := max_tries,
       send_maxtimeout := timeradd \<lparr>tv_sec = 0, tv_usec = 0\<rparr> max_timeout\<rparr>))"

definition vde_connection_get_send_maxtries :: "env \<Rightarrow> ptr \<Rightarrow> 32 word prog" where
  "vde_connection_get_send_maxtries E conn =
     mbind (vde_assert E (conn \<noteq> NULL)) (\<lambda>_.
     mbind (deref w_conn conn) (\<lambda>c. ret (send_maxtries c)))"

definition vde_connection_get_send_maxtimeout :: "env \<Rightarrow> ptr \<Rightarrow> timeval prog" where
  "vde_connection_get_send_maxtimeout E conn =
     mbind (vde_assert E (conn \<noteq> NULL)) (\<lambda>_.
     mbind (deref w_conn conn) (\<lambda>c. ret (send_maxtimeout c)))"

definition vde_connection_set_attributes :: "env \<Rightarrow> ptr \<Rightarrow> ptr \<Rightarrow> unit prog" where
  "vde_connection_set_attributes E conn attrs =
     mbind (vde_assert E (conn \<noteq> NULL)) (\<lambda>_.
     upd_conn conn (\<lambda>c. c\<lparr>attributes := attrs\<rparr>))"

definition vde_connection_get_attributes :: "env \<Rightarrow> ptr \<Rightarrow> ptr prog" where
  "vde_connection_get_attributes E conn =
     mbind (vde_assert E (conn \<noteq> NULL)) (\<lambda>_.
     mbind (deref w_conn conn) (\<lambda>c. ret (attributes c)))"

section \<open>Evaluation on an allocated connection\<close>

lemma conn_getters [mon]:
  assumes "w_conn w conn = Some c" and "conn \<noteq> NULL"
  shows "vde_connection_get_context E conn w = Inr (c_context c, w)"
    and "vde_connection_max_payload E conn w = Inr (max_pload c, w)"
    and "vde_connection_get_priv E conn w = Inr (be_priv c, w)"
    and "vde_connection_get_pkt_headsize E conn w = Inr (pkt_head_sz c, w)"
    and "vde_connection_get_pkt_tailsize E conn w = Inr (pkt_tail_sz c, w)"
    and "vde_connection_get_send_maxtries E conn w = Inr (send_maxtries c, w)"
    and "vde_connection_get_send_maxtimeout E conn w = Inr (send_maxtimeout c, w)"
  using assms
  by (simp_all add: vde_connection_get_context_def vde_connection_max_payload_def
      vde_connection_get_priv_def vde_connection_get_pkt_headsize_def
      vde_connection_get_pkt_tailsize_def vde_connection_get_send_maxtries_def
      vde_connection_get_send_maxtimeout_def mon)

lemma conn_write_dispatch [mon]:
  "w_conn w conn = Some c \<Longrightarrow> conn \<noteq> NULL \<Longrightarrow> be_write c = Some f \<Longrightarrow>
    vde_connection_write E conn pkt w = call_be_write E f conn pkt w"
  by (simp add: vde_connection_write_def mon)

lemma conn_fini_dispatch [mon]:
  "w_conn w conn = Some c \<Longrightarrow> conn \<noteq> NULL \<Longrightarrow> be_close c = Some f \<Longrightarrow>
    vde_connection_fini E conn w = call_be_close E f conn w"
  by (simp add: vde_connection_fini_def mon)

lemma conn_call_read_dispatch [mon]:
  "w_conn w conn = Some c \<Longrightarrow> conn \<noteq> NULL \<Longrightarrow> read_cb c = Some f \<Longrightarrow>
    vde_connection_call_read E conn pkt w = call_read_cb E f conn pkt (cb_priv c) w"
  by (simp add: vde_connection_call_read_def mon)

lemma conn_call_error_dispatch [mon]:
  "w_conn w conn = Some c \<Longrightarrow> conn \<noteq> NULL \<Longrightarrow> error_cb c = Some f \<Longrightarrow>
    vde_connection_call_error E conn pkt err w = call_error_cb E f conn pkt err (cb_priv c) w"
  by (simp add: vde_connection_call_error_def mon)

lemma conn_delete_apply [mon]:
  "w_conn w conn = Some c \<Longrightarrow> conn \<noteq> NULL \<Longrightarrow>
    vde_connection_delete E conn w = Inr ((), w\<lparr>w_conn := (w_conn w)(conn := None)\<rparr>)"
  by (simp add: vde_connection_delete_def mon)

lemma conn_setters [mon]:
  assumes "w_conn w conn = Some c" and "conn \<noteq> NULL"
  shows "vde_connection_set_pkt_properties E conn hs ts w =
      Inr ((), w\<lparr>w_conn := (w_conn w)(conn \<mapsto> c\<lparr>pkt_head_sz := hs, pkt_tail_sz := ts\<rparr>)\<rparr>)"
    and "vde_connection_set_send_properties E conn mt tv w =
      Inr ((), w\<lparr>w_conn := (w_conn w)(conn \<mapsto> c\<lparr>send_maxtries := mt,
        send_maxtimeout := timeradd \<lparr>tv_sec = 0, tv_usec = 0\<rparr> tv\<rparr>)\<rparr>)"
    and "r \<noteq> None \<Longrightarrow> er \<noteq> None \<Longrightarrow> vde_connection_set_callbacks E conn r wr er arg w =
      Inr ((), w\<lparr>w_conn := (w_conn w)(conn \<mapsto>
        c\<lparr>read_cb := r, write_cb := wr, error_cb := er, cb_priv := arg\<rparr>)\<rparr>)"
  using assms
  by (simp_all add: vde_connection_set_pkt_properties_def vde_connection_set_send_properties_def
      vde_connection_set_callbacks_def mon)

end
