(* ===== verification/Signal.thy ===== *)
theory Signal
  imports Connection
begin

text \<open>
  Signals, \<^verbatim>\<open>src/signal.c\<close>: attaching and detaching listeners, raising a signal, duplication
  and destruction. A listener is the triple of its two callbacks and its private data; the
  code never holds the same triple twice (\<open>signal_wf\<close>). The pointers into a component's
  table of signals are addresses of the heap \<open>w_signal\<close>; the static arrays that components
  register from are passed by value.
\<close>

section \<open>Operations\<close>

abbreviation upd_signal :: "ptr \<Rightarrow> (vde_signal \<Rightarrow> vde_signal) \<Rightarrow> unit prog" where
  "upd_signal \<equiv> store w_signal w_signal_update"

definition vde_signal_attach ::
  "env \<Rightarrow> ptr \<Rightarrow> vde_signal_cb option \<Rightarrow> vde_signal_destroy_cb option \<Rightarrow> ptr \<Rightarrow> int prog" where
  "vde_signal_attach E signal cb destroy_cb dat =
     mbind (deref w_signal signal) (\<lambda>s.
     if \<exists>entry \<in> set (callbacks s). scb_cb entry = cb \<and> scb_destroy_cb entry = destroy_cb \<and>
          scb_data entry = dat
     then fail_errno EEXIST
     else mbind (malloc_fails E) (\<lambda>nomem.
       if nomem then fail_errno ENOMEM
       else mbind (upd_signal signal (\<lambda>s. s\<lparr>callbacks :=
              \<lparr>scb_cb = cb, scb_destroy_cb = destroy_cb, scb_data = dat\<rparr> # callbacks s\<rparr>)) (\<lambda>_.
            ret 0)))"

definition vde_signal_detach ::
  "env \<Rightarrow> ptr \<Rightarrow> vde_signal_cb option \<Rightarrow> vde_signal_destroy_cb option \<Rightarrow> ptr \<Rightarrow> int prog" where
  "vde_signal_detach E signal cb destroy_cb dat =
     mbind (deref w_signal signal) (\<lambda>s.
     case find (\<lambda>entry. scb_cb entry = cb \<and> scb_destroy_cb entry = destroy_cb \<and>
                        scb_data entry = dat) (callbacks s) of
       Some entry \<Rightarrow>
         mbind (upd_signal signal (\<lambda>s. s\<lparr>callbacks := remove1 entry (callbacks s)\<rparr>)) (\<lambda>_. ret 0)
     | None \<Rightarrow> fail_errno ENOENT)"

definition get_callbacks :: "ptr \<Rightarrow> signal_cb list prog" where
  "get_callbacks signal = mbind (deref w_signal signal) (\<lambda>s. ret (callbacks s))"

definition vde_signal_raise :: "env \<Rightarrow> ptr \<Rightarrow> vde_sobj \<Rightarrow> ptr \<Rightarrow> unit prog" where
  "vde_signal_raise E signal info component =
     mbind (get_callbacks signal) (\<lambda>cs.
     foreach (get_callbacks signal)
       (\<lambda>entry. mbind (deref w_signal signal) (\<lambda>s.
          call_ptr (scb_cb entry) (\<lambda>f. call_signal_cb E f component (sig_name s) info (scb_data entry))))
       cs)"

definition vde_signal_dup :: "env \<Rightarrow> vde_signal \<Rightarrow> ptr prog" where
  "vde_signal_dup E signal =
     mbind (alloc w_signal_update E (signal\<lparr>callbacks := []\<rparr>)) (\<lambda>new.
     if new = NULL then mbind (set_errno ENOMEM) (\<lambda>_. ret NULL)
     else ret new)"

definition vde_signal_fini :: "env \<Rightarrow> ptr \<Rightarrow> ptr \<Rightarrow> unit prog" where
  "vde_signal_fini E signal component =
     mbind (get_callbacks signal) (\<lambda>cs.
     mbind (foreach (get_callbacks signal)
       (\<lambda>entry. mbind (deref w_signal signal) (\<lambda>s.
          call_ptr (scb_destroy_cb entry)
            (\<lambda>f. call_signal_destroy_cb E f component (sig_name s) (scb_data entry))))
       cs) (\<lambda>_.
     upd_signal signal (\<lambda>s. s\<lparr>callbacks := []\<rparr>)))"

definition vde_signal_delete :: "ptr \<Rightarrow> unit prog" where
  "vde_signal_delete signal = dealloc w_signal w_signal_update signal"

section \<open>Listeners are a set without repetition\<close>

definition signal_wf :: "vde_signal \<Rightarrow> bool" where
  "signal_wf s \<longleftrightarrow> distinct (callbacks s)"

definition listener ::
  "vde_signal_cb option \<Rightarrow> vde_signal_destroy_cb option \<Rightarrow> ptr \<Rightarrow> signal_cb" where
  "listener cb destroy_cb dat = \<lparr>scb_cb = cb, scb_destroy_cb = destroy_cb, scb_data = dat\<rparr>"

lemma listener_eq:
  "scb_cb e = cb \<and> scb_destroy_cb e = d \<and> scb_data e = x \<longleftrightarrow> e = listener cb d x"
  by (cases e) (auto simp: listener_def)

lemma find_eq_Some: "find (\<lambda>e. e = x) xs = (if x \<in> set xs then Some x else None)"
  by (induction xs) auto

lemma signal_attach_cases:
  assumes "w_signal w signal = Some s"
  shows "vde_signal_attach E signal cb d x w =
    (if listener cb d x \<in> set (callbacks s) then Inr (- 1, w\<lparr>errno := EEXIST\<rparr>)
     else if malloc_null E (brk w) then Inr (- 1, w\<lparr>brk := Suc (brk w), errno := ENOMEM\<rparr>)
     else Inr (0, w\<lparr>brk := Suc (brk w), w_signal := (w_signal w)(signal \<mapsto>
       s\<lparr>callbacks := listener cb d x # callbacks s\<rparr>)\<rparr>))"
proof -
  have "(\<exists>e\<in>set (callbacks s). scb_cb e = cb \<and> scb_destroy_cb e = d \<and> scb_data e = x) \<longleftrightarrow>
      listener cb d x \<in> set (callbacks s)"
    by (simp add: listener_eq)
  with assms show ?thesis
    by (simp add: vde_signal_attach_def mon listener_def [symmetric])
qed

lemma signal_detach_cases:
  assumes "w_signal w signal = Some s"
  shows "vde_signal_detach E signal cb d x w =
    (if listener cb d x \<in> set (callbacks s)
     then Inr (0, w\<lparr>w_signal := (w_signal w)(signal \<mapsto>
       s\<lparr>callbacks := remove1 (listener cb d x) (callbacks s)\<rparr>)\<rparr>)
     else Inr (- 1, w\<lparr>errno := ENOENT\<rparr>))"
  using assms by (simp add: vde_signal_detach_def mon listener_eq find_eq_Some)

lemma signal_attach_wf:
  "vde_signal_attach E signal cb d x w = Inr (r, w') \<Longrightarrow> w_signal w signal = Some s \<Longrightarrow>
    signal_wf s \<Longrightarrow> \<exists>s'. w_signal w' signal = Some s' \<and> signal_wf s'"
  by (auto simp: signal_attach_cases signal_wf_def split: if_splits)

lemma signal_detach_wf:
  "vde_signal_detach E signal cb d x w = Inr (r, w') \<Longrightarrow> w_signal w signal = Some s \<Longrightarrow>
    signal_wf s \<Longrightarrow> \<exists>s'. w_signal w' signal = Some s' \<and> signal_wf s'"
  by (auto simp: signal_detach_cases signal_wf_def split: if_splits)

section \<open>Raising a signal\<close>

text \<open>What raising amounts to when no listener is attached or detached meanwhile.\<close>

definition notify_all :: "env \<Rightarrow> vde_signal \<Rightarrow> vde_sobj \<Rightarrow> ptr \<Rightarrow> unit prog" where
  "notify_all E s info component =
     mapM (\<lambda>e. call_ptr (scb_cb e) (\<lambda>f. call_signal_cb E f component (sig_name s) info (scb_data e)))
       (callbacks s)"

lemma signal_raise_notifies_all:
  assumes "w_signal w signal = Some s" and "signal_wf s"
    and keeps: "\<And>f n i d. keeps (\<lambda>w. w_signal w signal = Some s) (call_signal_cb E f component n i d)"
  shows "vde_signal_raise E signal info component w = notify_all E s info component w"
proof -
  have "foreach (get_callbacks signal)
      (\<lambda>e. mbind (deref w_signal signal) (\<lambda>s.
        call_ptr (scb_cb e) (\<lambda>f. call_signal_cb E f component (sig_name s) info (scb_data e))))
      (callbacks s) w = notify_all E s info component w"
    unfolding notify_all_def
  proof (rule foreach_eq_mapM [where P = "\<lambda>w. w_signal w signal = Some s" and pre = "[]"])
    show "distinct ([] @ callbacks s)" using assms(2) by (simp add: signal_wf_def)
  qed (auto simp: get_callbacks_def assms(1) intro: keep keeps)
  then show ?thesis
    using assms(1) by (simp add: vde_signal_raise_def get_callbacks_def)
qed

section \<open>Destroying a signal\<close>

text \<open>A destroy callback that always returns and leaves components and signals alone.\<close>

definition harmless_destroy :: "env \<Rightarrow> vde_signal_destroy_cb \<Rightarrow> bool" where
  "harmless_destroy E f \<longleftrightarrow> (\<forall>c n d w. \<exists>w'. call_signal_destroy_cb E f c n d w = Inr ((), w') \<and>
     w_comp w' = w_comp w \<and> w_signal w' = w_signal w \<and> interned w' = interned w \<and> brk w \<le> brk w')"

definition listeners_harmless :: "env \<Rightarrow> vde_signal \<Rightarrow> bool" where
  "listeners_harmless E s \<longleftrightarrow>
     (\<forall>e\<in>set (callbacks s). \<exists>f. scb_destroy_cb e = Some f \<and> harmless_destroy E f)"

lemma signal_fini_harmless:
  assumes s: "w_signal w p = Some s" and "signal_wf s" and h: "listeners_harmless E s"
  shows "\<exists>w'. vde_signal_fini E p component w = Inr ((), w') \<and> w_comp w' = w_comp w \<and>
    interned w' = interned w \<and> brk w \<le> brk w' \<and>
    w_signal w' = (w_signal w)(p \<mapsto> s\<lparr>callbacks := []\<rparr>)"
proof -
  let ?P = "\<lambda>v. w_comp v = w_comp w \<and> w_signal v = w_signal w \<and> interned v = interned w \<and> brk w \<le> brk v"
  let ?body' = "\<lambda>e. call_ptr (scb_destroy_cb e)
    (\<lambda>f. call_signal_destroy_cb E f component (sig_name s) (scb_data e))"
  have step: "\<exists>v'. ?body' e v = Inr ((), v') \<and> ?P v'" if "e \<in> set (callbacks s)" "?P v" for e v
  proof -
    from h that(1) obtain f where f: "scb_destroy_cb e = Some f" "harmless_destroy E f"
      by (auto simp: listeners_harmless_def)
    from f(2) obtain v' where "call_signal_destroy_cb E f component (sig_name s) (scb_data e) v =
        Inr ((), v')" "w_comp v' = w_comp v \<and> w_signal v' = w_signal v \<and> interned v' = interned v \<and>
        brk v \<le> brk v'"
      unfolding harmless_destroy_def by blast
    with f(1) that(2) show ?thesis by auto
  qed
  have "foreach (get_callbacks p)
      (\<lambda>e. mbind (deref w_signal p) (\<lambda>s. call_ptr (scb_destroy_cb e)
        (\<lambda>f. call_signal_destroy_cb E f component (sig_name s) (scb_data e))))
      (callbacks s) w = mapM ?body' (callbacks s) w"
  proof (rule foreach_eq_mapM [where P = ?P and pre = "[]"])
    show "keeps ?P (?body' e)" if "e \<in> set (callbacks s)" for e
      using step [OF that] by (fastforce intro!: keepsI)
  qed (use assms(2) in \<open>auto simp: get_callbacks_def s signal_wf_def\<close>)
  moreover obtain w' where "mapM ?body' (callbacks s) w = Inr ((), w')" "?P w'"
    using mapM_runs [of ?P w "callbacks s" ?body'] step by blast
  ultimately show ?thesis using s
    by (simp add: vde_signal_fini_def get_callbacks_def)
qed

lemma signal_dup_apply [mon]:
  "brk w \<noteq> 0 \<Longrightarrow> vde_signal_dup E s w =
     (if malloc_null E (brk w) then Inr (NULL, w\<lparr>brk := Suc (brk w), errno := ENOMEM\<rparr>)
      else Inr (brk w, w\<lparr>brk := Suc (brk w), w_signal := (w_signal w)(brk w \<mapsto> s\<lparr>callbacks := []\<rparr>)\<rparr>))"
  by (simp add: vde_signal_dup_def mon)

section \<open>Properties\<close>

text \<open>
  C16. Attaching a listener that is not attached yet adds exactly that listener, in front of
  the others; attaching it again fails with \<open>EEXIST\<close> and changes nothing else; detaching it
  gives back the listeners there were before, and detaching it again fails with \<open>ENOENT\<close>.
\<close>

theorem signal_attach_detach_roundtrip:
  assumes "w_signal w signal = Some s" and "listener cb d x \<notin> set (callbacks s)"
    and "\<not> malloc_null E (brk w)"
  shows "\<exists>w1 w2. vde_signal_attach E signal cb d x w = Inr (0, w1) \<and>
    w_signal w1 signal = Some (s\<lparr>callbacks := listener cb d x # callbacks s\<rparr>) \<and>
    vde_signal_attach E signal cb d x w1 = Inr (- 1, w1\<lparr>errno := EEXIST\<rparr>) \<and>
    vde_signal_detach E signal cb d x w1 = Inr (0, w2) \<and>
    w_signal w2 = w_signal w \<and>
    vde_signal_detach E signal cb d x w2 = Inr (- 1, w2\<lparr>errno := ENOENT\<rparr>)"
  using assms
  by (simp add: signal_attach_cases [of _ _ s] signal_attach_cases
      [of _ _ "s\<lparr>callbacks := listener cb d x # callbacks s\<rparr>"]
      signal_detach_cases [of _ _ "s\<lparr>callbacks := listener cb d x # callbacks s\<rparr>"]
      signal_detach_cases [of _ _ s] fun_upd_idem)

definition example_signal :: vde_signal where
  "example_signal = \<lparr>sig_name = Some ''port_new'', sig_description = None,
     callbacks = [listener (Some (Ext_signal_cb 1)) None 5, listener (Some (Ext_signal_cb 2)) None 6]\<rparr>"

definition example_signal_world :: world where
  "example_signal_world = empty_world\<lparr>brk := 10, w_signal := [3 \<mapsto> example_signal]\<rparr>"

theorem signal_attach_detach_roundtrip_witness:
  "\<exists>w1 w2. vde_signal_attach base_env 3 (Some (Ext_signal_cb 2)) None 7 example_signal_world = Inr (0, w1) \<and>
    vde_signal_detach base_env 3 (Some (Ext_signal_cb 2)) None 7 w1 = Inr (0, w2) \<and>
    w_signal w2 3 = Some example_signal"
  using signal_attach_detach_roundtrip [of example_signal_world 3 example_signal
      "Some (Ext_signal_cb 2)" None 7 base_env]
  by (auto simp: example_signal_world_def example_signal_def listener_def)

text \<open>
  C17. Raising a signal calls every listener exactly once, the most recently attached first,
  with the raising component, the signal's name and the given information, when the callbacks
  do not attach or detach listeners of this very signal.
\<close>

theorem signal_raise_each_listener_once:
  assumes "w_signal w signal = Some s" and "signal_wf s"
    and "\<forall>f n i d. keeps (\<lambda>w. w_signal w signal = Some s) (call_signal_cb E f component n i d)"
  shows "vde_signal_raise E signal info component w =
    mapM (\<lambda>e. call_ptr (scb_cb e)
      (\<lambda>f. call_signal_cb E f component (sig_name s) info (scb_data e))) (callbacks s) w"
  using signal_raise_notifies_all [of w signal s E component info] assms
  by (simp add: notify_all_def)

text \<open>Listeners that leave their private data in \<open>errno\<close>, after ten times what was there.\<close>

definition logging_env :: env where
  "logging_env = base_env\<lparr>call_signal_cb := (\<lambda>f c n i d. modify (\<lambda>w. w\<lparr>errno := 10 * errno w + int d\<rparr>))\<rparr>"

theorem signal_raise_each_listener_once_witness:
  "vde_signal_raise logging_env 3 SNull 1 example_signal_world =
    Inr ((), example_signal_world\<lparr>errno := 56\<rparr>)"
proof -
  have "\<forall>f n i d. keeps (\<lambda>w. w_signal w 3 = Some example_signal) (call_signal_cb logging_env f 1 n i d)"
    by (simp add: logging_env_def keeps_modify)
  from signal_raise_each_listener_once [OF _ _ this, of example_signal_world SNull] show ?thesis
    by (simp add: example_signal_world_def example_signal_def signal_wf_def listener_def
        logging_env_def empty_world_def)
qed

end
