(* ===== verification/Registry.thy ===== *)
theory Registry
  imports Memory
begin

text \<open>
  Tables of named things. A component keeps one table of commands and one of signals, and
  fills and empties them from static arrays whose last element has no name. The two loops
  are the same (\<open>each_named\<close>), and so is what they rely on: adding a name fails with
  \<open>EEXIST\<close> when it is taken, removing one fails with \<open>ENOENT\<close> when it is absent, and
  otherwise exactly that name changes. The locale \<open>name_registry\<close> states this contract and
  proves what registering and deregistering a whole array does; \<open>Component\<close> interprets it
  for commands and for signals.
\<close>

fun each_named :: "('a \<Rightarrow> string option) \<Rightarrow> ('a \<Rightarrow> int prog) \<Rightarrow> 'a list \<Rightarrow> int prog" where
  "each_named name f [] = mfail Out_Of_Bounds"
| "each_named name f (x # xs) =
     (if name x = None then ret 0
      else mbind (f x) (\<lambda>r. if r \<noteq> 0 then ret (- 1) else each_named name f xs))"

lemma keeps_each_named [keep]: "(\<And>x. keeps I (f x)) \<Longrightarrow> keeps I (each_named name f xs)"
  by (induction name f xs rule: each_named.induct) (auto intro!: keep)

text \<open>An array that ends with an unnamed element after the named ones \<open>ys\<close>.\<close>

definition named_array :: "('a \<Rightarrow> string option) \<Rightarrow> 'a list \<Rightarrow> 'a list \<Rightarrow> bool" where
  "named_array name ys xs \<longleftrightarrow>
     (\<forall>y\<in>set ys. name y \<noteq> None) \<and> (\<exists>z zs. xs = ys @ z # zs \<and> name z = None)"

definition enter_all :: "('a \<Rightarrow> string option) \<Rightarrow> ('a \<Rightarrow> 'v) \<Rightarrow> (string \<rightharpoonup> 'v) \<Rightarrow> 'a list \<Rightarrow> (string \<rightharpoonup> 'v)" where
  "enter_all name val m ys = foldl (\<lambda>m y. m(the (name y) \<mapsto> val y)) m ys"

definition erase_all :: "('a \<Rightarrow> string option) \<Rightarrow> (string \<rightharpoonup> 'v) \<Rightarrow> 'a list \<Rightarrow> (string \<rightharpoonup> 'v)" where
  "erase_all name m ys = foldl (\<lambda>m y. m(the (name y) := None)) m ys"

lemma enter_all_simps [simp]:
  "enter_all name val m [] = m"
  "enter_all name val m (y # ys) = enter_all name val (m(the (name y) \<mapsto> val y)) ys"
  by (simp_all add: enter_all_def)

lemma erase_all_simps [simp]:
  "erase_all name m [] = m"
  "erase_all name m (y # ys) = erase_all name (m(the (name y) := None)) ys"
  by (simp_all add: erase_all_def)

lemma erase_all_apply: "erase_all name m ys s = (if s \<in> (the \<circ> name) ` set ys then None else m s)"
  by (induction ys arbitrary: m) auto

lemma enter_all_other: "s \<notin> (the \<circ> name) ` set ys \<Longrightarrow> enter_all name val m ys s = m s"
  by (induction ys arbitrary: m) auto

lemma enter_all_entered:
  "distinct (map (the \<circ> name) ys) \<Longrightarrow> y \<in> set ys \<Longrightarrow>
    enter_all name val m ys (the (name y)) = Some (val y)"
proof (induction ys arbitrary: m)
  case Nil
  then show ?case by simp
next
  case (Cons z ys)
  then show ?case by (cases "y = z") (auto simp: enter_all_other image_image)
qed

lemma erase_enter_all:
  assumes "\<forall>y\<in>set ys. m (the (name y)) = None"
  shows "erase_all name (enter_all name val m ys) ys = m"
proof
  fix s show "erase_all name (enter_all name val m ys) ys s = m s"
    using assms by (auto simp: erase_all_apply enter_all_other)
qed

lemma named_array_Nil: "named_array name [] xs \<longleftrightarrow> (\<exists>z zs. xs = z # zs \<and> name z = None)"
  by (simp add: named_array_def)

lemma named_array_Cons:
  "named_array name (y # ys) xs \<longleftrightarrow> name y \<noteq> None \<and> (\<exists>xs'. xs = y # xs' \<and> named_array name ys xs')"
  by (auto simp: named_array_def)

lemmas named_array_simps = named_array_Nil named_array_Cons

locale name_registry =
  fixes inv :: "world \<Rightarrow> bool"
    and view :: "world \<Rightarrow> string \<rightharpoonup> 'v"
    and name :: "'a \<Rightarrow> string option"
    and val :: "'a \<Rightarrow> 'v"
    and add :: "'a \<Rightarrow> int prog"
    and del :: "'a \<Rightarrow> int prog"
    and no_oom :: bool
  assumes add_law: "inv w \<Longrightarrow> name x = Some s \<Longrightarrow>
      \<exists>r w'. add x w = Inr (r, w') \<and> inv w' \<and>
        (if r = 0 then view w s = None \<and> view w' = (view w)(s \<mapsto> val x)
         else r = - 1 \<and> view w' = view w \<and>
           (errno w' = EEXIST \<and> view w s \<noteq> None \<or> errno w' = ENOMEM \<and> \<not> no_oom))"
    and del_law: "inv w \<Longrightarrow> name x = Some s \<Longrightarrow>
      \<exists>r w'. del x w = Inr (r, w') \<and> inv w' \<and>
        (if view w s = None then r = - 1 \<and> errno w' = ENOENT \<and> view w' = view w
         else r = 0 \<and> view w' = (view w)(s := None))"
begin

text \<open>Registration enters a prefix of the array; it stops early only with an error.\<close>

lemma register_prefix:
  assumes "inv w" and "named_array name ys xs"
  shows "\<exists>r w' k. each_named name add xs w = Inr (r, w') \<and> inv w' \<and> k \<le> length ys \<and>
    view w' = enter_all name val (view w) (take k ys) \<and>
    (if r = 0 then k = length ys
     else r = - 1 \<and> k < length ys \<and>
       (errno w' = EEXIST \<and> view w' (the (name (ys ! k))) \<noteq> None \<or> errno w' = ENOMEM \<and> \<not> no_oom))"
  using assms
proof (induction ys arbitrary: w xs)
  case Nil
  then show ?case by (auto simp: named_array_simps)
next
  case (Cons y ys)
  obtain s xs' where y: "name y = Some s" "xs = y # xs'" "named_array name ys xs'"
    using Cons.prems(2) by (auto simp: named_array_simps)
  obtain r w1 where a: "add y w = Inr (r, w1)" "inv w1"
    and law: "if r = 0 then view w s = None \<and> view w1 = (view w)(s \<mapsto> val y)
      else r = - 1 \<and> view w1 = view w \<and>
        (errno w1 = EEXIST \<and> view w s \<noteq> None \<or> errno w1 = ENOMEM \<and> \<not> no_oom)"
    using add_law [OF Cons.prems(1) y(1)] by blast
  show ?case
  proof (cases "r = 0")
    case False
    with a y law show ?thesis by (intro exI [of _ "- 1"] exI [of _ w1] exI [of _ 0]) auto
  next
    case True
    from Cons.IH [OF a(2) y(3)] obtain r' w' k where ih:
      "each_named name add xs' w1 = Inr (r', w')" "inv w'" "k \<le> length ys"
      "view w' = enter_all name val (view w1) (take k ys)"
      "if r' = 0 then k = length ys else r' = - 1 \<and> k < length ys \<and>
        (errno w' = EEXIST \<and> view w' (the (name (ys ! k))) \<noteq> None \<or> errno w' = ENOMEM \<and> \<not> no_oom)"
      by blast
    with True a y law show ?thesis
      by (intro exI [of _ r'] exI [of _ w'] exI [of _ "Suc k"]) (auto split: if_splits)
  qed
qed

text \<open>An array of new, distinct names is registered whole.\<close>

lemma register_fresh:
  assumes "inv w" and "named_array name ys xs" and no_oom
    and "distinct (map (the \<circ> name) ys)" and "\<forall>y\<in>set ys. view w (the (name y)) = None"
  shows "\<exists>w'. each_named name add xs w = Inr (0, w') \<and> inv w' \<and>
    view w' = enter_all name val (view w) ys"
  using assms
proof (induction ys arbitrary: w xs)
  case Nil
  then show ?case by (auto simp: named_array_simps)
next
  case (Cons y ys)
  obtain s xs' where y: "name y = Some s" "xs = y # xs'" "named_array name ys xs'"
    using Cons.prems(2) by (auto simp: named_array_simps)
  with add_law [OF Cons.prems(1) y(1)] Cons.prems(3,5) obtain w1 where a:
    "add y w = Inr (0, w1)" "inv w1" "view w1 = (view w)(s \<mapsto> val y)"
    by (auto split: if_splits)
  have "\<forall>z\<in>set ys. view w1 (the (name z)) = None"
    using Cons.prems(4,5) a(3) y(1) by (force simp: image_iff)
  then obtain w' where "each_named name add xs' w1 = Inr (0, w')" "inv w'"
    "view w' = enter_all name val (view w1) ys"
    using Cons.IH [OF a(2) y(3)] Cons.prems(3,4) by auto
  with a y show ?case by auto
qed

lemma deregister_present:
  assumes "inv w" and "named_array name ys xs"
    and "distinct (map (the \<circ> name) ys)" and "\<forall>y\<in>set ys. view w (the (name y)) \<noteq> None"
  shows "\<exists>w'. each_named name del xs w = Inr (0, w') \<and> inv w' \<and> view w' = erase_all name (view w) ys"
  using assms
proof (induction ys arbitrary: w xs)
  case Nil
  then show ?case by (auto simp: named_array_simps)
next
  case (Cons y ys)
  obtain s xs' where y: "name y = Some s" "xs = y # xs'" "named_array name ys xs'"
    using Cons.prems(2) by (auto simp: named_array_simps)
  with del_law [OF Cons.prems(1) y(1)] Cons.prems(4) obtain w1 where a:
    "del y w = Inr (0, w1)" "inv w1" "view w1 = (view w)(s := None)"
    by (auto split: if_splits)
  have "\<forall>z\<in>set ys. view w1 (the (name z)) \<noteq> None"
    using Cons.prems(3,4) a(3) y(1) by (force simp: image_iff)
  then obtain w' where "each_named name del xs' w1 = Inr (0, w')" "inv w'"
    "view w' = erase_all name (view w1) ys"
    using Cons.IH [OF a(2) y(3)] Cons.prems(3) by auto
  with a y show ?case by auto
qed

lemma deregister_total:
  assumes "inv w" and "named_array name ys xs"
  shows "\<exists>r w'. each_named name del xs w = Inr (r, w') \<and> inv w'"
  using assms
proof (induction ys arbitrary: w xs)
  case Nil
  then show ?case by (auto simp: named_array_simps)
next
  case (Cons y ys)
  obtain s xs' where y: "name y = Some s" "xs = y # xs'" "named_array name ys xs'"
    using Cons.prems(2) by (auto simp: named_array_simps)
  obtain r w1 where a: "del y w = Inr (r, w1)" "inv w1" using del_law [OF Cons.prems(1) y(1)] by blast
  with Cons.IH [OF a(2) y(3)] y show ?case by (cases "r = 0") auto
qed

lemma register_deregister:
  assumes "inv w" and "named_array name ys xs" and no_oom
    and "distinct (map (the \<circ> name) ys)" and "\<forall>y\<in>set ys. view w (the (name y)) = None"
  shows "\<exists>w1 w2. each_named name add xs w = Inr (0, w1) \<and>
    (\<forall>y\<in>set ys. view w1 (the (name y)) = Some (val y)) \<and>
    each_named name del xs w1 = Inr (0, w2) \<and> inv w2 \<and> view w2 = view w"
proof -
  obtain w1 where w1: "each_named name add xs w = Inr (0, w1)" "inv w1"
    "view w1 = enter_all name val (view w) ys"
    using register_fresh [OF assms] by blast
  have e: "\<forall>y\<in>set ys. view w1 (the (name y)) = Some (val y)"
    using assms(4) w1(3) by (simp add: enter_all_entered)
  obtain w2 where "each_named name del xs w1 = Inr (0, w2)" "inv w2"
    "view w2 = erase_all name (view w1) ys"
    using deregister_present [OF w1(2) assms(2,4)] e by auto
  with w1 e erase_enter_all [OF assms(5)] show ?thesis by auto
qed

end

end
