(* ===== verification/Component.thy ===== *)
theory Component
  imports Signal Registry
begin

text \<open>
  Components, \<^verbatim>\<open>src/component.c\<close>: life cycle and reference count, the tables of commands and
  of signals, and the calls that dispatch on the kind of a component (engine, transport,
  connection manager). The inline readers of \<^verbatim>\<open>module.h\<close> and \<^verbatim>\<open>command.h\<close> are the record
  selectors of \<open>World\<close>.

  A command table maps the quark of a name to the command; a signal table maps it to the
  component's own copy of the signal. The static arrays that modules register from are
  lists whose last element has no name, as in the C sources; running past the end of an
  array without such an element is the fault \<open>Out_Of_Bounds\<close>.
\<close>

section \<open>Life cycle\<close>

abbreviation upd_comp :: "ptr \<Rightarrow> (vde_component \<Rightarrow> vde_component) \<Rightarrow> unit prog" where
  "upd_comp \<equiv> store w_comp w_comp_update"

definition zero_component :: vde_component where
  "zero_component = \<lparr>comp_ctx = NULL, comp_cops = None, qname = 0, comp_kind = VDE_ENGINE,
     comp_family = [], refcount = 0, commands = [], signals = [], comp_priv = NULL,
     initialized = False, c_cm_listen = None, c_cm_connect = None, c_tr_listen = None,
     c_tr_connect = None, c_eng_new_conn = None, c_cm_connect_cb = None, c_cm_accept_cb = None,
     c_cm_error_cb = None, cm_cb_arg = NULL\<rparr>"

definition vde_component_new :: "env \<Rightarrow> (int \<times> ptr) prog" where
  "vde_component_new E =
     mbind (alloc w_comp_update E zero_component) (\<lambda>component.
     if component = NULL then mbind (set_errno ENOMEM) (\<lambda>_. ret (- 1, NULL))
     else ret (0, component))"

text \<open>The assignments of \<open>vde_component_init\<close> up to the call of the module's own \<open>init\<close>.\<close>

definition component_setup :: "nat \<Rightarrow> vde_module \<Rightarrow> ptr \<Rightarrow> vde_component \<Rightarrow> vde_component" where
  "component_setup q m ctx c =
     (let c1 = c\<lparr>comp_ctx := ctx, qname := q, comp_kind := vde_module_get_kind m, comp_family := vde_module_get_family m,
                comp_cops := vde_module_get_component_ops m\<rparr>;
          c2 = (case vde_module_get_kind m of
                  VDE_CONNECTION_MANAGER \<Rightarrow>
                    c1\<lparr>c_cm_connect := vde_module_get_cm_connect m, c_cm_listen := vde_module_get_cm_listen m\<rparr>
                | VDE_ENGINE \<Rightarrow> c1\<lparr>c_eng_new_conn := vde_module_get_eng_new_conn m\<rparr>
                | VDE_TRANSPORT \<Rightarrow>
                    c1\<lparr>c_tr_connect := vde_module_get_tr_connect m, c_tr_listen := vde_module_get_tr_listen m\<rparr>)
      in c2\<lparr>commands := [], signals := []\<rparr>)"

definition vde_component_init :: "env \<Rightarrow> ptr \<Rightarrow> nat \<Rightarrow> ptr \<Rightarrow> ptr \<Rightarrow> vde_sobj \<Rightarrow> int prog" where
  "vde_component_init E component q module ctx params =
     mbind (vde_assert E (component \<noteq> NULL)) (\<lambda>_.
     mbind (vde_assert E (module \<noteq> NULL)) (\<lambda>_.
     mbind (deref w_module module) (\<lambda>m.
     mbind (upd_comp component (component_setup q m ctx)) (\<lambda>_.
     mbind (call_ptr (m_cops m) (\<lambda>cops.
       call_ptr (ops_init cops) (\<lambda>f. call_init E f component params))) (\<lambda>retval.
     if retval \<noteq> 0 then ret (- 1)
     else mbind (upd_comp component (\<lambda>c. c\<lparr>initialized := True\<rparr>)) (\<lambda>_. ret 0))))))"

definition vde_component_fini :: "env \<Rightarrow> ptr \<Rightarrow> unit prog" where
  "vde_component_fini E component =
     mbind (vde_assert E (component \<noteq> NULL)) (\<lambda>_.
     mbind (deref w_comp component) (\<lambda>c.
     mbind (vde_assert E (initialized c)) (\<lambda>_.
     mbind (call_ptr (comp_cops c) (\<lambda>cops.
       call_ptr (ops_fini cops) (\<lambda>f. call_fini E f component))) (\<lambda>_.
     mbind (deref w_comp component) (\<lambda>c.
     mbind (vde_assert E (length (commands c) = 0)) (\<lambda>_.
     mbind (vde_assert E (length (signals c) = 0)) (\<lambda>_.
     upd_comp component (\<lambda>c. c\<lparr>initialized := False\<rparr>))))))))"

definition vde_component_delete :: "env \<Rightarrow> ptr \<Rightarrow> unit prog" where
  "vde_component_delete E component =
     mbind (vde_assert E (component \<noteq> NULL)) (\<lambda>_.
     mbind (if vde3_debug E
            then mbind (deref w_comp component) (\<lambda>c. vde_assert E (\<not> initialized c))
            else ret ()) (\<lambda>_.
     dealloc w_comp w_comp_update component))"

section \<open>Reference count and plain fields\<close>

text \<open>The result is the new count, what the code stores through a non-null \<open>count\<close>.\<close>

definition vde_component_get :: "env \<Rightarrow> ptr \<Rightarrow> int prog" where
  "vde_component_get E component =
     mbind (vde_assert E (component \<noteq> NULL)) (\<lambda>_.
     mbind (upd_comp component (\<lambda>c. c\<lparr>refcount := refcount c + 1\<rparr>)) (\<lambda>_.
     mbind (deref w_comp component) (\<lambda>c. ret (refcount c))))"

definition vde_component_put :: "env \<Rightarrow> ptr \<Rightarrow> int prog" where
  "vde_component_put E component =
     mbind (vde_assert E (component \<noteq> NULL)) (\<lambda>_.
     mbind (upd_comp component (\<lambda>c. c\<lparr>refcount := refcount c - 1\<rparr>)) (\<lambda>_.
     mbind (deref w_comp component) (\<lambda>c. ret (refcount c))))"

text \<open>The result and, when the reference was released, the new count.\<close>

definition vde_component_put_if_last :: "env \<Rightarrow> ptr \<Rightarrow> (int \<times> int option) prog" where
  "vde_component_put_if_last E component =
     mbind (vde_assert E (component \<noteq> NULL)) (\<lambda>_.
     mbind (deref w_comp component) (\<lambda>c.
     if refcount c \<noteq> 1 then ret (1, None)
     else mbind (vde_component_put E component) (\<lambda>count. ret (0, Some count))))"

definition vde_component_get_priv :: "env \<Rightarrow> ptr \<Rightarrow> ptr prog" where
  "vde_component_get_priv E component =
     mbind (vde_assert E (component \<noteq> NULL)) (\<lambda>_.
     mbind (deref w_comp component) (\<lambda>c. ret (comp_priv c)))"

definition vde_component_set_priv :: "env \<Rightarrow> ptr \<Rightarrow> ptr \<Rightarrow> unit prog" where
  "vde_component_set_priv E component priv =
     mbind (vde_assert E (component \<noteq> NULL)) (\<lambda>_.
     upd_comp component (\<lambda>c. c\<lparr>comp_priv := priv\<rparr>))"

definition vde_component_get_context :: "env \<Rightarrow> ptr \<Rightarrow> ptr prog" where
  "vde_component_get_context E component =
     mbind (vde_assert E (component \<noteq> NULL)) (\<lambda>_.
     mbind (deref w_comp component) (\<lambda>c. ret (comp_ctx c)))"

definition vde_component_get_kind :: "env \<Rightarrow> ptr \<Rightarrow> vde_component_kind prog" where
  "vde_component_get_kind E component =
     mbind (vde_assert E (component \<noteq> NULL)) (\<lambda>_.
     mbind (deref w_comp component) (\<lambda>c. ret (comp_kind c)))"

definition vde_component_get_qname :: "env \<Rightarrow> ptr \<Rightarrow> nat prog" where
  "vde_component_get_qname E component =
     mbind (vde_assert E (component \<noteq> NULL)) (\<lambda>_.
     mbind (deref w_comp component) (\<lambda>c. ret (qname c)))"

definition vde_component_get_name :: "env \<Rightarrow> ptr \<Rightarrow> string option prog" where
  "vde_component_get_name E component =
     mbind (vde_assert E (component \<noteq> NULL)) (\<lambda>_.
     mbind (deref w_comp component) (\<lambda>c. vde_quark_to_string E (qname c)))"

section \<open>Commands\<close>

definition vde_component_command_add :: "env \<Rightarrow> ptr \<Rightarrow> vde_command \<Rightarrow> int prog" where
  "vde_component_command_add E component command =
     mbind (vde_assert E (component \<noteq> NULL)) (\<lambda>_.
     mbind (vde_quark_from_string E (cmd_name command)) (\<lambda>q.
     mbind (deref w_comp component) (\<lambda>c.
     if map_of (commands c) q \<noteq> None then fail_errno EEXIST
     else mbind (upd_comp component (\<lambda>c. c\<lparr>commands := AList.update q command (commands c)\<rparr>)) (\<lambda>_.
          ret 0))))"

definition vde_component_command_del :: "env \<Rightarrow> ptr \<Rightarrow> vde_command \<Rightarrow> int prog" where
  "vde_component_command_del E component command =
     mbind (vde_assert E (component \<noteq> NULL)) (\<lambda>_.
     mbind (vde_quark_try_string E (cmd_name command)) (\<lambda>q.
     mbind (deref w_comp component) (\<lambda>c.
     if map_of (commands c) q = None then fail_errno ENOENT
     else mbind (upd_comp component (\<lambda>c. c\<lparr>commands := AList.delete q (commands c)\<rparr>)) (\<lambda>_.
          ret 0))))"

definition vde_component_command_get :: "env \<Rightarrow> ptr \<Rightarrow> string option \<Rightarrow> vde_command option prog" where
  "vde_component_command_get E component name =
     mbind (vde_assert E (component \<noteq> NULL)) (\<lambda>_.
     mbind (vde_assert E (name \<noteq> None)) (\<lambda>_.
     mbind (vde_quark_try_string E name) (\<lambda>q.
     mbind (deref w_comp component) (\<lambda>c. ret (map_of (commands c) q)))))"

definition vde_component_commands_register :: "env \<Rightarrow> ptr \<Rightarrow> vde_command list \<Rightarrow> int prog" where
  "vde_component_commands_register E component cmds =
     mbind (vde_assert E (component \<noteq> NULL)) (\<lambda>_.
     each_named cmd_name (vde_component_command_add E component) cmds)"

definition vde_component_commands_deregister :: "env \<Rightarrow> ptr \<Rightarrow> vde_command list \<Rightarrow> int prog" where
  "vde_component_commands_deregister E component cmds =
     mbind (vde_assert E (component \<noteq> NULL)) (\<lambda>_.
     each_named cmd_name (vde_component_command_del E component) cmds)"

section \<open>Signals\<close>

definition vde_component_signal_add :: "env \<Rightarrow> ptr \<Rightarrow> vde_signal \<Rightarrow> int prog" where
  "vde_component_signal_add E component signal =
     mbind (vde_assert E (component \<noteq> NULL)) (\<lambda>_.
     mbind (vde_quark_from_string E (sig_name signal)) (\<lambda>q.
     mbind (deref w_comp component) (\<lambda>c.
     if hget (signals c) q \<noteq> NULL then fail_errno EEXIST
     else mbind (vde_signal_dup E signal) (\<lambda>dup.
       if dup = NULL then fail_errno ENOMEM
       else mbind (upd_comp component (\<lambda>c. c\<lparr>signals := AList.update q dup (signals c)\<rparr>)) (\<lambda>_.
            ret 0)))))"

definition vde_component_signal_del :: "env \<Rightarrow> ptr \<Rightarrow> vde_signal \<Rightarrow> int prog" where
  "vde_component_signal_del E component signal =
     mbind (vde_assert E (component \<noteq> NULL)) (\<lambda>_.
     mbind (vde_quark_try_string E (sig_name signal)) (\<lambda>q.
     mbind (deref w_comp component) (\<lambda>c.
     if hget (signals c) q = NULL then fail_errno ENOENT
     else mbind (upd_comp component (\<lambda>c. c\<lparr>signals := AList.delete q (signals c)\<rparr>)) (\<lambda>_.
          mbind (vde_signal_fini E (hget (signals c) q) component) (\<lambda>_.
          mbind (vde_signal_delete (hget (signals c) q)) (\<lambda>_.
          ret 0))))))"

definition vde_component_signal_get :: "env \<Rightarrow> ptr \<Rightarrow> string option \<Rightarrow> ptr prog" where
  "vde_component_signal_get E component name =
     mbind (vde_assert E (component \<noteq> NULL)) (\<lambda>_.
     mbind (vde_assert E (name \<noteq> None)) (\<lambda>_.
     mbind (vde_quark_try_string E name) (\<lambda>q.
     mbind (deref w_comp component) (\<lambda>c. ret (hget (signals c) q)))))"

definition vde_component_signals_register :: "env \<Rightarrow> ptr \<Rightarrow> vde_signal list \<Rightarrow> int prog" where
  "vde_component_signals_register E component sigs =
     mbind (vde_assert E (component \<noteq> NULL)) (\<lambda>_.
     each_named sig_name (vde_component_signal_add E component) sigs)"

definition vde_component_signals_deregister :: "env \<Rightarrow> ptr \<Rightarrow> vde_signal list \<Rightarrow> int prog" where
  "vde_component_signals_deregister E component sigs =
     mbind (vde_assert E (component \<noteq> NULL)) (\<lambda>_.
     each_named sig_name (vde_component_signal_del E component) sigs)"

definition vde_component_signal_attach ::
  "env \<Rightarrow> ptr \<Rightarrow> string option \<Rightarrow> vde_signal_cb option \<Rightarrow> vde_signal_destroy_cb option \<Rightarrow> ptr \<Rightarrow>
   int prog" where
  "vde_component_signal_attach E component signal cb destroy_cb dat =
     mbind (vde_assert E (cb \<noteq> None)) (\<lambda>_.
     mbind (vde_component_signal_get E component signal) (\<lambda>sig.
     if sig = NULL then fail_errno ENOENT
     else vde_signal_attach E sig cb destroy_cb dat))"

definition vde_component_signal_detach ::
  "env \<Rightarrow> ptr \<Rightarrow> string option \<Rightarrow> vde_signal_cb option \<Rightarrow> vde_signal_destroy_cb option \<Rightarrow> ptr \<Rightarrow>
   int prog" where
  "vde_component_signal_detach E component signal cb destroy_cb dat =
     mbind (vde_assert E (cb \<noteq> None)) (\<lambda>_.
     mbind (vde_component_signal_get E component signal) (\<lambda>sig.
     if sig = NULL then fail_errno ENOENT
     else vde_signal_detach E sig cb destroy_cb dat))"

definition vde_component_signal_raise :: "env \<Rightarrow> ptr \<Rightarrow> string option \<Rightarrow> vde_sobj \<Rightarrow> unit prog" where
  "vde_component_signal_raise E component signal info =
     mbind (vde_component_signal_get E component signal) (\<lambda>sig.
     if sig = NULL then ret ()
     else vde_signal_raise E sig info component)"

section \<open>Engines, transports, connection managers\<close>

definition vde_engine_new_connection :: "env \<Rightarrow> ptr \<Rightarrow> ptr \<Rightarrow> ptr \<Rightarrow> int prog" where
  "vde_engine_new_connection E engine conn req =
     mbind (vde_assert E (engine \<noteq> NULL)) (\<lambda>_.
     mbind (deref w_comp engine) (\<lambda>c.
     mbind (vde_assert E (comp_kind c = VDE_ENGINE)) (\<lambda>_.
     mbind (vde_assert E (conn \<noteq> NULL)) (\<lambda>_.
     call_ptr (c_eng_new_conn c) (\<lambda>f. call_eng_new_conn E f engine conn req)))))"

definition vde_transport_listen :: "env \<Rightarrow> ptr \<Rightarrow> int prog" where
  "vde_transport_listen E transport =
     mbind (vde_assert E (transport \<noteq> NULL)) (\<lambda>_.
     mbind (deref w_comp transport) (\<lambda>c.
     mbind (vde_assert E (comp_kind c = VDE_TRANSPORT)) (\<lambda>_.
     call_ptr (c_tr_listen c) (\<lambda>f. call_tr_listen E f transport))))"

definition vde_transport_connect :: "env \<Rightarrow> ptr \<Rightarrow> ptr \<Rightarrow> int prog" where
  "vde_transport_connect E transport conn =
     mbind (vde_assert E (transport \<noteq> NULL)) (\<lambda>_.
     mbind (deref w_comp transport) (\<lambda>c.
     mbind (vde_assert E (comp_kind c = VDE_TRANSPORT)) (\<lambda>_.
     mbind (vde_assert E (conn \<noteq> NULL)) (\<lambda>_.
     call_ptr (c_tr_connect c) (\<lambda>f. call_tr_connect E f transport conn)))))"

definition vde_transport_set_cm_callbacks ::
  "env \<Rightarrow> ptr \<Rightarrow> cm_connect_cb option \<Rightarrow> cm_accept_cb option \<Rightarrow> cm_error_cb option \<Rightarrow> ptr \<Rightarrow> unit prog"
where
  "vde_transport_set_cm_callbacks E transport ccb acb ecb arg =
     mbind (vde_assert E (transport \<noteq> NULL)) (\<lambda>_.
     mbind (deref w_comp transport) (\<lambda>c.
     mbind (vde_assert E (comp_kind c = VDE_TRANSPORT)) (\<lambda>_.
     mbind (vde_assert E (ccb \<noteq> None \<and> acb \<noteq> None \<and> ecb \<noteq> None)) (\<lambda>_.
     upd_comp transport (\<lambda>c. c\<lparr>c_cm_connect_cb := ccb, c_cm_accept_cb := acb,
       c_cm_error_cb := ecb, cm_cb_arg := arg\<rparr>)))))"

definition vde_transport_call_cm_connect_cb :: "env \<Rightarrow> ptr \<Rightarrow> ptr \<Rightarrow> unit prog" where
  "vde_transport_call_cm_connect_cb E transport conn =
     mbind (vde_assert E (transport \<noteq> NULL)) (\<lambda>_.
     mbind (deref w_comp transport) (\<lambda>c.
     mbind (vde_assert E (comp_kind c = VDE_TRANSPORT)) (\<lambda>_.
     mbind (vde_assert E (conn \<noteq> NULL)) (\<lambda>_.
     call_ptr (c_cm_connect_cb c) (\<lambda>f. call_cm_connect_cb E f conn (cm_cb_arg c))))))"

definition vde_transport_call_cm_accept_cb :: "env \<Rightarrow> ptr \<Rightarrow> ptr \<Rightarrow> unit prog" where
  "vde_transport_call_cm_accept_cb E transport conn =
     mbind (vde_assert E (transport \<noteq> NULL)) (\<lambda>_.
     mbind (deref w_comp transport) (\<lambda>c.
     mbind (vde_assert E (comp_kind c = VDE_TRANSPORT)) (\<lambda>_.
     mbind (vde_assert E (conn \<noteq> NULL)) (\<lambda>_.
     call_ptr (c_cm_accept_cb c) (\<lambda>f. call_cm_accept_cb E f conn (cm_cb_arg c))))))"

definition vde_transport_call_cm_error_cb :: "env \<Rightarrow> ptr \<Rightarrow> ptr \<Rightarrow> int \<Rightarrow> unit prog" where
  "vde_transport_call_cm_error_cb E transport conn tr_errno =
     mbind (vde_assert E (transport \<noteq> NULL)) (\<lambda>_.
     mbind (deref w_comp transport) (\<lambda>c.
     mbind (vde_assert E (comp_kind c = VDE_TRANSPORT)) (\<lambda>_.
     mbind (vde_assert E (conn \<noteq> NULL)) (\<lambda>_.
     call_ptr (c_cm_error_cb c) (\<lambda>f. call_cm_error_cb E f conn tr_errno (cm_cb_arg c))))))"

definition vde_conn_manager_listen :: "env \<Rightarrow> ptr \<Rightarrow> int prog" where
  "vde_conn_manager_listen E cm =
     mbind (vde_assert E (cm \<noteq> NULL)) (\<lambda>_.
     mbind (deref w_comp cm) (\<lambda>c.
     mbind (vde_assert E (comp_kind c = VDE_CONNECTION_MANAGER)) (\<lambda>_.
     call_ptr (c_cm_listen c) (\<lambda>f. call_cm_listen E f cm))))"

definition vde_conn_manager_connect ::
  "env \<Rightarrow> ptr \<Rightarrow> ptr \<Rightarrow> ptr \<Rightarrow> app_fun option \<Rightarrow> app_fun option \<Rightarrow> ptr \<Rightarrow> int prog" where
  "vde_conn_manager_connect E cm lr rr scb ecb arg =
     mbind (vde_assert E (cm \<noteq> NULL)) (\<lambda>_.
     mbind (deref w_comp cm) (\<lambda>c.
     mbind (vde_assert E (comp_kind c = VDE_CONNECTION_MANAGER)) (\<lambda>_.
     call_ptr (c_cm_connect c) (\<lambda>f. call_cm_connect E f cm lr rr scb ecb arg))))"

section \<open>Evaluation on an allocated component\<close>

lemma comp_getters [mon]:
  assumes "w_comp w component = Some c" and "component \<noteq> NULL"
  shows "vde_component_get_priv E component w = Inr (comp_priv c, w)"
    and "vde_component_get_context E component w = Inr (comp_ctx c, w)"
    and "vde_component_get_kind E component w = Inr (comp_kind c, w)"
    and "vde_component_get_qname E component w = Inr (qname c, w)"
    and "vde_component_get_name E component w =
      Inr (find (\<lambda>s. quark_id E s = qname c) (interned w), w)"
    and "vde_component_set_priv E component p w =
      Inr ((), w\<lparr>w_comp := (w_comp w)(component \<mapsto> c\<lparr>comp_priv := p\<rparr>)\<rparr>)"
  using assms
  by (simp_all add: vde_component_get_priv_def vde_component_get_context_def
      vde_component_get_kind_def vde_component_get_qname_def vde_component_get_name_def
      vde_component_set_priv_def vde_quark_to_string_def mon)

lemma refcount_apply [mon]:
  assumes "w_comp w component = Some c" and "component \<noteq> NULL"
  shows "vde_component_get E component w = Inr (refcount c + 1,
      w\<lparr>w_comp := (w_comp w)(component \<mapsto> c\<lparr>refcount := refcount c + 1\<rparr>)\<rparr>)"
    and "vde_component_put E component w = Inr (refcount c - 1,
      w\<lparr>w_comp := (w_comp w)(component \<mapsto> c\<lparr>refcount := refcount c - 1\<rparr>)\<rparr>)"
    and "vde_component_put_if_last E component w =
      (if refcount c = 1 then Inr ((0, Some 0),
         w\<lparr>w_comp := (w_comp w)(component \<mapsto> c\<lparr>refcount := 0\<rparr>)\<rparr>)
       else Inr ((1, None), w))"
  using assms
  by (simp_all add: vde_component_get_def vde_component_put_def vde_component_put_if_last_def mon)

section \<open>The table of commands\<close>

text \<open>The keys of a table are the quarks of interned names.\<close>

definition keys_interned :: "env \<Rightarrow> world \<Rightarrow> (nat \<times> 'v) list \<Rightarrow> bool" where
  "keys_interned E w h \<longleftrightarrow> (\<forall>k\<in>fst ` set h. \<exists>s\<in>set (interned w). k = quark_id E s)"

lemma key_interned:
  assumes "quark_ok E" and "keys_interned E w h" and "map_of h (quark_id E s) \<noteq> None"
  shows "s \<in> set (interned w)"
proof -
  have "quark_id E s \<in> fst ` set h" using assms(3) by (simp add: map_of_eq_None_iff)
  with assms(1,2) show ?thesis by (auto simp: keys_interned_def)
qed

lemma map_of_quark_of:
  assumes "quark_ok E" and "keys_interned E w h"
  shows "map_of h (quark_of E w (Some s)) = map_of h (quark_id E s)"
proof (cases "s \<in> set (interned w)")
  case True
  then show ?thesis by (simp add: quark_of_def)
next
  case False
  have "map_of h 0 = None" "map_of h (quark_id E s) = None"
    using assms False by (force simp: map_of_eq_None_iff keys_interned_def)+
  with False show ?thesis by (simp add: quark_of_def)
qed

lemma hget_quark_of:
  "quark_ok E \<Longrightarrow> keys_interned E w h \<Longrightarrow> hget h (quark_of E w (Some s)) = hget h (quark_id E s)"
  by (simp add: hget_def map_of_quark_of)

lemma keys_interned_update:
  "keys_interned E w h \<Longrightarrow> set (interned w') = insert s (set (interned w)) \<Longrightarrow>
    keys_interned E w' (AList.update (quark_id E s) v h)"
  by (auto simp: keys_interned_def dom_update)

lemma keys_interned_delete:
  "keys_interned E w h \<Longrightarrow> set (interned w) \<subseteq> set (interned w') \<Longrightarrow>
    keys_interned E w' (AList.delete k h)"
  by (fastforce simp: keys_interned_def set_delete)

lemma keys_interned_mono:
  "keys_interned E w h \<Longrightarrow> set (interned w) \<subseteq> set (interned w') \<Longrightarrow> keys_interned E w' h"
  by (fastforce simp: keys_interned_def)

definition cmd_inv :: "env \<Rightarrow> ptr \<Rightarrow> world \<Rightarrow> bool" where
  "cmd_inv E component w \<longleftrightarrow> quark_ok E \<and> component \<noteq> NULL \<and>
     (\<exists>c. w_comp w component = Some c \<and> keys_interned E w (commands c))"

definition cmd_view :: "env \<Rightarrow> ptr \<Rightarrow> world \<Rightarrow> string \<rightharpoonup> vde_command" where
  "cmd_view E component w s = (case w_comp w component of
       None \<Rightarrow> None
     | Some c \<Rightarrow> map_of (commands c) (quark_id E s))"

lemma command_get_view:
  "cmd_inv E component w \<Longrightarrow>
    vde_component_command_get E component (Some s) w = Inr (cmd_view E component w s, w)"
  by (auto simp: cmd_inv_def cmd_view_def vde_component_command_get_def mon map_of_quark_of)

lemma command_add_law:
  assumes "cmd_inv E component w" and "cmd_name x = Some s"
  shows "\<exists>r w'. vde_component_command_add E component x w = Inr (r, w') \<and> cmd_inv E component w' \<and>
    (if r = 0 then cmd_view E component w s = None \<and>
       cmd_view E component w' = (cmd_view E component w)(s \<mapsto> x)
     else r = - 1 \<and> cmd_view E component w' = cmd_view E component w \<and>
       (errno w' = EEXIST \<and> cmd_view E component w s \<noteq> None \<or> errno w' = ENOMEM \<and> \<not> True))"
proof -
  from assms(1) obtain c where c: "quark_ok E" "component \<noteq> NULL" "w_comp w component = Some c"
    "keys_interned E w (commands c)"
    by (auto simp: cmd_inv_def)
  show ?thesis
  proof (cases "map_of (commands c) (quark_id E s) = None")
    case True
    with c assms(2) show ?thesis
      by (auto simp: vde_component_command_add_def mon cmd_inv_def cmd_view_def fun_eq_iff
          update_conv' intro: keys_interned_update)
  next
    case False
    with c assms(2) show ?thesis
      by (auto simp: vde_component_command_add_def mon cmd_inv_def cmd_view_def fun_eq_iff
          intro: keys_interned_mono)
  qed
qed

lemma command_del_law:
  assumes "cmd_inv E component w" and "cmd_name x = Some s"
  shows "\<exists>r w'. vde_component_command_del E component x w = Inr (r, w') \<and> cmd_inv E component w' \<and>
    (if cmd_view E component w s = None
     then r = - 1 \<and> errno w' = ENOENT \<and> cmd_view E component w' = cmd_view E component w
     else r = 0 \<and> cmd_view E component w' = (cmd_view E component w)(s := None))"
proof -
  from assms(1) obtain c where c: "quark_ok E" "component \<noteq> NULL" "w_comp w component = Some c"
    "keys_interned E w (commands c)"
    by (auto simp: cmd_inv_def)
  show ?thesis
  proof (cases "map_of (commands c) (quark_id E s) = None")
    case True
    with c assms(2) show ?thesis
      by (auto simp: vde_component_command_del_def mon cmd_inv_def cmd_view_def map_of_quark_of
          keys_interned_def)
  next
    case False
    then have "s \<in> set (interned w)"
      using c by (blast intro: key_interned)
    with False c assms(2) show ?thesis
      by (auto simp: vde_component_command_del_def mon cmd_inv_def cmd_view_def fun_eq_iff
          delete_conv' quark_of_def intro: keys_interned_delete)
  qed
qed

interpretation cmds: name_registry "cmd_inv E component" "cmd_view E component" cmd_name "\<lambda>x. x"
  "vde_component_command_add E component" "vde_component_command_del E component" True
  by unfold_locales (rule command_add_law, assumption+, rule command_del_law)

lemma commands_register_loop:
  "component \<noteq> NULL \<Longrightarrow> vde_component_commands_register E component xs w =
    each_named cmd_name (vde_component_command_add E component) xs w"
  by (simp add: vde_component_commands_register_def)

lemma commands_deregister_loop:
  "component \<noteq> NULL \<Longrightarrow> vde_component_commands_deregister E component xs w =
    each_named cmd_name (vde_component_command_del E component) xs w"
  by (simp add: vde_component_commands_deregister_def)

section \<open>The table of signals\<close>

definition sig_entry_ok :: "env \<Rightarrow> world \<Rightarrow> ptr \<Rightarrow> bool" where
  "sig_entry_ok E w p \<longleftrightarrow> p \<noteq> NULL \<and> p < brk w \<and>
     (\<exists>s. w_signal w p = Some s \<and> signal_wf s \<and> listeners_harmless E s)"

definition sig_inv :: "env \<Rightarrow> ptr \<Rightarrow> world \<Rightarrow> bool" where
  "sig_inv E component w \<longleftrightarrow> quark_ok E \<and> component \<noteq> NULL \<and> brk w \<noteq> 0 \<and>
     (\<exists>c. w_comp w component = Some c \<and> keys_interned E w (signals c) \<and>
        distinct (map fst (signals c)) \<and> distinct (map snd (signals c)) \<and>
        (\<forall>p\<in>snd ` set (signals c). sig_entry_ok E w p))"

definition sig_view :: "env \<Rightarrow> ptr \<Rightarrow> world \<Rightarrow> string \<rightharpoonup> vde_signal" where
  "sig_view E component w s = (case w_comp w component of
       None \<Rightarrow> None
     | Some c \<Rightarrow> (case map_of (signals c) (quark_id E s) of None \<Rightarrow> None | Some p \<Rightarrow> w_signal w p))"

lemma sig_entry_ok_mono:
  "sig_entry_ok E w p \<Longrightarrow> brk w \<le> brk w' \<Longrightarrow> w_signal w' p = w_signal w p \<Longrightarrow> sig_entry_ok E w' p"
  by (auto simp: sig_entry_ok_def)

lemma hget_NULL_iff:
  "\<forall>p\<in>snd ` set h. p \<noteq> NULL \<Longrightarrow> hget h k = NULL \<longleftrightarrow> map_of h k = None"
  by (force simp: hget_def split: option.splits dest: map_of_SomeD)

lemma sig_invE:
  assumes "sig_inv E component w"
  obtains c where "quark_ok E" "component \<noteq> NULL" "brk w \<noteq> 0" "w_comp w component = Some c"
    "keys_interned E w (signals c)" "distinct (map fst (signals c))" "distinct (map snd (signals c))"
    "\<And>p. p \<in> snd ` set (signals c) \<Longrightarrow> sig_entry_ok E w p"
    "\<And>k. hget (signals c) k = NULL \<longleftrightarrow> map_of (signals c) k = None"
  using assms by (force simp: sig_inv_def sig_entry_ok_def hget_NULL_iff)

lemma sig_view_None:
  "w_comp w component = Some c \<Longrightarrow> (\<And>p. p \<in> snd ` set (signals c) \<Longrightarrow> sig_entry_ok E w p) \<Longrightarrow>
    sig_view E component w s = None \<longleftrightarrow> map_of (signals c) (quark_id E s) = None"
  by (force simp: sig_view_def sig_entry_ok_def split: option.splits dest!: map_of_SomeD)

lemma sig_unchanged:
  assumes "sig_inv E component w" and "w_comp w' = w_comp w" and "w_signal w' = w_signal w"
    and "brk w \<le> brk w'" and "set (interned w) \<subseteq> set (interned w')"
  shows "sig_inv E component w'" and "sig_view E component w' = sig_view E component w"
proof -
  have "\<And>p. sig_entry_ok E w p \<Longrightarrow> sig_entry_ok E w' p"
    using assms(3,4) by (simp add: sig_entry_ok_mono)
  with assms show "sig_inv E component w'"
    by (auto simp: sig_inv_def intro: keys_interned_mono)
  show "sig_view E component w' = sig_view E component w"
    using assms(2,3) by (simp add: sig_view_def fun_eq_iff split: option.splits)
qed

lemma signal_add_fresh:
  assumes "sig_inv E component w" and "sig_name x = Some s" and "sig_view E component w s = None"
    and "\<not> malloc_null E (brk w)"
  shows "\<exists>w'. vde_component_signal_add E component x w = Inr (0, w') \<and> sig_inv E component w' \<and>
    sig_view E component w' = (sig_view E component w)(s \<mapsto> x\<lparr>callbacks := []\<rparr>)"
proof -
  from assms(1) obtain c where c: "quark_ok E" "component \<noteq> NULL" "brk w \<noteq> 0"
    "w_comp w component = Some c" "keys_interned E w (signals c)"
    "distinct (map fst (signals c))" "distinct (map snd (signals c))"
    and ok: "\<And>p. p \<in> snd ` set (signals c) \<Longrightarrow> sig_entry_ok E w p"
    and nul: "\<And>k. hget (signals c) k = NULL \<longleftrightarrow> map_of (signals c) k = None"
    by (rule sig_invE) (rule that)
  let ?p = "brk w" and ?q = "quark_id E s"
  let ?c' = "c\<lparr>signals := AList.update ?q ?p (signals c)\<rparr>"
  let ?w' = "w\<lparr>interned := List.insert s (interned w), brk := Suc ?p,
    w_signal := (w_signal w)(?p \<mapsto> x\<lparr>callbacks := []\<rparr>), w_comp := (w_comp w)(component \<mapsto> ?c')\<rparr>"
  have abs: "map_of (signals c) ?q = None"
    using sig_view_None [OF c(4) ok] assms(3) by simp
  then have new: "?q \<notin> fst ` set (signals c)" by (simp add: map_of_eq_None_iff)
  have old: "p \<noteq> ?p" if "p \<in> snd ` set (signals c)" for p
    using ok [OF that] by (auto simp: sig_entry_ok_def)
  have run: "vde_component_signal_add E component x w = Inr (0, ?w')"
    using c assms(2,4) abs nul by (simp add: vde_component_signal_add_def mon)
  have ok': "sig_entry_ok E ?w' p" if "p \<in> snd ` set (signals c)" for p
    using ok [OF that] old [OF that] by (rule_tac sig_entry_ok_mono) auto
  have "sig_entry_ok E ?w' ?p"
    using c(3) by (simp add: sig_entry_ok_def signal_wf_def listeners_harmless_def)
  with c new old ok' have "sig_inv E component ?w'"
    by (auto simp: sig_inv_def update_absent keys_interned_def)
  moreover have "sig_view E component ?w' t =
      ((sig_view E component w)(s \<mapsto> x\<lparr>callbacks := []\<rparr>)) t" for t
  proof (cases "t = s")
    case True
    then show ?thesis by (simp add: sig_view_def update_conv')
  next
    case False
    have "p \<noteq> ?p" if "map_of (signals c) k = Some p" for k p
      using old [of p] map_of_SomeD [OF that] by force
    with False c show ?thesis
      by (auto simp: sig_view_def update_conv' split: option.splits)
  qed
  ultimately show ?thesis using run by auto
qed

lemma signal_add_law:
  assumes "sig_inv E component w" and "sig_name x = Some s"
  shows "\<exists>r w'. vde_component_signal_add E component x w = Inr (r, w') \<and> sig_inv E component w' \<and>
    (if r = 0 then sig_view E component w s = None \<and>
       sig_view E component w' = (sig_view E component w)(s \<mapsto> x\<lparr>callbacks := []\<rparr>)
     else r = - 1 \<and> sig_view E component w' = sig_view E component w \<and>
       (errno w' = EEXIST \<and> sig_view E component w s \<noteq> None \<or>
        errno w' = ENOMEM \<and> \<not> (\<forall>n. \<not> malloc_null E n)))"
proof (cases "sig_view E component w s = None \<and> \<not> malloc_null E (brk w)")
  case True
  with signal_add_fresh [OF assms] obtain w' where
    "vde_component_signal_add E component x w = Inr (0, w')" "sig_inv E component w'"
    "sig_view E component w' = (sig_view E component w)(s \<mapsto> x\<lparr>callbacks := []\<rparr>)"
    by auto
  with True show ?thesis by auto
next
  case False
  from assms(1) obtain c where c: "quark_ok E" "component \<noteq> NULL" "brk w \<noteq> 0"
    "w_comp w component = Some c" "keys_interned E w (signals c)"
    "distinct (map fst (signals c))" "distinct (map snd (signals c))"
    and ok: "\<And>p. p \<in> snd ` set (signals c) \<Longrightarrow> sig_entry_ok E w p"
    and nul: "\<And>k. hget (signals c) k = NULL \<longleftrightarrow> map_of (signals c) k = None"
    by (rule sig_invE) (rule that)
  show ?thesis
  proof (cases "map_of (signals c) (quark_id E s) = None")
    case True
    then have "malloc_null E (brk w)"
      using False sig_view_None [OF c(4) ok] by auto
    with True c assms(2) nul show ?thesis
      by (auto simp: vde_component_signal_add_def mon intro!: sig_unchanged [OF assms(1)])
  next
    case False
    then have "sig_view E component w s \<noteq> None"
      using sig_view_None [OF c(4) ok] by auto
    with False c assms(2) nul show ?thesis
      by (auto simp: vde_component_signal_add_def mon intro!: sig_unchanged [OF assms(1)])
  qed
qed

lemma signal_del_present:
  assumes "sig_inv E component w" and "sig_name x = Some s" and "sig_view E component w s \<noteq> None"
  shows "\<exists>w'. vde_component_signal_del E component x w = Inr (0, w') \<and> sig_inv E component w' \<and>
    sig_view E component w' = (sig_view E component w)(s := None)"
proof -
  from assms(1) obtain c where c: "quark_ok E" "component \<noteq> NULL" "brk w \<noteq> 0"
    "w_comp w component = Some c" "keys_interned E w (signals c)"
    "distinct (map fst (signals c))" "distinct (map snd (signals c))"
    and ok: "\<And>p. p \<in> snd ` set (signals c) \<Longrightarrow> sig_entry_ok E w p"
    and nul: "\<And>k. hget (signals c) k = NULL \<longleftrightarrow> map_of (signals c) k = None"
    by (rule sig_invE) (rule that)
  let ?q = "quark_id E s"
  let ?c' = "c\<lparr>signals := AList.delete ?q (signals c)\<rparr>"
  obtain p where p: "map_of (signals c) ?q = Some p"
    using sig_view_None [OF c(4) ok] assms(3) by auto
  then have pin: "(?q, p) \<in> set (signals c)" by (simp add: map_of_SomeD)
  obtain sg where sg: "p \<noteq> NULL" "w_signal w p = Some sg" "signal_wf sg" "listeners_harmless E sg"
    using ok [of p] pin by (force simp: sig_entry_ok_def)
  let ?w1 = "w\<lparr>w_comp := (w_comp w)(component \<mapsto> ?c')\<rparr>"
  obtain w2 where w2: "vde_signal_fini E p component ?w1 = Inr ((), w2)" "w_comp w2 = w_comp ?w1"
    "interned w2 = interned w" "brk w \<le> brk w2" "w_signal w2 = (w_signal w)(p \<mapsto> sg\<lparr>callbacks := []\<rparr>)"
    using signal_fini_harmless [of ?w1 p sg E component] sg by auto
  let ?w' = "w2\<lparr>w_signal := (w_signal w2)(p := None)\<rparr>"
  have other: "p' \<noteq> p" if "(k, p') \<in> set (signals c)" "k \<noteq> ?q" for k p'
    using that pin c(7) unfolding distinct_map inj_on_def by force
  have "s \<in> set (interned w)" using key_interned [OF c(1,5)] p by auto
  then have "vde_component_signal_del E component x w = Inr (0, ?w')"
    using c assms(2) p sg w2
    by (simp add: vde_component_signal_del_def vde_signal_delete_def mon quark_of_def hget_def)
  moreover have "sig_inv E component ?w'"
  proof -
    have "sig_entry_ok E ?w' p'" if "(k, p') \<in> set (signals c)" "k \<noteq> ?q" for k p'
    proof (rule sig_entry_ok_mono [of E w])
      show "sig_entry_ok E w p'" using ok [of p'] that(1) by force
    qed (use other [OF that] w2(4,5) in simp_all)
    moreover have "keys_interned E ?w' (signals ?c')"
      using c(5) w2(3) by (simp add: keys_interned_delete)
    moreover have "distinct (map snd (AList.delete ?q (signals c)))"
      using c(7) by (simp add: AList.delete_eq distinct_map_filter)
    ultimately show ?thesis
      using c w2 by (auto simp: sig_inv_def set_delete distinct_delete)
  qed
  moreover have "sig_view E component ?w' t = ((sig_view E component w)(s := None)) t" for t
    using c w2 other [of "quark_id E t"]
    by (auto simp: sig_view_def delete_conv' split: option.splits dest!: map_of_SomeD)
  ultimately show ?thesis by auto
qed

lemma signal_del_law:
  assumes "sig_inv E component w" and "sig_name x = Some s"
  shows "\<exists>r w'. vde_component_signal_del E component x w = Inr (r, w') \<and> sig_inv E component w' \<and>
    (if sig_view E component w s = None
     then r = - 1 \<and> errno w' = ENOENT \<and> sig_view E component w' = sig_view E component w
     else r = 0 \<and> sig_view E component w' = (sig_view E component w)(s := None))"
proof (cases "sig_view E component w s = None")
  case True
  from assms(1) obtain c where c: "quark_ok E" "component \<noteq> NULL" "brk w \<noteq> 0"
    "w_comp w component = Some c" "keys_interned E w (signals c)"
    "distinct (map fst (signals c))" "distinct (map snd (signals c))"
    and ok: "\<And>p. p \<in> snd ` set (signals c) \<Longrightarrow> sig_entry_ok E w p"
    and nul: "\<And>k. hget (signals c) k = NULL \<longleftrightarrow> map_of (signals c) k = None"
    by (rule sig_invE) (rule that)
  have "hget (signals c) (quark_of E w (Some s)) = NULL"
    using True sig_view_None [OF c(4) ok] nul by (simp add: hget_quark_of c)
  with c(2,4) assms(2) True show ?thesis
    by (auto simp: vde_component_signal_del_def mon intro!: sig_unchanged [OF assms(1)])
next
  case False
  with signal_del_present [OF assms] show ?thesis by auto
qed

interpretation sigs: name_registry "sig_inv E component" "sig_view E component" sig_name
  "\<lambda>x. x\<lparr>callbacks := []\<rparr>" "vde_component_signal_add E component"
  "vde_component_signal_del E component" "\<forall>n. \<not> malloc_null E n"
  by unfold_locales (rule signal_add_law, assumption+, rule signal_del_law)

section \<open>Properties\<close>

text \<open>
  C18. Registering an array of commands whose names are new and distinct succeeds and makes
  every one of them available under its name; deregistering the same array succeeds and gives
  back the table there was before.
\<close>

theorem commands_register_deregister:
  assumes "cmd_inv E component w" and "named_array cmd_name ys xs"
    and "distinct (map (the \<circ> cmd_name) ys)"
    and "\<forall>y\<in>set ys. cmd_view E component w (the (cmd_name y)) = None"
  shows "\<exists>w1 w2. vde_component_commands_register E component xs w = Inr (0, w1) \<and>
    (\<forall>y\<in>set ys. vde_component_command_get E component (cmd_name y) w1 = Inr (Some y, w1)) \<and>
    vde_component_commands_deregister E component xs w1 = Inr (0, w2) \<and>
    (\<forall>s. vde_component_command_get E component (Some s) w2 = Inr (cmd_view E component w s, w2))"
proof -
  have ne: "component \<noteq> NULL" using assms(1) by (simp add: cmd_inv_def)
  obtain w1 w2 where *: "each_named cmd_name (vde_component_command_add E component) xs w = Inr (0, w1)"
    "cmd_inv E component w1" "cmd_view E component w1 = enter_all cmd_name (\<lambda>x. x) (cmd_view E component w) ys"
    "each_named cmd_name (vde_component_command_del E component) xs w1 = Inr (0, w2)"
    "cmd_inv E component w2" "cmd_view E component w2 = cmd_view E component w"
    using cmds.register_fresh [OF assms(1,2) _ assms(3,4)]
      cmds.register_deregister [OF assms(1,2) _ assms(3,4)] by auto
  have "vde_component_command_get E component (cmd_name y) w1 = Inr (Some y, w1)" if y: "y \<in> set ys" for y
  proof -
    obtain s where "cmd_name y = Some s" using y assms(2) by (force simp: named_array_def)
    with enter_all_entered [OF assms(3) y, where val = "\<lambda>x. x"] *(2,3) show ?thesis
      by (auto simp: command_get_view)
  qed
  with * ne show ?thesis
    by (auto simp: commands_register_loop commands_deregister_loop command_get_view)
qed

definition example_command :: "string \<Rightarrow> vde_command" where
  "example_command s = \<lparr>cmd_name = Some s, cmd_func = Ext_command 0, cmd_description = [], cmd_args = []\<rparr>"

definition end_command :: vde_command where
  "end_command = \<lparr>cmd_name = None, cmd_func = Ext_command 0, cmd_description = [], cmd_args = []\<rparr>"

definition example_comp_world :: world where
  "example_comp_world = empty_world\<lparr>brk := 10, interned := [''status''],
     w_comp := [2 \<mapsto> zero_component\<lparr>commands := [(quark_num ''status'', example_command ''status'')]\<rparr>,
                4 \<mapsto> zero_component]\<rparr>"

lemma example_cmd_inv: "cmd_inv base_env 2 example_comp_world"
  by (simp add: cmd_inv_def quark_ok_num example_comp_world_def keys_interned_def)

theorem commands_register_deregister_witness:
  "\<exists>w1 w2. vde_component_commands_register base_env 2
      [example_command ''a'', example_command ''b'', end_command] example_comp_world = Inr (0, w1) \<and>
    vde_component_command_get base_env 2 (Some ''b'') w1 = Inr (Some (example_command ''b''), w1) \<and>
    vde_component_commands_deregister base_env 2
      [example_command ''a'', example_command ''b'', end_command] w1 = Inr (0, w2) \<and>
    vde_component_command_get base_env 2 (Some ''status'') w2 = Inr (Some (example_command ''status''), w2)"
proof -
  have "named_array cmd_name [example_command ''a'', example_command ''b'']
      [example_command ''a'', example_command ''b'', end_command]"
    by (simp add: named_array_simps example_command_def end_command_def)
  from commands_register_deregister [OF example_cmd_inv this] show ?thesis
    by (auto simp: example_command_def cmd_view_def example_comp_world_def)
qed

text \<open>
  Registering an array of commands stops at the first name already taken: it returns \<open>-1\<close>
  with \<open>errno\<close> set to \<open>EEXIST\<close>, the commands before it stay registered, and nothing else
  changes in the table. With no such name it returns 0 and registers all of them.
\<close>

theorem commands_register_stops_at_duplicate:
  assumes "cmd_inv E component w" and "named_array cmd_name ys xs"
  shows "\<exists>r w' k. vde_component_commands_register E component xs w = Inr (r, w') \<and> k \<le> length ys \<and>
    (\<forall>s. vde_component_command_get E component (Some s) w' =
       Inr (enter_all cmd_name (\<lambda>x. x) (cmd_view E component w) (take k ys) s, w')) \<and>
    (if r = 0 then k = length ys
     else r = - 1 \<and> k < length ys \<and> errno w' = EEXIST \<and>
       vde_component_command_get E component (cmd_name (ys ! k)) w' \<noteq> Inr (None, w'))"
proof -
  have ne: "component \<noteq> NULL" using assms(1) by (simp add: cmd_inv_def)
  obtain r w' k where *: "each_named cmd_name (vde_component_command_add E component) xs w = Inr (r, w')"
    "cmd_inv E component w'" "k \<le> length ys"
    "cmd_view E component w' = enter_all cmd_name (\<lambda>x. x) (cmd_view E component w) (take k ys)"
    "if r = 0 then k = length ys else r = - 1 \<and> k < length ys \<and> (errno w' = EEXIST \<and>
       cmd_view E component w' (the (cmd_name (ys ! k))) \<noteq> None \<or> errno w' = ENOMEM \<and> \<not> True)"
    using cmds.register_prefix [OF assms] by blast
  have "vde_component_command_get E component (cmd_name (ys ! k)) w' =
      Inr (cmd_view E component w' (the (cmd_name (ys ! k))), w')" if "k < length ys"
  proof -
    have "ys ! k \<in> set ys" using that by simp
    then obtain s where "cmd_name (ys ! k) = Some s" using assms(2) by (force simp: named_array_def)
    with *(2) show ?thesis by (simp add: command_get_view)
  qed
  with * ne show ?thesis
    by (intro exI [of _ r] exI [of _ w'] exI [of _ k])
      (auto simp: commands_register_loop command_get_view split: if_splits)
qed

theorem commands_register_stops_at_duplicate_witness:
  "\<exists>w'. vde_component_commands_register base_env 2
      [example_command ''a'', example_command ''status'', end_command] example_comp_world = Inr (- 1, w') \<and>
    errno w' = EEXIST"
proof -
  let ?xs = "[example_command ''a'', example_command ''status'', end_command]"
  have n: "named_array cmd_name [example_command ''a'', example_command ''status''] ?xs"
    by (simp add: named_array_simps example_command_def end_command_def)
  have "\<exists>w'. vde_component_commands_register base_env 2 ?xs example_comp_world = Inr (- 1, w')"
    by (simp add: vde_component_commands_register_def vde_component_command_add_def mon
        example_command_def end_command_def example_comp_world_def update_conv')
  with commands_register_stops_at_duplicate [OF example_cmd_inv n] show ?thesis
    by (auto split: if_splits)
qed

text \<open>
  Registering an array of signals whose names are new and distinct gives the component a
  copy of each with no listener; deregistering the array gives back the table there was
  before and releases the copies.
\<close>

theorem signals_register_deregister:
  assumes "sig_inv E component w" and "named_array sig_name ys xs"
    and "\<forall>n. \<not> malloc_null E n" and "distinct (map (the \<circ> sig_name) ys)"
    and "\<forall>y\<in>set ys. sig_view E component w (the (sig_name y)) = None"
  shows "\<exists>w1 w2. vde_component_signals_register E component xs w = Inr (0, w1) \<and>
    (\<forall>y\<in>set ys. sig_view E component w1 (the (sig_name y)) = Some (y\<lparr>callbacks := []\<rparr>)) \<and>
    vde_component_signals_deregister E component xs w1 = Inr (0, w2) \<and>
    sig_inv E component w2 \<and> sig_view E component w2 = sig_view E component w"
proof -
  have "component \<noteq> NULL" using assms(1) by (simp add: sig_inv_def)
  with sigs.register_deregister [OF assms] show ?thesis
    by (auto simp: vde_component_signals_register_def vde_component_signals_deregister_def)
qed

definition end_signal :: vde_signal where
  "end_signal = \<lparr>sig_name = None, sig_description = None, callbacks = []\<rparr>"

lemma example_sig_inv: "sig_inv base_env 4 example_comp_world"
  by (simp add: sig_inv_def quark_ok_num example_comp_world_def keys_interned_def zero_component_def)

theorem signals_register_deregister_witness:
  "\<exists>w1 w2. vde_component_signals_register base_env 4 [example_signal, end_signal] example_comp_world = Inr (0, w1) \<and>
    sig_view base_env 4 w1 ''port_new'' = Some (example_signal\<lparr>callbacks := []\<rparr>) \<and>
    vde_component_signals_deregister base_env 4 [example_signal, end_signal] w1 = Inr (0, w2) \<and>
    sig_view base_env 4 w2 ''port_new'' = None"
proof -
  have n: "named_array sig_name [example_signal] [example_signal, end_signal]"
    by (simp add: named_array_simps example_signal_def end_signal_def)
  have "sig_view base_env 4 example_comp_world ''port_new'' = None"
    by (simp add: sig_view_def example_comp_world_def zero_component_def)
  with signals_register_deregister [OF example_sig_inv n] show ?thesis
    by (auto simp: example_signal_def)
qed

end
