(* ===== verification/Modules.thy ===== *)
theory Modules
  imports Component
begin

text \<open>
  Modules: the registry of modules of a context (\<open>vde_context_lookup_module\<close> and
  \<open>vde_context_register_module\<close> of \<^verbatim>\<open>src/context.c\<close>) and loading them from the file system
  (\<^verbatim>\<open>src/module.c\<close>). The directory walk of \<^verbatim>\<open>fts(3)\<close> and the dynamic loader are fields of the
  environment: \<open>dl_open\<close> gives a handle, \<open>dl_sym\<close> the address and the initial contents of the
  module structure of a shared object, or nothing when the object has no such symbol.
\<close>

section \<open>The modules of a context\<close>

abbreviation upd_ctx :: "ptr \<Rightarrow> (vde_context \<Rightarrow> vde_context) \<Rightarrow> unit prog" where
  "upd_ctx \<equiv> store w_ctx w_ctx_update"

fun lookup_module_loop :: "env \<Rightarrow> vde_component_kind \<Rightarrow> nat \<Rightarrow> ptr list \<Rightarrow> ptr prog" where
  "lookup_module_loop E kind family [] = ret NULL"
| "lookup_module_loop E kind family (module # ms) =
     mbind (deref w_module module) (\<lambda>m.
     mbind (vde_quark_from_string E (Some (vde_module_get_family m))) (\<lambda>q.
     if kind = vde_module_get_kind m \<and> family = q then ret module
     else lookup_module_loop E kind family ms))"

definition vde_context_lookup_module ::
  "env \<Rightarrow> ptr \<Rightarrow> vde_component_kind \<Rightarrow> string option \<Rightarrow> ptr prog" where
  "vde_context_lookup_module E ctx kind family =
     mbind (vde_assert E (ctx \<noteq> NULL)) (\<lambda>_.
     mbind (deref w_ctx ctx) (\<lambda>x.
     mbind (vde_assert E (ctx_initialized x = 1)) (\<lambda>_.
     mbind (vde_quark_from_string E family) (\<lambda>q.
     lookup_module_loop E kind q (modules x)))))"

text \<open>The sanity checks on a module: the operations of its kind, then the common ones.\<close>

definition kind_ops_ok :: "vde_module \<Rightarrow> bool" where
  "kind_ops_ok m = (case vde_module_get_kind m of
       VDE_CONNECTION_MANAGER \<Rightarrow> \<not> (vde_module_get_cm_connect m = None \<or> vde_module_get_cm_listen m = None)
     | VDE_ENGINE \<Rightarrow> vde_module_get_eng_new_conn m \<noteq> None
     | VDE_TRANSPORT \<Rightarrow> \<not> (vde_module_get_tr_connect m = None \<or> vde_module_get_tr_listen m = None))"

definition component_ops_ok :: "vde_module \<Rightarrow> bool" where
  "component_ops_ok m = (case vde_module_get_component_ops m of
       None \<Rightarrow> False
     | Some cops \<Rightarrow> \<not> (ops_init cops = None \<or> ops_fini cops = None))"

definition vde_context_register_module :: "env \<Rightarrow> ptr \<Rightarrow> ptr \<Rightarrow> int prog" where
  "vde_context_register_module E ctx module =
     mbind (vde_assert E (ctx \<noteq> NULL)) (\<lambda>_.
     mbind (deref w_ctx ctx) (\<lambda>x.
     mbind (vde_assert E (ctx_initialized x = 1)) (\<lambda>_.
     mbind (deref w_module module) (\<lambda>m.
     mbind (vde_context_lookup_module E ctx (vde_module_get_kind m) (Some (vde_module_get_family m))) (\<lambda>found.
     if found \<noteq> NULL then fail_errno EEXIST
     else if \<not> kind_ops_ok m then fail_errno EINVAL
     else if \<not> component_ops_ok m then fail_errno EINVAL
     else mbind (upd_ctx ctx (\<lambda>x. x\<lparr>modules := module # modules x\<rparr>)) (\<lambda>_. ret 0))))))"

section \<open>Loading\<close>

text \<open>
  \<open>dlsym\<close> makes the static structure of the shared object addressable. \<open>dlclose\<close> of an object
  whose module was refused is not modelled: nothing refers to it.
\<close>

definition module_try_load :: "env \<Rightarrow> ptr \<Rightarrow> string \<Rightarrow> int prog" where
  "module_try_load E ctx path =
     (let handle = dl_open E path
      in if handle = NULL then fail_errno EINVAL
         else case dl_sym E handle of
           None \<Rightarrow> fail_errno ENOENT
         | Some (mdl, contents) \<Rightarrow>
             if mdl = NULL then fail_errno EINVAL
             else
               mbind (modify (\<lambda>w. if w_module w mdl = None
                 then w\<lparr>w_module := (w_module w)(mdl \<mapsto> contents)\<rparr> else w)) (\<lambda>_.
               mbind (vde_context_register_module E ctx mdl) (\<lambda>rv.
               if rv \<noteq> 0 then ret (- 1)
               else mbind (store w_module w_module_update mdl (\<lambda>m. m\<lparr>m_dlhandle := handle\<rparr>)) (\<lambda>_.
                    ret 0))))"

definition vde_modules_default_path :: "env \<Rightarrow> string list" where
  "vde_modules_default_path E = default_modules_path E"

definition is_so_path :: "string \<Rightarrow> bool" where
  "is_so_path path \<longleftrightarrow> 3 < length path \<and> drop (length path - 3) path = ''.so''"

text \<open>
  The files \<open>fts_read\<close> returns, in order: the contents of a directory follow it unless it was
  marked \<open>FTS_SKIP\<close>, which the loop does below the top level.
\<close>

fun fts_files :: "nat \<Rightarrow> fts_node list \<Rightarrow> string list" where
  "fts_files level [] = []"
| "fts_files level (FTS_F path # rest) = path # fts_files level rest"
| "fts_files level (FTS_D path contents # rest) =
     (if 0 < level then [] else fts_files (Suc level) contents) @ fts_files level rest"
| "fts_files level (FTS_ERR path e # rest) = fts_files level rest"
| "fts_files level (FTS_OTHER path # rest) = fts_files level rest"

definition load_file :: "env \<Rightarrow> ptr \<Rightarrow> string \<Rightarrow> unit prog" where
  "load_file E ctx path =
     (if is_so_path path
      then mbind (syscall E (Sys_access path)) (\<lambda>r.
             if retval r = 0 then mbind (module_try_load E ctx path) (\<lambda>_. ret ())
             else ret ())
      else ret ())"

definition vde_modules_load :: "env \<Rightarrow> ptr \<Rightarrow> string list option \<Rightarrow> int prog" where
  "vde_modules_load E ctx path =
     (let paths = (case path of None \<Rightarrow> vde_modules_default_path E | Some p \<Rightarrow> p)
      in case fts_open E paths of
           Inl e \<Rightarrow> fail_errno e
         | Inr tree \<Rightarrow>
             mbind (mapM (load_file E ctx) (fts_files 0 tree)) (\<lambda>_.
             if fts_close E paths \<noteq> 0 then fail_errno (fts_close E paths) else ret 0))"

section \<open>Registered modules\<close>

definition module_ok :: "vde_module \<Rightarrow> bool" where
  "module_ok m \<longleftrightarrow> kind_ops_ok m \<and> component_ops_ok m"

definition module_id :: "vde_module \<Rightarrow> vde_component_kind \<times> string" where
  "module_id m = (m_kind m, m_family m)"

text \<open>
  What registration maintains: every registered module is allocated and complete, and no two
  have the same kind and family.
\<close>

definition modules_ok :: "world \<Rightarrow> ptr list \<Rightarrow> bool" where
  "modules_ok w ms \<longleftrightarrow> NULL \<notin> set ms \<and>
     (\<forall>p\<in>set ms. \<exists>m. w_module w p = Some m \<and> module_ok m) \<and>
     distinct (map (\<lambda>p. module_id (the (w_module w p))) ms)"

definition modules_inv :: "env \<Rightarrow> ptr \<Rightarrow> world \<Rightarrow> bool" where
  "modules_inv E ctx w \<longleftrightarrow> quark_ok E \<and> ctx \<noteq> NULL \<and>
     (\<exists>x. w_ctx w ctx = Some x \<and> ctx_initialized x = 1 \<and> modules_ok w (modules x))"

text \<open>The module a lookup finds, on the identifiers of the registered modules.\<close>

definition find_module :: "world \<Rightarrow> vde_component_kind \<Rightarrow> string \<Rightarrow> ptr list \<Rightarrow> ptr" where
  "find_module w kind family ms =
     (case find (\<lambda>p. module_id (the (w_module w p)) = (kind, family)) ms of
        None \<Rightarrow> NULL | Some p \<Rightarrow> p)"

lemma lookup_module_loop_eval:
  assumes "quark_ok E" and "\<forall>p\<in>set ms. w_module w p \<noteq> None"
  shows "\<exists>ss. lookup_module_loop E kind (quark_id E family) ms (w\<lparr>interned := ss0\<rparr>) =
    Inr (find_module w kind family ms, w\<lparr>interned := ss\<rparr>) \<and> set ss0 \<subseteq> set ss"
  using assms
proof (induction ms arbitrary: ss0)
  case Nil
  then show ?case by (auto simp: find_module_def intro: exI [of _ ss0])
next
  case (Cons p ms)
  then obtain m where m: "w_module w p = Some m" by auto
  show ?case
  proof (cases "m_kind m = kind \<and> m_family m = family")
    case True
    with Cons.prems m show ?thesis
      by (auto simp: find_module_def module_id_def mon intro!: exI [of _ "List.insert family ss0"])
  next
    case False
    from Cons.IH [of "List.insert (m_family m) ss0"] Cons.prems obtain ss where
      "lookup_module_loop E kind (quark_id E family) ms (w\<lparr>interned := List.insert (m_family m) ss0\<rparr>) =
        Inr (find_module w kind family ms, w\<lparr>interned := ss\<rparr>)" "insert (m_family m) (set ss0) \<subseteq> set ss"
      by auto
    with False Cons.prems m show ?thesis
      by (auto simp: find_module_def module_id_def mon)
  qed
qed

lemma lookup_module_eval:
  assumes "quark_ok E" and "ctx \<noteq> NULL" and "w_ctx w ctx = Some x" and "ctx_initialized x = 1"
    and "\<forall>p\<in>set (modules x). w_module w p \<noteq> None"
  shows "\<exists>ss. vde_context_lookup_module E ctx kind (Some family) w =
    Inr (find_module w kind family (modules x), w\<lparr>interned := ss\<rparr>) \<and>
    insert family (set (interned w)) \<subseteq> set ss"
  using lookup_module_loop_eval [OF assms(1,5), of kind family "List.insert family (interned w)"] assms
  by (auto simp: vde_context_lookup_module_def mon)

lemma find_module_NULL:
  "NULL \<notin> set ms \<Longrightarrow> find_module w kind family ms = NULL \<longleftrightarrow>
    (kind, family) \<notin> set (map (\<lambda>p. module_id (the (w_module w p))) ms)"
  by (induction ms) (auto simp: find_module_def)

lemma find_module_Some:
  "find_module w kind family ms = p \<Longrightarrow> p \<noteq> NULL \<Longrightarrow>
    p \<in> set ms \<and> module_id (the (w_module w p)) = (kind, family)"
  by (auto simp: find_module_def find_Some_iff split: option.splits)

lemma register_module_eval:
  assumes "modules_inv E ctx w" and "w_ctx w ctx = Some x" and "w_module w module = Some m"
  shows "\<exists>ss. set (interned w) \<subseteq> set ss \<and>
    vde_context_register_module E ctx module w =
      (if module_id m \<in> set (map (\<lambda>p. module_id (the (w_module w p))) (modules x))
       then Inr (- 1, w\<lparr>interned := ss, errno := EEXIST\<rparr>)
       else if \<not> module_ok m then Inr (- 1, w\<lparr>interned := ss, errno := EINVAL\<rparr>)
       else Inr (0, w\<lparr>interned := ss,
              w_ctx := (w_ctx w)(ctx \<mapsto> x\<lparr>modules := module # modules x\<rparr>)\<rparr>))"
proof -
  have x: "quark_ok E" "ctx \<noteq> NULL" "ctx_initialized x = 1" "modules_ok w (modules x)"
    using assms(1,2) by (auto simp: modules_inv_def)
  then have "\<forall>p\<in>set (modules x). w_module w p \<noteq> None" by (force simp: modules_ok_def)
  from lookup_module_eval [OF x(1,2) assms(2) x(3) this, of "m_kind m" "m_family m"] obtain ss where
    ss: "vde_context_lookup_module E ctx (m_kind m) (Some (m_family m)) w =
      Inr (find_module w (m_kind m) (m_family m) (modules x), w\<lparr>interned := ss\<rparr>)"
      "insert (m_family m) (set (interned w)) \<subseteq> set ss"
    by blast
  have "find_module w (m_kind m) (m_family m) (modules x) = NULL \<longleftrightarrow>
      module_id m \<notin> set (map (\<lambda>p. module_id (the (w_module w p))) (modules x))"
    using x(4) by (simp add: find_module_NULL modules_ok_def module_id_def)
  with ss x assms show ?thesis
    by (intro exI [of _ ss])
      (auto simp: vde_context_register_module_def mon module_ok_def simp del: set_map)
qed

lemma modules_inv_frame:
  "modules_inv E ctx w \<Longrightarrow> w_ctx w' ctx = w_ctx w ctx \<Longrightarrow>
    (\<And>p m. w_module w p = Some m \<Longrightarrow> \<exists>h. w_module w' p = Some (m\<lparr>m_dlhandle := h\<rparr>)) \<Longrightarrow>
    modules_inv E ctx w'"
proof -
  assume inv: "modules_inv E ctx w" and ctx: "w_ctx w' ctx = w_ctx w ctx"
    and old: "\<And>p m. w_module w p = Some m \<Longrightarrow> \<exists>h. w_module w' p = Some (m\<lparr>m_dlhandle := h\<rparr>)"
  obtain x where x: "quark_ok E" "ctx \<noteq> NULL" "w_ctx w ctx = Some x" "ctx_initialized x = 1"
    "modules_ok w (modules x)"
    using inv by (auto simp: modules_inv_def)
  have same: "module_ok (m\<lparr>m_dlhandle := h\<rparr>) = module_ok m"
    "module_id (m\<lparr>m_dlhandle := h\<rparr>) = module_id m" for m h
    by (simp_all add: module_ok_def kind_ops_ok_def component_ops_ok_def module_id_def
        split: vde_component_kind.splits)
  have each: "\<exists>m. w_module w' p = Some m \<and> module_ok m \<and> module_id m = module_id (the (w_module w p))"
    if p: "p \<in> set (modules x)" for p
  proof -
    obtain m where m: "w_module w p = Some m" "module_ok m"
      using x(5) p by (auto simp: modules_ok_def)
    with old [OF m(1)] show ?thesis by (auto simp: same)
  qed
  have "map (\<lambda>p. module_id (the (w_module w' p))) (modules x) =
      map (\<lambda>p. module_id (the (w_module w p))) (modules x)"
    using each by (force intro: map_cong)
  then have "modules_ok w' (modules x)"
    using x(5) each by (force simp: modules_ok_def simp del: map_eq_conv)
  with x ctx show ?thesis by (auto simp: modules_inv_def)
qed

lemma register_module_cases:
  assumes "modules_inv E ctx w" and "w_ctx w ctx = Some x" and "module \<noteq> NULL"
    and "w_module w module = Some m"
  shows "\<exists>r w'. vde_context_register_module E ctx module w = Inr (r, w') \<and> modules_inv E ctx w' \<and>
    (if module_id m \<in> (\<lambda>p. module_id (the (w_module w p))) ` set (modules x)
     then r = - 1 \<and> errno w' = EEXIST \<and> w_ctx w' = w_ctx w
     else if module_ok m
     then r = 0 \<and> w_ctx w' = (w_ctx w)(ctx \<mapsto> x\<lparr>modules := module # modules x\<rparr>)
     else r = - 1 \<and> errno w' = EINVAL \<and> w_ctx w' = w_ctx w)"
proof -
  have x: "quark_ok E" "ctx \<noteq> NULL" "ctx_initialized x = 1" "modules_ok w (modules x)"
    using assms(1,2) by (auto simp: modules_inv_def)
  obtain ss where run: "vde_context_register_module E ctx module w =
      (if module_id m \<in> set (map (\<lambda>p. module_id (the (w_module w p))) (modules x))
       then Inr (- 1, w\<lparr>interned := ss, errno := EEXIST\<rparr>)
       else if \<not> module_ok m then Inr (- 1, w\<lparr>interned := ss, errno := EINVAL\<rparr>)
       else Inr (0, w\<lparr>interned := ss,
              w_ctx := (w_ctx w)(ctx \<mapsto> x\<lparr>modules := module # modules x\<rparr>)\<rparr>))"
    using register_module_eval [OF assms(1,2,4)] by blast
  have keep: "modules_inv E ctx (w\<lparr>interned := ss, errno := e\<rparr>)" for e
    using x assms(2) by (auto simp: modules_inv_def modules_ok_def)
  have new: "modules_inv E ctx (w\<lparr>interned := ss,
      w_ctx := (w_ctx w)(ctx \<mapsto> x\<lparr>modules := module # modules x\<rparr>)\<rparr>)"
    if "module_ok m" "module_id m \<notin> (\<lambda>p. module_id (the (w_module w p))) ` set (modules x)"
    using that x assms(2-4) by (auto simp: modules_inv_def modules_ok_def)
  show ?thesis using run keep new by auto
qed

section \<open>Properties\<close>


definition example_module :: vde_module where
  "example_module = \<lparr>m_kind = VDE_ENGINE, m_family = ''hub'',
     m_cops = Some \<lparr>ops_init = Some Engine_hub_init, ops_fini = Some Engine_hub_fini\<rparr>,
     m_cm_connect = None, m_cm_listen = None, m_eng_new_conn = Some Hub_engine_newconn,
     m_tr_connect = None, m_tr_listen = None, m_dlhandle = NULL\<rparr>"

definition example_context :: vde_context where
  "example_context = \<lparr>ctx_initialized = 1,
     event_handler = \<lparr>eh_event_add = Some 1, eh_event_del = Some 2, eh_timeout_add = Some 3,
       eh_timeout_del = Some 4\<rparr>,
     components = Some \<lparr>oh_hash = [], oh_list = []\<rparr>, modules = [5]\<rparr>"

definition example_ctx_world :: world where
  "example_ctx_world = empty_world\<lparr>brk := 10, w_ctx := [3 \<mapsto> example_context],
     w_module := [5 \<mapsto> example_module, 6 \<mapsto> example_module\<lparr>m_family := ''ctrl'', m_eng_new_conn := None\<rparr>]\<rparr>"

lemma example_modules_inv: "modules_inv base_env 3 example_ctx_world"
  by (simp add: modules_inv_def quark_ok_num example_ctx_world_def example_context_def modules_ok_def
      module_ok_def kind_ops_ok_def component_ops_ok_def example_module_def)


text \<open>A file that cannot be loaded or registered changes nothing but \<open>errno\<close> and the like.\<close>

definition loadable :: "env \<Rightarrow> string list \<Rightarrow> ptr set" where
  "loadable E files = {p. \<exists>path\<in>set files. \<exists>m. is_so_path path \<and> dl_open E path \<noteq> NULL \<and>
     dl_sym E (dl_open E path) = Some (p, m)}"

definition grown_by :: "env \<Rightarrow> ptr \<Rightarrow> ptr list \<Rightarrow> ptr set \<Rightarrow> world \<Rightarrow> bool" where
  "grown_by E ctx ms A w \<longleftrightarrow> modules_inv E ctx w \<and>
     (\<exists>x new. w_ctx w ctx = Some x \<and> modules x = new @ ms \<and> set new \<subseteq> A)"

lemma dlhandle_self: "\<exists>h. m = m\<lparr>m_dlhandle := h\<rparr>"
  by (rule exI [of _ "m_dlhandle m"]) simp

lemma modules_inv_extend:
  "modules_inv E ctx w \<Longrightarrow> w_ctx w' ctx = w_ctx w ctx \<Longrightarrow>
    (\<And>p m. w_module w p = Some m \<Longrightarrow> w_module w' p = Some m) \<Longrightarrow> modules_inv E ctx w'"
  by (erule modules_inv_frame) (auto intro: dlhandle_self)

lemma grown_by_extend:
  "grown_by E ctx ms A w \<Longrightarrow> w_ctx w' ctx = w_ctx w ctx \<Longrightarrow>
    (\<And>p m. w_module w p = Some m \<Longrightarrow> w_module w' p = Some m) \<Longrightarrow> grown_by E ctx ms A w'"
  by (auto simp: grown_by_def intro: modules_inv_extend)

lemma grown_by_dlhandle:
  assumes "grown_by E ctx ms A w" and "w_module w p = Some m"
  shows "grown_by E ctx ms A (w\<lparr>w_module := (w_module w)(p \<mapsto> m\<lparr>m_dlhandle := h\<rparr>)\<rparr>)"
proof -
  have "modules_inv E ctx (w\<lparr>w_module := (w_module w)(p \<mapsto> m\<lparr>m_dlhandle := h\<rparr>)\<rparr>)"
    by (rule modules_inv_frame [of E ctx w])
      (use assms in \<open>auto simp: grown_by_def intro: dlhandle_self\<close>)
  with assms(1) show ?thesis by (auto simp: grown_by_def)
qed

lemma register_module_grows:
  assumes "grown_by E ctx ms A w" and "p \<in> A" and "p \<noteq> NULL" and "w_module w p = Some m"
  shows "\<exists>r w'. vde_context_register_module E ctx p w = Inr (r, w') \<and> grown_by E ctx ms A w' \<and>
    w_module w' = w_module w"
proof -
  obtain x new where inv: "modules_inv E ctx w" and x: "w_ctx w ctx = Some x"
    "modules x = new @ ms" "set new \<subseteq> A"
    using assms(1) by (auto simp: grown_by_def)
  obtain r w' where run: "vde_context_register_module E ctx p w = Inr (r, w')" "modules_inv E ctx w'"
    "w_ctx w' = w_ctx w \<or> w_ctx w' = (w_ctx w)(ctx \<mapsto> x\<lparr>modules := p # modules x\<rparr>)"
    using register_module_cases [OF inv x(1) assms(3,4)] by metis
  moreover have "w_module w' = w_module w"
    using register_module_eval [OF inv x(1) assms(4)] run(1) by (auto split: if_splits)
  moreover have "grown_by E ctx ms A w'"
    using run(2,3) x assms(2) by (auto simp: grown_by_def intro: exI [of _ "p # new"])
  ultimately show ?thesis by blast
qed

lemma module_try_load_grows:
  assumes "grown_by E ctx ms A w"
    and "\<And>p m. dl_open E path \<noteq> NULL \<Longrightarrow> dl_sym E (dl_open E path) = Some (p, m) \<Longrightarrow> p \<in> A"
  shows "\<exists>r w'. module_try_load E ctx path w = Inr (r, w') \<and> grown_by E ctx ms A w'"
proof (cases "dl_open E path \<noteq> NULL \<and> (\<exists>p m. dl_sym E (dl_open E path) = Some (p, m) \<and> p \<noteq> NULL)")
  case False
  have "grown_by E ctx ms A (w\<lparr>errno := e\<rparr>)" for e
    by (rule grown_by_extend [OF assms(1)]) simp_all
  with False show ?thesis
    by (cases "dl_sym E (dl_open E path)") (auto simp: module_try_load_def Let_def)
next
  case True
  then obtain p c where p: "dl_open E path \<noteq> NULL" "dl_sym E (dl_open E path) = Some (p, c)" "p \<noteq> NULL"
    by auto
  define w1 where "w1 = (if w_module w p = None then w\<lparr>w_module := (w_module w)(p \<mapsto> c)\<rparr> else w)"
  have g1: "grown_by E ctx ms A w1"
    by (rule grown_by_extend [OF assms(1)]) (auto simp: w1_def)
  obtain m where m: "w_module w1 p = Some m" by (cases "w_module w p") (simp_all add: w1_def)
  from register_module_grows [OF g1 assms(2) [OF p(1,2)] p(3) m] obtain r w2 where
    r: "vde_context_register_module E ctx p w1 = Inr (r, w2)" "grown_by E ctx ms A w2"
      "w_module w2 = w_module w1"
    by blast
  have "module_try_load E ctx path w =
      (if r \<noteq> 0 then Inr (- 1, w2)
       else Inr (0, w2\<lparr>w_module := (w_module w2)(p \<mapsto> m\<lparr>m_dlhandle := dl_open E path\<rparr>)\<rparr>))"
    using p r m by (simp add: module_try_load_def Let_def mon w1_def [symmetric])
  moreover have "grown_by E ctx ms A
      (w2\<lparr>w_module := (w_module w2)(p \<mapsto> m\<lparr>m_dlhandle := dl_open E path\<rparr>)\<rparr>)"
    using r m by (intro grown_by_dlhandle) simp_all
  ultimately show ?thesis using r(2) by (cases "r = 0") auto
qed

lemma load_file_grows:
  assumes "grown_by E ctx ms (loadable E files) w" and "path \<in> set files"
  shows "\<exists>w'. load_file E ctx path w = Inr ((), w') \<and> grown_by E ctx ms (loadable E files) w'"
proof (cases "is_so_path path")
  case False
  with assms show ?thesis by (simp add: load_file_def)
next
  case True
  let ?w1 = "snd (projr (syscall E (Sys_access path) w))"
  have g1: "grown_by E ctx ms (loadable E files) ?w1"
    by (rule grown_by_extend [OF assms(1)]) (simp_all add: syscall_apply)
  have in_A: "p \<in> loadable E files"
    if "dl_open E path \<noteq> NULL" "dl_sym E (dl_open E path) = Some (p, m)" for p m
    using that True assms(2) by (auto simp: loadable_def)
  obtain r w' where "module_try_load E ctx path ?w1 = Inr (r, w')" "grown_by E ctx ms (loadable E files) w'"
    using module_try_load_grows [OF g1, of path] in_A by blast
  with True g1 show ?thesis by (auto simp: load_file_def syscall_apply mon)
qed


text \<open>A directory with one good module, a file of another type and a nested directory.\<close>

definition example_load_env :: env where
  "example_load_env = base_env\<lparr>
     fts_open := (\<lambda>_. Inr [FTS_D ''lib'' [FTS_F ''lib/ctrl.so'', FTS_F ''lib/notes.txt'',
       FTS_D ''lib/old'' [FTS_F ''lib/old/ctrl.so'']]]),
     dl_open := (\<lambda>path. if path = ''lib/ctrl.so'' then 40 else NULL),
     dl_sym := (\<lambda>h. Some (7, example_module\<lparr>m_family := ''ctrl'', m_eng_new_conn := Some Ctrl_engine_newconn\<rparr>))\<rparr>"


end
