(* ===== verification/Context.thy ===== *)
theory Context
  imports Modules
begin

text \<open>
  Contexts, \<^verbatim>\<open>src/context.c\<close> and the inline functions of \<^verbatim>\<open>src/include/vde3/context.h\<close>: life
  cycle, creation and deletion of components, and the application's event handler. The
  components of a context are an ordered hash from quarks of names to components; the
  context owns it, so it is part of the context's record (\<open>None\<close> for the \<open>NULL\<close> pointer).
\<close>

section \<open>Operations\<close>

definition no_handler :: vde_event_handler where
  "no_handler = \<lparr>eh_event_add = None, eh_event_del = None, eh_timeout_add = None,
     eh_timeout_del = None\<rparr>"

definition zero_context :: vde_context where
  "zero_context = \<lparr>ctx_initialized = 0, event_handler = no_handler, components = None, modules = []\<rparr>"

text \<open>\<open>ref\<close> tells whether the caller's reference argument is not \<open>NULL\<close>.\<close>

definition vde_context_new :: "env \<Rightarrow> bool \<Rightarrow> (int \<times> ptr) prog" where
  "vde_context_new E ref =
     (if \<not> ref then mbind (set_errno EINVAL) (\<lambda>_. ret (- 1, NULL))
      else mbind (alloc w_ctx_update E zero_context) (\<lambda>ctx.
        if ctx = NULL then mbind (set_errno ENOMEM) (\<lambda>_. ret (- 1, NULL))
        else ret (0, ctx)))"

definition vde_context_init ::
  "env \<Rightarrow> ptr \<Rightarrow> vde_event_handler option \<Rightarrow> string list option \<Rightarrow> int prog" where
  "vde_context_init E ctx handler modules_path =
     (case handler of
        None \<Rightarrow> fail_errno EINVAL
      | Some h \<Rightarrow>
          if ctx = NULL then fail_errno EINVAL
          else if eh_event_add h = None \<or> eh_event_del h = None \<or>
                  eh_timeout_add h = None \<or> eh_timeout_del h = None
          then fail_errno EINVAL
          else
            mbind (malloc_fails E) (\<lambda>nomem.
            mbind (if nomem then set_errno ENOMEM else ret ()) (\<lambda>_.
            mbind (upd_ctx ctx (\<lambda>x. x\<lparr>event_handler := h, modules := [],
              components := vde_ordhash_new nomem, ctx_initialized := 1\<rparr>)) (\<lambda>_.
            mbind (vde_modules_load E ctx modules_path) (\<lambda>r.
            if r \<noteq> 0 then ret (- 1) else ret 0)))))"

text \<open>Access to the table of components; the operations of the ordered hash assert it is there.\<close>

definition ctx_components :: "env \<Rightarrow> ptr \<Rightarrow> vde_ordhash prog" where
  "ctx_components E ctx =
     mbind (deref w_ctx ctx) (\<lambda>x.
     mbind (vde_assert E (components x \<noteq> None)) (\<lambda>_.
     case components x of None \<Rightarrow> mfail Null_Deref | Some oh \<Rightarrow> ret oh))"

definition ctx_keys :: "env \<Rightarrow> ptr \<Rightarrow> nat list prog" where
  "ctx_keys E ctx = mbind (ctx_components E ctx) (\<lambda>oh. ret (oh_list oh))"

text \<open>
  The loops of \<open>vde_context_fini\<close> over the components: the iterator is a node of the table's
  list, the component is looked up through it.
\<close>

definition for_components :: "env \<Rightarrow> ptr \<Rightarrow> (ptr \<Rightarrow> unit prog) \<Rightarrow> unit prog" where
  "for_components E ctx body =
     mbind (ctx_keys E ctx) (\<lambda>ks.
     foreach (ctx_keys E ctx)
       (\<lambda>k. mbind (ctx_components E ctx) (\<lambda>oh.
            mbind (lift (vde_ordhash_entry_lookup (vde3_debug E) oh ([], k, []))) body))
       ks)"

definition vde_context_fini :: "env \<Rightarrow> ptr \<Rightarrow> unit prog" where
  "vde_context_fini E ctx =
     (if ctx = NULL then ret ()
      else mbind (deref w_ctx ctx) (\<lambda>x.
        if ctx_initialized x \<noteq> 1 then ret ()
        else
          mbind (upd_ctx ctx (\<lambda>x. x\<lparr>event_handler := no_handler\<rparr>)) (\<lambda>_.
          mbind (for_components E ctx (\<lambda>component.
            mbind (vde_component_get_kind E component) (\<lambda>kind.
            if kind = VDE_CONNECTION_MANAGER then vde_component_fini E component else ret ()))) (\<lambda>_.
          mbind (for_components E ctx (\<lambda>component.
            mbind (vde_component_get_kind E component) (\<lambda>kind.
            if kind \<noteq> VDE_CONNECTION_MANAGER then vde_component_fini E component else ret ()))) (\<lambda>_.
          mbind (for_components E ctx (\<lambda>component. vde_component_delete E component)) (\<lambda>_.
          mbind (ctx_components E ctx) (\<lambda>oh.
          mbind (lift (vde_ordhash_remove_all (vde3_debug E) oh)) (\<lambda>oh'.
          mbind (lift (vde_ordhash_delete (vde3_debug E) oh')) (\<lambda>_.
          upd_ctx ctx (\<lambda>x. x\<lparr>components := Some oh', modules := [], ctx_initialized := 0\<rparr>))))))))))"

definition vde_context_delete :: "env \<Rightarrow> ptr \<Rightarrow> unit prog" where
  "vde_context_delete E ctx =
     (if ctx = NULL then ret ()
      else mbind (deref w_ctx ctx) (\<lambda>x.
        if ctx_initialized x \<noteq> 0 then ret ()
        else dealloc w_ctx w_ctx_update ctx))"

definition vde_context_get_component_by_qname :: "env \<Rightarrow> ptr \<Rightarrow> nat \<Rightarrow> ptr prog" where
  "vde_context_get_component_by_qname E ctx q =
     mbind (vde_assert E (ctx \<noteq> NULL)) (\<lambda>_.
     mbind (ctx_components E ctx) (\<lambda>oh. ret (vde_ordhash_lookup oh q)))"

definition vde_context_get_component :: "env \<Rightarrow> ptr \<Rightarrow> string option \<Rightarrow> ptr prog" where
  "vde_context_get_component E ctx name =
     (if ctx = NULL then mbind (set_errno EINVAL) (\<lambda>_. ret NULL)
      else mbind (deref w_ctx ctx) (\<lambda>x.
        if ctx_initialized x \<noteq> 1 then mbind (set_errno EINVAL) (\<lambda>_. ret NULL)
        else mbind (vde_quark_try_string E name) (\<lambda>q.
             vde_context_get_component_by_qname E ctx q)))"

text \<open>
  The result and what the code stores through \<open>component\<close>: nothing before the allocation.
  After a failed initialization the caller's pointer is left dangling.
\<close>

definition vde_context_new_component ::
  "env \<Rightarrow> ptr \<Rightarrow> vde_component_kind \<Rightarrow> string option \<Rightarrow> string option \<Rightarrow> vde_sobj \<Rightarrow>
   (int \<times> ptr option) prog" where
  "vde_context_new_component E ctx kind family name params =
     (let err = (\<lambda>e. mbind (set_errno e) (\<lambda>_. ret (- 1, None)))
      in if ctx = NULL then err EINVAL
         else mbind (deref w_ctx ctx) (\<lambda>x.
           if ctx_initialized x \<noteq> 1 then err EINVAL
           else
             mbind (vde_context_get_component E ctx name) (\<lambda>present.
             if present \<noteq> NULL then err EEXIST
             else mbind (vde_context_lookup_module E ctx kind family) (\<lambda>module.
             if module = NULL then err ENOENT
             else mbind (vde_component_new E) (\<lambda>(rv, component).
             if rv \<noteq> 0 then ret (- 1, Some component)
             else mbind (vde_quark_from_string E name) (\<lambda>q.
             mbind (vde_component_init E component q module ctx params) (\<lambda>rv.
             if rv \<noteq> 0 then mbind (vde_component_delete E component) (\<lambda>_. ret (- 1, Some component))
             else
               mbind (ctx_components E ctx) (\<lambda>oh.
               mbind (lift (vde_ordhash_insert (vde3_debug E) oh q component)) (\<lambda>oh'.
               mbind (upd_ctx ctx (\<lambda>x. x\<lparr>components := Some oh'\<rparr>)) (\<lambda>_.
               mbind (vde_component_get E component) (\<lambda>_.
               ret (0, Some component))))))))))))"

definition vde_context_component_del :: "env \<Rightarrow> ptr \<Rightarrow> ptr \<Rightarrow> int prog" where
  "vde_context_component_del E ctx component =
     (if ctx = NULL then fail_errno EINVAL
      else mbind (deref w_ctx ctx) (\<lambda>x.
        if ctx_initialized x \<noteq> 1 then fail_errno EINVAL
        else if component = NULL then fail_errno EINVAL
        else
          mbind (vde_component_get_qname E component) (\<lambda>q.
          mbind (vde_context_get_component_by_qname E ctx q) (\<lambda>present.
          if present = NULL then fail_errno ENOENT
          else mbind (vde_component_put_if_last E component) (\<lambda>(in_use, _).
          if in_use \<noteq> 0 then fail_errno EBUSY
          else
            mbind (ctx_components E ctx) (\<lambda>oh.
            mbind (lift (vde_ordhash_remove (vde3_debug E) oh q)) (\<lambda>(_, oh').
            mbind (upd_ctx ctx (\<lambda>x. x\<lparr>components := Some oh'\<rparr>)) (\<lambda>_.
            mbind (vde_component_fini E component) (\<lambda>_.
            mbind (vde_component_delete E component) (\<lambda>_.
            ret 0))))))))))"

definition vde_context_event_add ::
  "env \<Rightarrow> ptr \<Rightarrow> int \<Rightarrow> nat \<Rightarrow> timeval option \<Rightarrow> event_cb \<Rightarrow> ptr \<Rightarrow> ptr prog" where
  "vde_context_event_add E ctx fd events timeout cb arg =
     mbind (vde_assert E (ctx \<noteq> NULL)) (\<lambda>_.
     mbind (deref w_ctx ctx) (\<lambda>x.
     mbind (vde_assert E (ctx_initialized x = 1)) (\<lambda>_.
     call_ptr (eh_event_add (event_handler x)) (\<lambda>f. call_event_add E f fd events timeout cb arg))))"

definition vde_context_event_del :: "env \<Rightarrow> ptr \<Rightarrow> ptr \<Rightarrow> unit prog" where
  "vde_context_event_del E ctx event =
     mbind (vde_assert E (ctx \<noteq> NULL)) (\<lambda>_.
     mbind (deref w_ctx ctx) (\<lambda>x.
     mbind (vde_assert E (ctx_initialized x = 1)) (\<lambda>_.
     mbind (vde_assert E (event \<noteq> NULL)) (\<lambda>_.
     call_ptr (eh_event_del (event_handler x)) (\<lambda>f. call_event_del E f event)))))"

definition vde_context_timeout_add ::
  "env \<Rightarrow> ptr \<Rightarrow> nat \<Rightarrow> timeval \<Rightarrow> event_cb \<Rightarrow> ptr \<Rightarrow> ptr prog" where
  "vde_context_timeout_add E ctx events timeout cb arg =
     mbind (vde_assert E (ctx \<noteq> NULL)) (\<lambda>_.
     mbind (deref w_ctx ctx) (\<lambda>x.
     mbind (vde_assert E (ctx_initialized x = 1)) (\<lambda>_.
     call_ptr (eh_timeout_add (event_handler x)) (\<lambda>f. call_timeout_add E f timeout events cb arg))))"

definition vde_context_timeout_del :: "env \<Rightarrow> ptr \<Rightarrow> ptr \<Rightarrow> unit prog" where
  "vde_context_timeout_del E ctx timeout =
     mbind (vde_assert E (ctx \<noteq> NULL)) (\<lambda>_.
     mbind (deref w_ctx ctx) (\<lambda>x.
     mbind (vde_assert E (ctx_initialized x = 1)) (\<lambda>_.
     mbind (vde_assert E (timeout \<noteq> NULL)) (\<lambda>_.
     call_ptr (eh_timeout_del (event_handler x)) (\<lambda>f. call_timeout_del E f timeout)))))"

section \<open>Invariant\<close>

text \<open>
  An initialized context: its table is consistent, its keys are quarks of interned names, and
  every entry is an allocated, initialized component that bears the entry's name.
\<close>

definition entry_ok :: "world \<Rightarrow> nat \<times> ptr \<Rightarrow> bool" where
  "entry_ok w e \<longleftrightarrow> snd e \<noteq> NULL \<and>
     (\<exists>c. w_comp w (snd e) = Some c \<and> qname c = fst e \<and> initialized c)"

definition ctx_inv :: "env \<Rightarrow> ptr \<Rightarrow> world \<Rightarrow> bool" where
  "ctx_inv E ctx w \<longleftrightarrow> quark_ok E \<and> ctx \<noteq> NULL \<and>
     (\<exists>x oh. w_ctx w ctx = Some x \<and> ctx_initialized x = 1 \<and> components x = Some oh \<and> oh_inv oh \<and>
        keys_interned E w (oh_ents oh) \<and> (\<forall>e\<in>set (oh_ents oh). entry_ok w e))"

text \<open>The components of a context by name, oldest first.\<close>

definition ctx_ents :: "ptr \<Rightarrow> world \<Rightarrow> (nat \<times> ptr) list" where
  "ctx_ents ctx w = (case w_ctx w ctx of
       None \<Rightarrow> []
     | Some x \<Rightarrow> (case components x of None \<Rightarrow> [] | Some oh \<Rightarrow> oh_ents oh))"

lemma ctx_invE:
  assumes "ctx_inv E ctx w"
  obtains x oh where "quark_ok E" "ctx \<noteq> NULL" "w_ctx w ctx = Some x" "ctx_initialized x = 1"
    "components x = Some oh" "oh_inv oh" "keys_interned E w (oh_ents oh)"
    "\<And>e. e \<in> set (oh_ents oh) \<Longrightarrow> entry_ok w e" "ctx_ents ctx w = oh_ents oh"
  using assms by (auto simp: ctx_inv_def ctx_ents_def)

lemma ctx_components_apply [mon]:
  "w_ctx w ctx = Some x \<Longrightarrow> components x = Some oh \<Longrightarrow> ctx_components E ctx w = Inr (oh, w)"
  by (simp add: ctx_components_def mon)

lemma get_component_eval:
  assumes "ctx_inv E ctx w"
  shows "vde_context_get_component E ctx (Some s) w = Inr (hget (ctx_ents ctx w) (quark_id E s), w)"
proof -
  from assms obtain x oh where x: "quark_ok E" "ctx \<noteq> NULL" "w_ctx w ctx = Some x"
    "ctx_initialized x = 1" "components x = Some oh" "oh_inv oh" "keys_interned E w (oh_ents oh)"
    and ents: "ctx_ents ctx w = oh_ents oh"
    by (rule ctx_invE) (rule that)
  then show ?thesis
    by (simp add: vde_context_get_component_def vde_context_get_component_by_qname_def mon
        oh.look_ents hget_quark_of)
qed

section \<open>What a component's own operations promise\<close>

text \<open>
  The fields of a component that its module's \<open>init\<close> and \<open>fini\<close> and other components leave
  alone, and the contract of \<open>fini\<close>: it returns, empties the component's tables (what
  \<open>vde_component_fini\<close> asserts afterwards) and touches no context.
\<close>

type_synonym kind_ops =
  "cm_listen option \<times> cm_connect option \<times> tr_listen option \<times> tr_connect option \<times> eng_new_conn option"

definition core :: "vde_component \<Rightarrow> nat \<times> vde_component_kind \<times> bool \<times> component_ops option \<times> kind_ops" where
  "core c = (qname c, comp_kind c, initialized c, comp_cops c,
     (c_cm_listen c, c_cm_connect c, c_tr_listen c, c_tr_connect c, c_eng_new_conn c))"

definition same_core :: "world \<Rightarrow> world \<Rightarrow> ptr \<Rightarrow> bool" where
  "same_core w w' p \<longleftrightarrow> map_option core (w_comp w' p) = map_option core (w_comp w p)"

definition clean_fini :: "env \<Rightarrow> cops_fini \<Rightarrow> ptr \<Rightarrow> bool" where
  "clean_fini E f component \<longleftrightarrow> (\<forall>w c. w_comp w component = Some c \<longrightarrow>
     (\<exists>w' c'. call_fini E f component w = Inr ((), w') \<and> w_ctx w' = w_ctx w \<and>
        set (interned w) \<subseteq> set (interned w') \<and> (\<forall>p. same_core w w' p) \<and>
        w_comp w' component = Some c' \<and> commands c' = [] \<and> signals c' = []))"

definition has_clean_fini :: "env \<Rightarrow> ptr \<Rightarrow> vde_component \<Rightarrow> bool" where
  "has_clean_fini E component c \<longleftrightarrow>
     (\<exists>ops f. comp_cops c = Some ops \<and> ops_fini ops = Some f \<and> clean_fini E f component)"

lemma same_core_comp:
  "same_core w w' p \<Longrightarrow> w_comp w p = Some c \<Longrightarrow> \<exists>c'. w_comp w' p = Some c' \<and> core c' = core c"
  by (auto simp: same_core_def)

lemma entry_ok_same_core: "same_core w w' (snd e) \<Longrightarrow> entry_ok w e \<Longrightarrow> entry_ok w' e"
  by (auto simp: entry_ok_def core_def dest!: same_core_comp)

lemma component_fini_clean:
  assumes "component \<noteq> NULL" and "w_comp w component = Some c" and "initialized c"
    and "has_clean_fini E component c"
  shows "\<exists>w' c'. vde_component_fini E component w = Inr ((), w') \<and> w_ctx w' = w_ctx w \<and>
    set (interned w) \<subseteq> set (interned w') \<and> (\<forall>p. p \<noteq> component \<longrightarrow> same_core w w' p) \<and>
    w_comp w' component = Some c' \<and> core c' = core (c\<lparr>initialized := False\<rparr>)"
proof -
  obtain ops f where f: "comp_cops c = Some ops" "ops_fini ops = Some f" "clean_fini E f component"
    using assms(4) by (auto simp: has_clean_fini_def)
  then obtain w1 c1 where w1: "call_fini E f component w = Inr ((), w1)" "w_ctx w1 = w_ctx w"
    "set (interned w) \<subseteq> set (interned w1)" "\<forall>p. same_core w w1 p" "w_comp w1 component = Some c1"
    "commands c1 = []" "signals c1 = []"
    using assms(2) unfolding clean_fini_def by blast
  let ?w' = "w1\<lparr>w_comp := (w_comp w1)(component \<mapsto> c1\<lparr>initialized := False\<rparr>)\<rparr>"
  have "vde_component_fini E component w = Inr ((), ?w')"
    using assms f w1 by (simp add: vde_component_fini_def mon)
  moreover have "core (c1\<lparr>initialized := False\<rparr>) = core (c\<lparr>initialized := False\<rparr>)"
    using w1(4,5) assms(2) by (auto simp: same_core_def core_def dest: spec [of _ component])
  ultimately show ?thesis using w1 by (auto simp: same_core_def)
qed

section \<open>Deleting a component\<close>

lemma ents_lookup:
  assumes "ctx_inv E ctx w"
  shows "(q, p) \<in> set (ctx_ents ctx w) \<Longrightarrow> hget (ctx_ents ctx w) q = p \<and> p \<noteq> NULL"
proof -
  from assms obtain x oh where "oh_inv oh" and ents: "ctx_ents ctx w = oh_ents oh"
    by (rule ctx_invE) (rule that)
  assume "(q, p) \<in> set (ctx_ents ctx w)"
  then show ?thesis using oh.look_iff [OF \<open>oh_inv oh\<close>, of q p] oh.look_ents [OF \<open>oh_inv oh\<close>] ents by simp
qed

lemma component_del_busy_eval:
  assumes "ctx_inv E ctx w" and "(q, component) \<in> set (ctx_ents ctx w)"
    and "w_comp w component = Some c" and "refcount c \<noteq> 1"
  shows "vde_context_component_del E ctx component w = Inr (- 1, w\<lparr>errno := EBUSY\<rparr>)"
proof -
  from assms(1) obtain x oh where x: "quark_ok E" "ctx \<noteq> NULL" "w_ctx w ctx = Some x"
    "ctx_initialized x = 1" "components x = Some oh" "oh_inv oh" "keys_interned E w (oh_ents oh)"
    and ok: "\<And>e. e \<in> set (oh_ents oh) \<Longrightarrow> entry_ok w e" and ents: "ctx_ents ctx w = oh_ents oh"
    by (rule ctx_invE) (rule that)
  have "qname c = q" using ok [of "(q, component)"] assms(2,3) ents by (simp add: entry_ok_def)
  moreover have "vde_ordhash_lookup oh q = component" "component \<noteq> NULL"
    using ents_lookup [OF assms(1,2)] x(6) ents by (simp_all add: oh.look_ents)
  ultimately show ?thesis
    using x assms(3,4)
    by (simp add: vde_context_component_del_def vde_context_get_component_by_qname_def mon)
qed

lemma component_del_last_eval:
  assumes "ctx_inv E ctx w" and "(q, component) \<in> set (ctx_ents ctx w)"
    and "w_comp w component = Some c" and "refcount c = 1" and "has_clean_fini E component c"
  shows "\<exists>w'. vde_context_component_del E ctx component w = Inr (0, w') \<and> ctx_inv E ctx w' \<and>
    ctx_ents ctx w' = AList.delete q (ctx_ents ctx w) \<and> w_comp w' component = None \<and>
    (\<forall>p. p \<noteq> component \<longrightarrow> same_core w w' p)"
proof -
  from assms(1) obtain x oh where x: "quark_ok E" "ctx \<noteq> NULL" "w_ctx w ctx = Some x"
    "ctx_initialized x = 1" "components x = Some oh" "oh_inv oh" "keys_interned E w (oh_ents oh)"
    and ok: "\<And>e. e \<in> set (oh_ents oh) \<Longrightarrow> entry_ok w e" and ents: "ctx_ents ctx w = oh_ents oh"
    by (rule ctx_invE) (rule that)
  have c: "qname c = q" "initialized c" "component \<noteq> NULL"
    using ok [of "(q, component)"] assms(2,3) ents by (auto simp: entry_ok_def)
  have look: "vde_ordhash_lookup oh q = component"
    using ents_lookup [OF assms(1,2)] x(6) ents by (simp add: oh.look_ents)
  obtain oh' where oh': "vde_ordhash_remove (vde3_debug E) oh q = Inr (1, oh')" "oh_inv oh'"
    "oh_ents oh' = AList.delete q (oh_ents oh)"
    using oh.rem_ok [OF x(6)] look c(3) by blast
  let ?w1 = "w\<lparr>w_comp := (w_comp w)(component \<mapsto> c\<lparr>refcount := 0\<rparr>),
    w_ctx := (w_ctx w)(ctx \<mapsto> x\<lparr>components := Some oh'\<rparr>)\<rparr>"
  have cf: "has_clean_fini E component (c\<lparr>refcount := 0\<rparr>)"
    using assms(5) by (simp add: has_clean_fini_def)
  obtain w2 c2 where w2: "vde_component_fini E component ?w1 = Inr ((), w2)" "w_ctx w2 = w_ctx ?w1"
    "set (interned ?w1) \<subseteq> set (interned w2)" "\<forall>p. p \<noteq> component \<longrightarrow> same_core ?w1 w2 p"
    "w_comp w2 component = Some c2" "core c2 = core (c\<lparr>refcount := 0, initialized := False\<rparr>)"
    using component_fini_clean [OF c(3), of ?w1, OF _ _ cf] c by auto
  let ?w' = "w2\<lparr>w_comp := (w_comp w2)(component := None)\<rparr>"
  have others: "same_core w ?w' p" if "p \<noteq> component" for p
    using w2(4) that by (simp add: same_core_def)
  have run: "vde_context_component_del E ctx component w = Inr (0, ?w')"
    using x assms(3,4) c look oh' w2
    by (simp add: vde_context_component_del_def vde_context_get_component_by_qname_def
        vde_component_delete_def mon core_def)
  have "entry_ok ?w' e" if e: "e \<in> set (oh_ents oh')" for e
  proof -
    have old: "e \<in> set (oh_ents oh)" "fst e \<noteq> q" using e by (auto simp: oh'(3) set_delete)
    with ok [of e] assms(3) c(1) have "snd e \<noteq> component" by (auto simp: entry_ok_def)
    with ok [OF old(1)] others show ?thesis by (blast intro: entry_ok_same_core)
  qed
  moreover have "keys_interned E ?w' (oh_ents oh')"
    using x(7) w2(3) by (simp add: oh'(3) keys_interned_delete)
  ultimately have "ctx_inv E ctx ?w'"
    using x oh'(2) w2(2) by (auto simp: ctx_inv_def)
  with run others show ?thesis
    using w2(2) oh'(3) ents by (auto simp: ctx_ents_def)
qed

section \<open>Creating a component\<close>

text \<open>
  What a module's \<open>init\<close> does on a new component that it accepts, with \<open>Q\<close> for what else is known
  of the state it ends in, and the contract that this is so in every state.
\<close>

definition init_runs :: "env \<Rightarrow> cops_init \<Rightarrow> vde_sobj \<Rightarrow> ptr \<Rightarrow> (world \<Rightarrow> bool) \<Rightarrow> world \<Rightarrow> bool" where
  "init_runs E f params component Q w \<longleftrightarrow>
     (\<exists>w' c'. call_init E f component params w = Inr (0, w') \<and> w_ctx w' = w_ctx w \<and>
        set (interned w) \<subseteq> set (interned w') \<and> (\<forall>p. same_core w w' p) \<and>
        w_comp w' component = Some c' \<and> refcount c' = refcount (the (w_comp w component)) \<and> Q w')"

definition good_init :: "env \<Rightarrow> cops_init \<Rightarrow> vde_sobj \<Rightarrow> bool" where
  "good_init E f params \<longleftrightarrow> (\<forall>w component c. w_comp w component = Some c \<longrightarrow>
     init_runs E f params component (\<lambda>_. True) w)"

lemma component_setup_simps [simp]:
  "qname (component_setup q m ctx c) = q" "comp_kind (component_setup q m ctx c) = m_kind m"
  "comp_cops (component_setup q m ctx c) = m_cops m" "refcount (component_setup q m ctx c) = refcount c"
  "initialized (component_setup q m ctx c) = initialized c"
  by (simp_all add: component_setup_def Let_def split: vde_component_kind.splits)

lemma component_new_init:
  assumes "w_module w module = Some m" and "m_cops m = Some ops" and "ops_init ops = Some f"
    and "module \<noteq> NULL" and "component \<noteq> NULL" and "w_comp w component = Some zero_component"
    and "init_runs E f params component Q
      (w\<lparr>w_comp := (w_comp w)(component \<mapsto> component_setup q m ctx zero_component)\<rparr>)"
  shows "\<exists>w' c'. vde_component_init E component q module ctx params w =
      Inr (0, w'\<lparr>w_comp := (w_comp w')(component \<mapsto> c'\<lparr>initialized := True\<rparr>)\<rparr>) \<and>
    w_ctx w' = w_ctx w \<and> set (interned w) \<subseteq> set (interned w') \<and>
    (\<forall>p. p \<noteq> component \<longrightarrow> same_core w w' p) \<and> w_comp w' component = Some c' \<and>
    qname c' = q \<and> comp_kind c' = m_kind m \<and> refcount c' = 0 \<and> Q w' \<and>
    core c' = core (component_setup q m ctx zero_component)"
proof -
  let ?c1 = "component_setup q m ctx zero_component"
  let ?w1 = "w\<lparr>w_comp := (w_comp w)(component \<mapsto> ?c1)\<rparr>"
  obtain w2 c2 where w2: "call_init E f component params ?w1 = Inr (0, w2)"
    "w_ctx w2 = w_ctx ?w1" "set (interned ?w1) \<subseteq> set (interned w2)" "\<forall>p. same_core ?w1 w2 p"
    "w_comp w2 component = Some c2" "refcount c2 = refcount ?c1" "Q w2"
    using assms(7) unfolding init_runs_def by auto
  have core: "core c2 = core ?c1" using w2(4,5) by (auto simp: same_core_def dest: spec [of _ component])
  have "vde_component_init E component q module ctx params w =
      Inr (0, w2\<lparr>w_comp := (w_comp w2)(component \<mapsto> c2\<lparr>initialized := True\<rparr>)\<rparr>)"
    using assms w2 by (simp add: vde_component_init_def mon)
  moreover have "same_core w w2 p" if "p \<noteq> component" for p
    using w2(4) that by (simp add: same_core_def)
  ultimately show ?thesis
    using w2 core by (intro exI [of _ w2] exI [of _ c2]) (simp add: core_def zero_component_def)
qed

text \<open>
  A new component: \<open>w2\<close> is the state the module's \<open>init\<close> ends in, started with the component set up
  from the module.
\<close>

lemma new_component_runs:
  assumes inv: "ctx_inv E ctx w" and mods: "modules_inv E ctx w" and "w_ctx w ctx = Some x"
    and new: "hget (ctx_ents ctx w) (quark_id E name) = NULL"
    and found: "find_module w kind family (modules x) = module" "module \<noteq> NULL"
    and m: "w_module w module = Some m" "m_cops m = Some ops" "ops_init ops = Some f"
    and mem: "\<not> malloc_null E (brk w)" "brk w \<noteq> NULL" "w_comp w (brk w) = None"
    and init: "\<And>ss. set (interned w) \<subseteq> set ss \<Longrightarrow> init_runs E f params (brk w) Q
      (w\<lparr>brk := Suc (brk w), interned := ss,
         w_comp := (w_comp w)(brk w \<mapsto> component_setup (quark_id E name) m ctx zero_component)\<rparr>)"
  shows "\<exists>w2 c2 oh'. vde_context_new_component E ctx kind (Some family) (Some name) params w = Inr ((0, Some (brk w)),
      w2\<lparr>w_ctx := (w_ctx w)(ctx \<mapsto> x\<lparr>components := Some oh'\<rparr>),
         w_comp := (w_comp w2)(brk w \<mapsto> c2\<lparr>initialized := True, refcount := 1\<rparr>)\<rparr>) \<and>
    w_ctx w2 = w_ctx w \<and> w_comp w2 (brk w) = Some c2 \<and> Q w2 \<and> set (interned w) \<subseteq> set (interned w2) \<and>
    ctx_inv E ctx (w2\<lparr>w_ctx := (w_ctx w)(ctx \<mapsto> x\<lparr>components := Some oh'\<rparr>),
      w_comp := (w_comp w2)(brk w \<mapsto> c2\<lparr>initialized := True, refcount := 1\<rparr>)\<rparr>) \<and>
    oh_ents oh' = ctx_ents ctx w @ [(quark_id E name, brk w)] \<and> comp_kind c2 = kind \<and>
    core c2 = core (component_setup (quark_id E name) m ctx zero_component) \<and>
    (\<forall>p. p \<noteq> brk w \<longrightarrow> same_core w w2 p)"
proof -
  from inv obtain oh where x: "quark_ok E" "ctx \<noteq> NULL" "ctx_initialized x = 1"
    "components x = Some oh" "oh_inv oh" "keys_interned E w (oh_ents oh)"
    and ok: "\<And>e. e \<in> set (oh_ents oh) \<Longrightarrow> entry_ok w e" and ents: "ctx_ents ctx w = oh_ents oh"
    using assms(3) by (auto elim: ctx_invE)
  let ?p = "brk w" and ?q = "quark_id E name"
  obtain ss where ss: "vde_context_lookup_module E ctx kind (Some family) w =
      Inr (module, w\<lparr>interned := ss\<rparr>)" "insert family (set (interned w)) \<subseteq> set ss"
    using lookup_module_eval [OF x(1,2) assms(3) x(3), of kind family] mods assms(3) found(1)
    by (fastforce simp: modules_inv_def modules_ok_def)
  have kind: "m_kind m = kind"
    using find_module_Some [OF found] m(1) by (simp add: module_id_def)
  let ?w1 = "w\<lparr>brk := Suc ?p, w_comp := (w_comp w)(?p \<mapsto> zero_component),
    interned := List.insert name ss\<rparr>"
  have "init_runs E f params ?p Q (?w1\<lparr>w_comp := (w_comp ?w1)(?p \<mapsto> component_setup ?q m ctx zero_component)\<rparr>)"
    using init [of "List.insert name ss"] ss(2) by auto
  from component_new_init [OF _ m(2,3) found(2) mem(2) _ this] m(1) obtain w2 c2 where
    w2: "vde_component_init E ?p ?q module ctx params ?w1 =
      Inr (0, w2\<lparr>w_comp := (w_comp w2)(?p \<mapsto> c2\<lparr>initialized := True\<rparr>)\<rparr>)"
    "w_ctx w2 = w_ctx w" "set (interned ?w1) \<subseteq> set (interned w2)"
    "\<forall>p. p \<noteq> ?p \<longrightarrow> same_core ?w1 w2 p" "w_comp w2 ?p = Some c2" "qname c2 = ?q"
    "comp_kind c2 = m_kind m" "refcount c2 = 0" "Q w2"
    "core c2 = core (component_setup ?q m ctx zero_component)"
    by auto
  have "hget (oh_ents oh) ?q = NULL" using new ents by simp
  then obtain oh' where oh': "vde_ordhash_insert (vde3_debug E) oh ?q ?p = Inr oh'" "oh_inv oh'"
    "oh_ents oh' = oh_ents oh @ [(?q, ?p)]"
    using oh.ins_ok [OF x(5), of ?q ?p] mem(2) oh.look_ents [OF x(5)] by auto
  let ?w' = "w2\<lparr>w_ctx := (w_ctx w)(ctx \<mapsto> x\<lparr>components := Some oh'\<rparr>),
    w_comp := (w_comp w2)(?p \<mapsto> c2\<lparr>initialized := True, refcount := 1\<rparr>)\<rparr>"
  have run: "vde_context_new_component E ctx kind (Some family) (Some name) params w = Inr ((0, Some ?p), ?w')"
    using x assms(3) ss found(2) mem w2 oh' new
    by (simp add: vde_context_new_component_def Let_def mon get_component_eval [OF inv]
        vde_component_new_def)
  have others: "same_core w w2 p" if "p \<noteq> ?p" for p
    using w2(4) that by (simp add: same_core_def)
  then have others': "same_core w ?w' p" if "p \<noteq> ?p" for p
    using that by (simp add: same_core_def)
  have "entry_ok ?w' e" if e: "e \<in> set (oh_ents oh)" for e
  proof -
    have "snd e \<noteq> ?p" using ok [OF e] mem(3) by (auto simp: entry_ok_def)
    with others' ok [OF e] show ?thesis by (blast intro: entry_ok_same_core)
  qed
  moreover have "entry_ok ?w' (?q, ?p)" using mem(2) w2 by (simp add: entry_ok_def)
  moreover have "keys_interned E ?w' (oh_ents oh')"
    using x(6) w2(3) ss(2) by (fastforce simp: keys_interned_def oh'(3))
  ultimately have "ctx_inv E ctx ?w'"
    using x assms(3) oh'(2,3) w2(2) by (auto simp: ctx_inv_def)
  with run others ss(2) w2 oh'(3) ents kind show ?thesis
    by (intro exI [of _ w2] exI [of _ c2] exI [of _ oh']) auto
qed

lemma new_component_eval:
  assumes "ctx_inv E ctx w" and "modules_inv E ctx w" and "w_ctx w ctx = Some x"
    and "hget (ctx_ents ctx w) (quark_id E name) = NULL"
    and "find_module w kind family (modules x) = module" "module \<noteq> NULL"
    and "w_module w module = Some m" "m_cops m = Some ops" "ops_init ops = Some f"
    and "good_init E f params"
    and "\<not> malloc_null E (brk w)" "brk w \<noteq> NULL" "w_comp w (brk w) = None"
  shows "\<exists>w' c. vde_context_new_component E ctx kind (Some family) (Some name) params w =
      Inr ((0, Some (brk w)), w') \<and> ctx_inv E ctx w' \<and>
    ctx_ents ctx w' = ctx_ents ctx w @ [(quark_id E name, brk w)] \<and>
    w_comp w' (brk w) = Some c \<and> comp_kind c = kind \<and> refcount c = 1 \<and>
    core c = core ((component_setup (quark_id E name) m ctx zero_component)\<lparr>initialized := True\<rparr>) \<and>
    (\<forall>p. p \<noteq> brk w \<longrightarrow> same_core w w' p)"
proof -
  have "init_runs E f params (brk w) (\<lambda>_. True) (w\<lparr>brk := Suc (brk w), interned := ss,
      w_comp := (w_comp w)(brk w \<mapsto> component_setup (quark_id E name) m ctx zero_component)\<rparr>)" for ss
    using assms(10) unfolding good_init_def by simp
  from new_component_runs [OF assms(1-9,11-13) this] obtain w2 c2 oh' w' where
    w': "w' = w2\<lparr>w_ctx := (w_ctx w)(ctx \<mapsto> x\<lparr>components := Some oh'\<rparr>),
         w_comp := (w_comp w2)(brk w \<mapsto> c2\<lparr>initialized := True, refcount := 1\<rparr>)\<rparr>"
    and run: "vde_context_new_component E ctx kind (Some family) (Some name) params w = Inr ((0, Some (brk w)), w')"
    "ctx_inv E ctx w'" "oh_ents oh' = ctx_ents ctx w @ [(quark_id E name, brk w)]" "comp_kind c2 = kind"
    "core c2 = core (component_setup (quark_id E name) m ctx zero_component)" "\<forall>p. p \<noteq> brk w \<longrightarrow> same_core w w2 p"
    by auto
  then show ?thesis
    by (intro exI [of _ w'] exI [of _ "c2\<lparr>initialized := True, refcount := 1\<rparr>"]) (auto simp: ctx_ents_def same_core_def core_def)
qed

text \<open>
  A component is well typed when it has the operations of its kind; calls on it through the
  functions of the library then reach an operation of its module.
\<close>

definition comp_typed :: "vde_component \<Rightarrow> bool" where
  "comp_typed c \<longleftrightarrow> (\<exists>ops f g. comp_cops c = Some ops \<and> ops_init ops = Some f \<and> ops_fini ops = Some g) \<and>
     (case comp_kind c of
        VDE_CONNECTION_MANAGER \<Rightarrow> c_cm_connect c \<noteq> None \<and> c_cm_listen c \<noteq> None
      | VDE_ENGINE \<Rightarrow> c_eng_new_conn c \<noteq> None
      | VDE_TRANSPORT \<Rightarrow> c_tr_connect c \<noteq> None \<and> c_tr_listen c \<noteq> None)"

definition calls_resolve :: "env \<Rightarrow> ptr \<Rightarrow> vde_component_kind \<Rightarrow> world \<Rightarrow> bool" where
  "calls_resolve E p kind w \<longleftrightarrow> (case kind of
       VDE_CONNECTION_MANAGER \<Rightarrow> (\<exists>f g. vde_conn_manager_listen E p w = call_cm_listen E f p w \<and>
         (\<forall>l r s e a. vde_conn_manager_connect E p l r s e a w = call_cm_connect E g p l r s e a w))
     | VDE_ENGINE \<Rightarrow> (\<exists>f. \<forall>conn req. conn \<noteq> NULL \<longrightarrow>
         vde_engine_new_connection E p conn req w = call_eng_new_conn E f p conn req w)
     | VDE_TRANSPORT \<Rightarrow> (\<exists>f g. vde_transport_listen E p w = call_tr_listen E f p w \<and>
         (\<forall>conn. conn \<noteq> NULL \<longrightarrow> vde_transport_connect E p conn w = call_tr_connect E g p conn w)))"

lemma comp_typed_core: "core c' = core c \<Longrightarrow> comp_typed c' = comp_typed c"
  by (simp add: comp_typed_def core_def split: vde_component_kind.split)

lemma comp_typed_initialized: "comp_typed (c\<lparr>initialized := b\<rparr>) = comp_typed c"
  by (simp add: comp_typed_def split: vde_component_kind.split)

lemma comp_typed_setup: "module_ok m \<Longrightarrow> comp_typed (component_setup q m ctx c)"
  by (auto simp: module_ok_def kind_ops_ok_def component_ops_ok_def comp_typed_def component_setup_def Let_def
      split: vde_component_kind.splits option.splits)

lemma comp_typed_resolves:
  assumes "comp_typed c" and "w_comp w p = Some c" and "p \<noteq> NULL"
  shows "calls_resolve E p (comp_kind c) w"
  using assms
  by (cases "comp_kind c")
    (auto simp: comp_typed_def calls_resolve_def vde_conn_manager_listen_def vde_conn_manager_connect_def
      vde_engine_new_connection_def vde_transport_listen_def vde_transport_connect_def mon)

section \<open>Finalizing a context\<close>

definition ctx_comps :: "ptr \<Rightarrow> world \<Rightarrow> ptr list" where
  "ctx_comps ctx w = map snd (ctx_ents ctx w)"

text \<open>What holds of a context while its components are finalized.\<close>

definition fini_frame :: "env \<Rightarrow> ptr \<Rightarrow> vde_context \<Rightarrow> (ptr \<Rightarrow> vde_component_kind) \<Rightarrow> ptr list \<Rightarrow>
  world \<Rightarrow> bool" where
  "fini_frame E ctx x kinds ps w \<longleftrightarrow> w_ctx w ctx = Some x \<and> NULL \<notin> set ps \<and>
     (\<forall>p\<in>set ps. \<exists>c. w_comp w p = Some c \<and> comp_kind c = kinds p \<and> has_clean_fini E p c)"

text \<open>The components in \<open>D\<close> have been finalized, the others not.\<close>

definition fini_done :: "ptr set \<Rightarrow> ptr list \<Rightarrow> world \<Rightarrow> bool" where
  "fini_done D ps w \<longleftrightarrow> (\<forall>p\<in>set ps. \<forall>c. w_comp w p = Some c \<longrightarrow> (initialized c \<longleftrightarrow> p \<notin> D))"

lemma entry_lookup_oh:
  assumes "oh_inv oh" and "k \<in> set (oh_list oh)"
  shows "vde_ordhash_entry_lookup dbg oh (pre, k, post) = Inr (hget (oh_hash oh) k)"
  using hget_nonnull_iff [OF assms(1), of k] assms(2)
  by (simp add: vde_ordhash_entry_lookup_def entry_key_def)

text \<open>
  A loop over the components runs its body on each of them once, oldest first, when the body
  leaves the table alone.
\<close>

lemma for_components_eq:
  assumes "P w" and "\<And>w. P w \<Longrightarrow> w_ctx w ctx = Some x" and "components x = Some oh" and "oh_inv oh"
    and "\<And>p w. p \<in> set (map snd (oh_ents oh)) \<Longrightarrow> P w \<Longrightarrow> body p w = body' p w"
    and "\<And>p. p \<in> set (map snd (oh_ents oh)) \<Longrightarrow> keeps P (body' p)"
  shows "for_components E ctx body w = mapM body' (map snd (oh_ents oh)) w"
proof -
  let ?g = "\<lambda>k. body' (hget (oh_hash oh) k)"
  have keys: "ctx_keys E ctx v = Inr (oh_list oh, v)" if "P v" for v
    using assms(2) [OF that] assms(3) by (simp add: ctx_keys_def mon)
  have in_ents: "hget (oh_hash oh) k \<in> set (map snd (oh_ents oh))" if "k \<in> set (oh_list oh)" for k
    using that by (force simp: oh_ents_def)
  have "foreach (ctx_keys E ctx)
      (\<lambda>k. mbind (ctx_components E ctx) (\<lambda>oh.
           mbind (lift (vde_ordhash_entry_lookup (vde3_debug E) oh ([], k, []))) body))
      (oh_list oh) w = mapM ?g (oh_list oh) w"
  proof (rule foreach_eq_mapM [where P = P and pre = "[]"])
    show "distinct ([] @ oh_list oh)" using assms(4) by (simp add: oh_inv_def)
    show "mbind (ctx_components E ctx) (\<lambda>oh.
        mbind (lift (vde_ordhash_entry_lookup (vde3_debug E) oh ([], k, []))) body) v = ?g k v"
      if "k \<in> set (oh_list oh)" "P v" for k v
      using that assms(2) [OF that(2)] assms(3) assms(5) [OF in_ents [OF that(1)] that(2)]
      by (simp add: mon entry_lookup_oh [OF assms(4)])
    show "keeps P (?g k)" if "k \<in> set (oh_list oh)" for k
      using assms(6) [OF in_ents [OF that]] .
  qed (use assms(1) keys in simp_all)
  also have "mapM ?g (oh_list oh) = mapM body' (map snd (oh_ents oh))"
  proof -
    have "mapM (\<lambda>k. b (f k)) ks = mapM b (map f ks)" for b :: "ptr \<Rightarrow> unit prog" and f and ks :: "nat list"
      by (induction ks) simp_all
    then show ?thesis by (simp add: oh_ents_def comp_def)
  qed
  finally show ?thesis using keys [OF assms(1)] by (simp add: for_components_def)
qed

lemma has_clean_fini_core: "core c' = core c \<Longrightarrow> has_clean_fini E p c' = has_clean_fini E p c"
  by (simp add: has_clean_fini_def core_def)

lemma fini_frame_same:
  assumes "fini_frame E ctx x kinds ps w" and "w_ctx w' ctx = w_ctx w ctx"
    and "\<And>p. p \<in> set ps \<Longrightarrow> \<exists>c c'. w_comp w p = Some c \<and> w_comp w' p = Some c' \<and>
      comp_kind c' = comp_kind c \<and> comp_cops c' = comp_cops c"
  shows "fini_frame E ctx x kinds ps w'"
proof -
  have "\<exists>c'. w_comp w' p = Some c' \<and> comp_kind c' = kinds p \<and> has_clean_fini E p c'"
    if "p \<in> set ps" for p
    using assms(1) that assms(3) [OF that] by (auto simp: fini_frame_def has_clean_fini_def)
  with assms(1,2) show ?thesis by (simp add: fini_frame_def)
qed

lemma fini_frame_comp:
  assumes "fini_frame E ctx x kinds ps w" and "p \<in> set ps"
  obtains c where "w_comp w p = Some c" "comp_kind c = kinds p" "has_clean_fini E p c" "p \<noteq> NULL"
  using assms unfolding fini_frame_def by metis

lemma component_fini_step:
  assumes "fini_frame E ctx x kinds ps w" and "fini_done D ps w" and "p \<in> set ps" and "p \<notin> D"
  shows "\<exists>w'. vde_component_fini E p w = Inr ((), w') \<and> fini_frame E ctx x kinds ps w' \<and>
    fini_done (insert p D) ps w'"
proof -
  obtain c where c: "w_comp w p = Some c" "has_clean_fini E p c" "p \<noteq> NULL" "initialized c"
    using fini_frame_comp [OF assms(1,3)] assms(2-4) by (metis fini_done_def)
  obtain w' c' where w': "vde_component_fini E p w = Inr ((), w')" "w_ctx w' = w_ctx w"
    "\<forall>q. q \<noteq> p \<longrightarrow> same_core w w' q" "w_comp w' p = Some c'" "core c' = core (c\<lparr>initialized := False\<rparr>)"
    using component_fini_clean [OF c(3,1,4,2)] by blast
  have each: "\<exists>d d'. w_comp w q = Some d \<and> w_comp w' q = Some d' \<and> comp_kind d' = comp_kind d \<and>
      comp_cops d' = comp_cops d \<and> initialized d' = (initialized d \<and> q \<noteq> p)" if q: "q \<in> set ps" for q
  proof (cases "q = p")
    case True
    with c(1) w'(4,5) show ?thesis by (auto simp: core_def)
  next
    case False
    obtain d where d: "w_comp w q = Some d" using fini_frame_comp [OF assms(1) q] .
    with False w'(3) obtain d' where "w_comp w' q = Some d'" "core d' = core d"
      using same_core_comp by blast
    with False d show ?thesis by (auto simp: core_def)
  qed
  have "fini_frame E ctx x kinds ps w'"
    by (rule fini_frame_same [OF assms(1)]) (use w'(2) each in \<open>simp, blast\<close>)
  moreover have "fini_done (insert p D) ps w'"
    unfolding fini_done_def
  proof (intro ballI allI impI)
    fix q d' assume q: "q \<in> set ps" "w_comp w' q = Some d'"
    from each [OF q(1)] q(2) obtain d where "w_comp w q = Some d"
      "initialized d' = (initialized d \<and> q \<noteq> p)" by auto
    with assms(2) q(1) show "initialized d' \<longleftrightarrow> q \<notin> insert p D" by (auto simp: fini_done_def)
  qed
  ultimately show ?thesis using w'(1) by blast
qed

lemma component_fini_loop:
  assumes "fini_frame E ctx x kinds ps w" and "fini_done D ps w" and "set qs \<subseteq> set ps"
    and "distinct qs" and "set qs \<inter> D = {}"
  shows "\<exists>w'. mapM (vde_component_fini E) qs w = Inr ((), w') \<and> fini_frame E ctx x kinds ps w' \<and>
    fini_done (set qs \<union> D) ps w'"
  using assms
proof (induction qs arbitrary: w D)
  case Nil
  then show ?case by simp
next
  case (Cons q qs)
  then obtain w1 where w1: "vde_component_fini E q w = Inr ((), w1)" "fini_frame E ctx x kinds ps w1"
    "fini_done (insert q D) ps w1"
    using component_fini_step [of E ctx x kinds ps w D q] by auto
  with Cons.IH [OF w1(2,3)] Cons.prems show ?case by auto
qed

lemma component_delete_loop:
  assumes "distinct qs" and "NULL \<notin> set qs"
    and "\<forall>p\<in>set qs. \<exists>c. w_comp w p = Some c \<and> \<not> initialized c"
  shows "mapM (vde_component_delete E) qs w = Inr ((), w\<lparr>w_comp := (w_comp w) |` (- set qs)\<rparr>)"
  using assms
proof (induction qs arbitrary: w)
  case Nil
  then show ?case by simp
next
  case (Cons q qs)
  let ?w1 = "w\<lparr>w_comp := (w_comp w)(q := None)\<rparr>"
  have del: "vde_component_delete E q w = Inr ((), ?w1)"
    using Cons.prems by (auto simp: vde_component_delete_def mon)
  have "\<forall>p\<in>set qs. \<exists>c. w_comp ?w1 p = Some c \<and> \<not> initialized c"
    using Cons.prems(1,3) by auto
  then have ih: "mapM (vde_component_delete E) qs ?w1 = Inr ((), ?w1\<lparr>w_comp := (w_comp ?w1) |` (- set qs)\<rparr>)"
    using Cons.IH [of ?w1] Cons.prems(1,2) by (simp only: distinct.simps set_simps insert_iff de_Morgan_disj simp_thms)
  have eq: "(w_comp ?w1) |` (- set qs) = (w_comp w) |` (- set (q # qs))"
    by (auto simp: restrict_map_def fun_eq_iff)
  have "mapM (vde_component_delete E) (q # qs) w = Inr ((), ?w1\<lparr>w_comp := (w_comp w) |` (- set (q # qs))\<rparr>)"
    by (simp only: mapM.simps mbind_apply del sum.case fst_conv snd_conv ih eq)
  then show ?case by simp
qed

lemma fini_body_keeps:
  assumes "p \<in> set ps"
  shows "keeps (fini_frame E ctx x kinds ps) (vde_component_fini E p)"
proof (rule keepsI)
  fix w a w'
  assume fr: "fini_frame E ctx x kinds ps w" and run: "vde_component_fini E p w = Inr (a, w')"
  obtain c ops f where c: "w_comp w p = Some c" "comp_cops c = Some ops" "ops_fini ops = Some f"
    "clean_fini E f p" "p \<noteq> NULL"
    using fini_frame_comp [OF fr assms] by (metis has_clean_fini_def)
  obtain w1 c1 where w1: "call_fini E f p w = Inr ((), w1)" "w_ctx w1 = w_ctx w"
    "\<forall>q. same_core w w1 q" "w_comp w1 p = Some c1" "commands c1 = []" "signals c1 = []"
    using c(1,4) unfolding clean_fini_def by blast
  have w': "w' = w1\<lparr>w_comp := (w_comp w1)(p \<mapsto> c1\<lparr>initialized := False\<rparr>)\<rparr>"
    using run c w1 by (auto simp: vde_component_fini_def mon split: if_splits)
  have each: "\<exists>d d'. w_comp w q = Some d \<and> w_comp w' q = Some d' \<and> comp_kind d' = comp_kind d \<and>
      comp_cops d' = comp_cops d" if q: "q \<in> set ps" for q
  proof -
    obtain d where d: "w_comp w q = Some d" using fini_frame_comp [OF fr q] .
    with w1(3) obtain d' where "w_comp w1 q = Some d'" "core d' = core d"
      using same_core_comp by blast
    with d w1(4) w' show ?thesis by (cases "q = p") (auto simp: core_def)
  qed
  have "w_ctx w' ctx = w_ctx w ctx" using w' w1(2) by simp
  then show "fini_frame E ctx x kinds ps w'" by (rule fini_frame_same [OF fr]) (rule each)
qed

text \<open>The finalization of all components, with the table's order made explicit.\<close>

lemma context_fini_steps:
  assumes inv: "ctx_inv E ctx w" and "w_ctx w ctx = Some x"
    and clean: "\<forall>p\<in>set (ctx_comps ctx w). \<forall>c. w_comp w p = Some c \<longrightarrow> has_clean_fini E p c"
  defines "kind \<equiv> \<lambda>p. comp_kind (the (w_comp w p))" and "ps \<equiv> ctx_comps ctx w"
    and "w0 \<equiv> w\<lparr>w_ctx := (w_ctx w)(ctx \<mapsto> x\<lparr>event_handler := no_handler\<rparr>)\<rparr>"
  shows "\<exists>w1 w2. mapM (vde_component_fini E) (filter (\<lambda>p. kind p = VDE_CONNECTION_MANAGER) ps) w0 = Inr ((), w1) \<and>
    mapM (vde_component_fini E) (filter (\<lambda>p. kind p \<noteq> VDE_CONNECTION_MANAGER) ps) w1 = Inr ((), w2) \<and>
    vde_context_fini E ctx w = Inr ((), w2\<lparr>w_comp := (w_comp w2) |` (- set ps),
      w_ctx := (w_ctx w2)(ctx \<mapsto> \<lparr>ctx_initialized = 0, event_handler = no_handler,
        components = Some \<lparr>oh_hash = [], oh_list = []\<rparr>, modules = []\<rparr>)\<rparr>)"
proof -
  from inv obtain oh where x: "quark_ok E" "ctx \<noteq> NULL" "ctx_initialized x = 1"
    "components x = Some oh" "oh_inv oh"
    and ok: "\<And>e. e \<in> set (oh_ents oh) \<Longrightarrow> entry_ok w e" and ents: "ctx_ents ctx w = oh_ents oh"
    using assms(2) by (auto elim: ctx_invE)
  let ?x0 = "x\<lparr>event_handler := no_handler\<rparr>"
  let ?cm = "\<lambda>p. kind p = VDE_CONNECTION_MANAGER"
  have ps: "ps = map snd (oh_ents oh)" by (simp add: ps_def ctx_comps_def ents)
  have dist: "distinct ps"
  proof -
    have "inj_on snd (set (oh_ents oh))"
      using ok by (intro inj_onI) (metis entry_ok_def option.inject prod_eqI)
    moreover have "distinct (oh_ents oh)" using oh.ents_distinct [OF x(5)] distinct_map by blast
    ultimately show ?thesis by (simp add: ps distinct_map)
  qed
  have comp: "\<exists>c. w_comp w p = Some c \<and> comp_kind c = kind p \<and> has_clean_fini E p c \<and> initialized c \<and> p \<noteq> NULL"
    if "p \<in> set ps" for p
    using that ok clean by (fastforce simp: ps entry_ok_def kind_def ctx_comps_def ents)
  let ?F = "fini_frame E ctx ?x0 kind ps"
  have F0: "?F w0" using comp by (force simp: fini_frame_def w0_def)
  have D0: "fini_done {} ps w0" using comp by (fastforce simp: fini_done_def w0_def)
  obtain w1 where w1: "mapM (vde_component_fini E) (filter ?cm ps) w0 = Inr ((), w1)" "?F w1"
    "fini_done (set (filter ?cm ps) \<union> {}) ps w1"
    using component_fini_loop [OF F0 D0, of "filter ?cm ps"] dist by auto
  obtain w2 where w2: "mapM (vde_component_fini E) (filter (\<lambda>p. \<not> ?cm p) ps) w1 = Inr ((), w2)" "?F w2"
    "fini_done (set (filter (\<lambda>p. \<not> ?cm p) ps) \<union> (set (filter ?cm ps) \<union> {})) ps w2"
    using component_fini_loop [OF w1(2,3), of "filter (\<lambda>p. \<not> ?cm p) ps"] dist by auto
  have phase: "for_components E ctx (\<lambda>p. mbind (vde_component_get_kind E p) (\<lambda>k.
      if Q k then vde_component_fini E p else ret ())) v =
      mapM (vde_component_fini E) (filter (\<lambda>p. Q (kind p)) ps) v" if "?F v" for Q v
  proof -
    have "for_components E ctx (\<lambda>p. mbind (vde_component_get_kind E p) (\<lambda>k.
        if Q k then vde_component_fini E p else ret ())) v =
        mapM (\<lambda>p. if Q (kind p) then vde_component_fini E p else ret ()) (map snd (oh_ents oh)) v"
    proof (rule for_components_eq [where P = ?F and x = ?x0])
      fix p u assume "p \<in> set (map snd (oh_ents oh))" "?F u"
      then obtain c where "w_comp u p = Some c" "comp_kind c = kind p" "p \<noteq> NULL"
        using fini_frame_comp ps by metis
      then show "mbind (vde_component_get_kind E p) (\<lambda>k.
          if Q k then vde_component_fini E p else ret ()) u =
          (if Q (kind p) then vde_component_fini E p else ret ()) u" by (simp add: mon)
    qed (use that x in \<open>auto simp: fini_frame_def ps [symmetric] intro!: keep fini_body_keeps\<close>)
    then show ?thesis by (simp add: mapM_if_filter ps [symmetric])
  qed
  have gone: "\<forall>p\<in>set ps. \<exists>c. w_comp w2 p = Some c \<and> \<not> initialized c"
    using w2(2,3) by (fastforce simp: fini_frame_def fini_done_def)
  have "keeps (\<lambda>v. w_ctx v ctx = Some ?x0) (vde_component_delete E p)" for p
    unfolding vde_component_delete_def by (intro keep keeps_dealloc) simp_all
  then have del: "for_components E ctx (vde_component_delete E) w2 =
      Inr ((), w2\<lparr>w_comp := (w_comp w2) |` (- set ps)\<rparr>)"
    using for_components_eq [where P = "\<lambda>v. w_ctx v ctx = Some ?x0" and x = ?x0 and oh = oh and w = w2
        and ctx = ctx and E = E and body = "vde_component_delete E" and body' = "vde_component_delete E"]
      w2(2) x component_delete_loop [OF dist _ gone, of E] comp
    by (fastforce simp: fini_frame_def ps [symmetric])
  have fin: "?x0\<lparr>components := Some (oh\<lparr>oh_hash := [], oh_list := []\<rparr>), modules := [], ctx_initialized := 0\<rparr> =
      \<lparr>ctx_initialized = 0, event_handler = no_handler,
        components = Some \<lparr>oh_hash = [], oh_list = []\<rparr>, modules = []\<rparr>"
    by simp
  have "vde_context_fini E ctx w = Inr ((), w2\<lparr>w_comp := (w_comp w2) |` (- set ps),
      w_ctx := (w_ctx w2)(ctx \<mapsto> \<lparr>ctx_initialized = 0, event_handler = no_handler,
        components = Some \<lparr>oh_hash = [], oh_list = []\<rparr>, modules = []\<rparr>)\<rparr>)"
    using x assms(2) w2(2) phase [OF F0, of "\<lambda>k. k = VDE_CONNECTION_MANAGER"]
      phase [OF w1(2), of "\<lambda>k. k \<noteq> VDE_CONNECTION_MANAGER"]
    by (simp add: vde_context_fini_def mon w0_def [symmetric] w1(1) w2(1) del fini_frame_def
        remove_all_empties vde_ordhash_delete_def fin)
  with w1(1) w2(1) show ?thesis by blast
qed

section \<open>Properties\<close>


text \<open>Modules whose \<open>init\<close> does nothing and whose \<open>fini\<close> only empties the component's tables.\<close>

definition init_env :: env where
  "init_env = base_env\<lparr>call_init := (\<lambda>f c p. ret 0),
     call_fini := (\<lambda>f p. upd_comp p (\<lambda>c. c\<lparr>commands := [], signals := []\<rparr>))\<rparr>"

lemma example_ctx_inv: "ctx_inv init_env 3 example_ctx_world"
  by (simp add: ctx_inv_def init_env_def quark_ok_num example_ctx_world_def example_context_def
      oh_inv_def oh_ents_def keys_interned_def)

lemma example_modules_inv': "modules_inv init_env 3 example_ctx_world"
  using example_modules_inv by (simp add: modules_inv_def init_env_def quark_ok_num)




text \<open>
  C22. A name in use cannot be given to a second component: the call returns \<open>-1\<close> with
  \<open>errno\<close> set to \<open>EEXIST\<close>, stores nothing and changes nothing else. With a free name but no
  module of the requested kind and family it returns \<open>-1\<close> with \<open>ENOENT\<close> and changes no
  component and no context.
\<close>

theorem new_component_refused:
  assumes "ctx_inv E ctx w" and "modules_inv E ctx w" and "w_ctx w ctx = Some x"
  shows "(hget (ctx_ents ctx w) (quark_id E name) \<noteq> NULL \<longrightarrow>
      vde_context_new_component E ctx kind (Some family) (Some name) params w =
        Inr ((- 1, None), w\<lparr>errno := EEXIST\<rparr>)) \<and>
    (hget (ctx_ents ctx w) (quark_id E name) = NULL \<longrightarrow>
      find_module w kind family (modules x) = NULL \<longrightarrow>
      (\<exists>ss. vde_context_new_component E ctx kind (Some family) (Some name) params w =
        Inr ((- 1, None), w\<lparr>interned := ss, errno := ENOENT\<rparr>)))"
proof -
  from assms(1) have x: "quark_ok E" "ctx \<noteq> NULL" "ctx_initialized x = 1"
    using assms(3) by (auto elim: ctx_invE)
  have "\<forall>p\<in>set (modules x). w_module w p \<noteq> None"
    using assms(2,3) by (fastforce simp: modules_inv_def modules_ok_def)
  from lookup_module_eval [OF x(1,2) assms(3) x(3) this, of kind family] x assms show ?thesis
    by (auto simp: vde_context_new_component_def Let_def mon get_component_eval)
qed

theorem new_component_refused_witness:
  "\<exists>ss. vde_context_new_component init_env 3 VDE_TRANSPORT (Some ''vde2'') (Some ''t1'') SNull
    example_ctx_world = Inr ((- 1, None), example_ctx_world\<lparr>interned := ss, errno := ENOENT\<rparr>)"
proof -
  have "hget (ctx_ents 3 example_ctx_world) (quark_id init_env ''t1'') = NULL"
    by (simp add: ctx_ents_def example_ctx_world_def example_context_def oh_ents_def)
  moreover have "find_module example_ctx_world VDE_TRANSPORT ''vde2'' (modules example_context) = NULL"
    by (simp add: find_module_def example_context_def example_ctx_world_def module_id_def example_module_def)
  ultimately show ?thesis
    using new_component_refused [OF example_ctx_inv example_modules_inv', of example_context "''t1''"
        VDE_TRANSPORT "''vde2''" SNull]
    by (simp add: example_ctx_world_def)
qed


definition two_engines :: world where
  "two_engines = empty_world\<lparr>brk := 20, interned := [''a'', ''b''],
     w_ctx := [3 \<mapsto> example_context\<lparr>components := Some \<lparr>oh_hash = [(quark_num ''a'', 7), (quark_num ''b'', 8)],
       oh_list = [quark_num ''b'', quark_num ''a'']\<rparr>\<rparr>],
     w_comp := [7 \<mapsto> zero_component\<lparr>qname := quark_num ''a'', initialized := True, refcount := 2,
         comp_cops := m_cops example_module\<rparr>,
       8 \<mapsto> zero_component\<lparr>qname := quark_num ''b'', initialized := True, refcount := 1,
         comp_cops := m_cops example_module\<rparr>]\<rparr>"

lemma two_engines_ents: "ctx_ents 3 two_engines = [(quark_num ''b'', 8), (quark_num ''a'', 7)]"
  by (simp add: ctx_ents_def two_engines_def oh_ents_def hget_def)

lemma two_engines_inv: "ctx_inv init_env 3 two_engines"
  by (simp add: ctx_inv_def init_env_def quark_ok_num two_engines_def example_context_def
      oh_inv_def oh_ents_def keys_interned_def hget_def entry_ok_def insert_commute)

lemma init_env_clean: "clean_fini init_env f p"
  by (auto simp: clean_fini_def init_env_def same_core_def core_def)




end
