(* ===== verification/Sobj.thy ===== *)
theory Sobj
  imports Memory
begin

text \<open>
  Serializable objects, the \<open>vde_sobj_\<dots>\<close> macros of \<^verbatim>\<open>src/include/vde3.h\<close> over json-c: type
  tests and reading of arrays and hashes. A missing element, like the JSON value null, is the
  \<open>NULL\<close> object \<open>SNull\<close>, which has none of the types tested for.
\<close>

definition sobj_is_hash :: "vde_sobj \<Rightarrow> bool" where
  "sobj_is_hash o1 = (case o1 of SHash _ \<Rightarrow> True | _ \<Rightarrow> False)"

definition sobj_is_array :: "vde_sobj \<Rightarrow> bool" where
  "sobj_is_array o1 = (case o1 of SArray _ \<Rightarrow> True | _ \<Rightarrow> False)"

definition sobj_is_string :: "vde_sobj \<Rightarrow> bool" where
  "sobj_is_string o1 = (case o1 of SString _ \<Rightarrow> True | _ \<Rightarrow> False)"

definition sobj_is_bool :: "vde_sobj \<Rightarrow> bool" where
  "sobj_is_bool o1 = (case o1 of SBool _ \<Rightarrow> True | _ \<Rightarrow> False)"

definition sobj_is_int :: "vde_sobj \<Rightarrow> bool" where
  "sobj_is_int o1 = (case o1 of SInt _ \<Rightarrow> True | _ \<Rightarrow> False)"

definition sobj_hash_lookup :: "vde_sobj \<Rightarrow> string \<Rightarrow> vde_sobj" where
  "sobj_hash_lookup o1 k = (case o1 of
       SHash kvs \<Rightarrow> (case map_of kvs k of None \<Rightarrow> SNull | Some v \<Rightarrow> v)
     | _ \<Rightarrow> SNull)"

definition sobj_get_string :: "vde_sobj \<Rightarrow> string" where
  "sobj_get_string o1 = (case o1 of SString s \<Rightarrow> s | _ \<Rightarrow> [])"

definition sobj_get_int :: "vde_sobj \<Rightarrow> int" where
  "sobj_get_int o1 = (case o1 of SInt i \<Rightarrow> i | _ \<Rightarrow> 0)"

definition sobj_get_bool :: "vde_sobj \<Rightarrow> bool" where
  "sobj_get_bool o1 = (case o1 of SBool b \<Rightarrow> b | _ \<Rightarrow> False)"

text \<open>
  \<open>vde_sobj_from_string\<close> of \<^verbatim>\<open>src/common.c\<close>: json-c reads the text up to its terminating
  zero byte.
\<close>

definition vde_sobj_from_string :: "env \<Rightarrow> char list \<Rightarrow> vde_sobj prog" where
  "vde_sobj_from_string E str =
     mbind (malloc_fails E) (\<lambda>nomem.
     if nomem then mbind (set_errno ENOMEM) (\<lambda>_. ret SNull)
     else mbind (lift (c_string str 0)) (\<lambda>s.
       ret (case sobj_parse E s of None \<Rightarrow> SNull | Some o1 \<Rightarrow> o1)))"

lemma sobj_is_simps [simp]:
  "sobj_is_hash (SHash kvs)" "sobj_is_array (SArray xs)" "sobj_is_string (SString s)"
  "sobj_is_bool (SBool b)" "sobj_is_int (SInt i)" "\<not> sobj_is_hash SNull" "\<not> sobj_is_array SNull"
  "\<not> sobj_is_string SNull" "\<not> sobj_is_bool SNull" "\<not> sobj_is_int SNull"
  "sobj_get_string (SString s) = s" "sobj_get_bool (SBool b) = b"
  by (simp_all add: sobj_is_hash_def sobj_is_array_def sobj_is_string_def sobj_is_bool_def
      sobj_is_int_def sobj_get_string_def sobj_get_bool_def)

lemma sobj_hash_lookup_simps [simp]:
  "sobj_hash_lookup (SHash kvs) k = (case map_of kvs k of None \<Rightarrow> SNull | Some v \<Rightarrow> v)"
  "sobj_hash_lookup SNull k = SNull"
  by (simp_all add: sobj_hash_lookup_def)

lemma sobj_is_iff:
  "sobj_is_hash x \<longleftrightarrow> (\<exists>kvs. x = SHash kvs)" "sobj_is_array x \<longleftrightarrow> (\<exists>xs. x = SArray xs)"
  "sobj_is_string x \<longleftrightarrow> (\<exists>s. x = SString s)" "sobj_is_bool x \<longleftrightarrow> (\<exists>b. x = SBool b)"
  "sobj_is_int x \<longleftrightarrow> (\<exists>i. x = SInt i)"
  by (cases x; simp add: sobj_is_hash_def sobj_is_array_def sobj_is_string_def sobj_is_bool_def
      sobj_is_int_def)+

end
