(* ===== verification/Connmgr.thy ===== *)
theory Connmgr
  imports Context Sobj
begin

text \<open>
  The connection manager, \<^verbatim>\<open>src/conn_manager.c\<close>: it joins one transport to one engine. A
  connection the transport has accepted or established waits in the list of pending
  connections until it is authorized, and is then handed to the engine. Remote authorization
  is not implemented in the sources: with it enabled a connection stays pending.
\<close>

section \<open>Operations\<close>

abbreviation upd_cm :: "ptr \<Rightarrow> (conn_manager \<Rightarrow> conn_manager) \<Rightarrow> unit prog" where
  "upd_cm \<equiv> store w_cm w_cm_update"

abbreviation upd_pc :: "ptr \<Rightarrow> (pending_conn \<Rightarrow> pending_conn) \<Rightarrow> unit prog" where
  "upd_pc \<equiv> store w_pc w_pc_update"

definition zero_pending_conn :: pending_conn where
  "zero_pending_conn = \<lparr>pc_conn = NULL, lreq = NULL, rreq = NULL, pc_state = CONNECT_WAIT,
     success_cb = None, pc_error_cb = None, connect_cb_arg = NULL\<rparr>"

fun lookup_pending_loop :: "ptr \<Rightarrow> ptr list \<Rightarrow> ptr prog" where
  "lookup_pending_loop conn [] = ret NULL"
| "lookup_pending_loop conn (pc # pcs) =
     mbind (deref w_pc pc) (\<lambda>p.
     if pc_conn p = conn then ret pc else lookup_pending_loop conn pcs)"

definition lookup_pending_conn :: "ptr \<Rightarrow> ptr \<Rightarrow> ptr prog" where
  "lookup_pending_conn cm conn =
     mbind (deref w_cm cm) (\<lambda>m. lookup_pending_loop conn (pending_conns m))"

definition conn_manager_listen :: "env \<Rightarrow> ptr \<Rightarrow> int prog" where
  "conn_manager_listen E component =
     mbind (vde_component_get_priv E component) (\<lambda>cm.
     mbind (deref w_cm cm) (\<lambda>m.
     vde_transport_listen E (cm_transport m)))"

definition conn_manager_connect ::
  "env \<Rightarrow> ptr \<Rightarrow> ptr \<Rightarrow> ptr \<Rightarrow> app_fun option \<Rightarrow> app_fun option \<Rightarrow> ptr \<Rightarrow> int prog" where
  "conn_manager_connect E component local_req remote_req scb ecb arg =
     mbind (vde_connection_new E) (\<lambda>(r, conn).
     if r \<noteq> 0 then ret (- 1)
     else mbind (alloc w_pc_update E zero_pending_conn) (\<lambda>pc.
     if pc = NULL then
       mbind (vde_connection_delete E conn) (\<lambda>_. fail_errno ENOMEM)
     else
       mbind (upd_pc pc (\<lambda>p. p\<lparr>pc_conn := conn, lreq := local_req, rreq := remote_req,
         pc_state := CONNECT_WAIT, success_cb := scb, pc_error_cb := ecb, connect_cb_arg := arg\<rparr>)) (\<lambda>_.
       mbind (vde_component_get_priv E component) (\<lambda>cm.
       mbind (upd_cm cm (\<lambda>m. m\<lparr>pending_conns := pc # pending_conns m\<rparr>)) (\<lambda>_.
       mbind (deref w_cm cm) (\<lambda>m.
       vde_transport_connect E (cm_transport m) conn))))))"

definition call_connect_cb :: "env \<Rightarrow> app_fun option \<Rightarrow> ptr \<Rightarrow> ptr \<Rightarrow> unit prog" where
  "call_connect_cb E cb component arg = (case cb of
       None \<Rightarrow> ret ()
     | Some f \<Rightarrow> call_app_cb E f component arg)"

definition post_authorization :: "env \<Rightarrow> ptr \<Rightarrow> ptr \<Rightarrow> int prog" where
  "post_authorization E cm pc =
     mbind (deref w_cm cm) (\<lambda>m.
     mbind (deref w_pc pc) (\<lambda>p.
     mbind (vde_engine_new_connection E (cm_engine m) (pc_conn p) (lreq p)) (\<lambda>r.
     mbind (deref w_pc pc) (\<lambda>p.
     mbind (deref w_cm cm) (\<lambda>m.
     mbind (if r \<noteq> 0 then call_connect_cb E (pc_error_cb p) (cm_component m) (connect_cb_arg p)
            else call_connect_cb E (success_cb p) (cm_component m) (connect_cb_arg p)) (\<lambda>_.
     mbind (upd_cm cm (\<lambda>m. m\<lparr>pending_conns := remove1 pc (pending_conns m)\<rparr>)) (\<lambda>_.
     mbind (dealloc w_pc w_pc_update pc) (\<lambda>_.
     ret 0))))))))"

definition conn_manager_connect_cb :: "env \<Rightarrow> ptr \<Rightarrow> ptr \<Rightarrow> unit prog" where
  "conn_manager_connect_cb E conn component =
     mbind (vde_component_get_priv E component) (\<lambda>cm.
     mbind (lookup_pending_conn cm conn) (\<lambda>pc.
     if pc = NULL then
       mbind (vde_connection_fini E conn) (\<lambda>_. vde_connection_delete E conn)
     else mbind (deref w_cm cm) (\<lambda>m.
       if do_remote_authorization m \<noteq> 0 then ret ()
       else mbind (upd_pc pc (\<lambda>p. p\<lparr>pc_state := AUTHORIZED\<rparr>)) (\<lambda>_.
            mbind (post_authorization E cm pc) (\<lambda>_. ret ())))))"

definition conn_manager_accept_cb :: "env \<Rightarrow> ptr \<Rightarrow> ptr \<Rightarrow> unit prog" where
  "conn_manager_accept_cb E conn component =
     mbind (vde_component_get_priv E component) (\<lambda>cm.
     mbind (alloc w_pc_update E zero_pending_conn) (\<lambda>pc.
     if pc = NULL then
       mbind (vde_connection_fini E conn) (\<lambda>_. vde_connection_delete E conn)
     else
       mbind (upd_pc pc (\<lambda>p. p\<lparr>pc_conn := conn\<rparr>)) (\<lambda>_.
       mbind (upd_cm cm (\<lambda>m. m\<lparr>pending_conns := pc # pending_conns m\<rparr>)) (\<lambda>_.
       mbind (deref w_cm cm) (\<lambda>m.
       if do_remote_authorization m \<noteq> 0 then ret ()
       else mbind (upd_pc pc (\<lambda>p. p\<lparr>pc_state := AUTHORIZED\<rparr>)) (\<lambda>_.
            mbind (post_authorization E cm pc) (\<lambda>_. ret ())))))))"

definition conn_manager_error_cb :: "env \<Rightarrow> ptr \<Rightarrow> int \<Rightarrow> ptr \<Rightarrow> unit prog" where
  "conn_manager_error_cb E conn tr_errno component = ret ()"

definition conn_manager_init :: "env \<Rightarrow> ptr \<Rightarrow> vde_sobj \<Rightarrow> int prog" where
  "conn_manager_init E component params =
     mbind (vde_component_get_context E component) (\<lambda>ctx.
     mbind (vde_assert E (component \<noteq> NULL)) (\<lambda>_.
     if params = SNull \<or> \<not> sobj_is_hash params then fail_errno EINVAL
     else let transport_sobj = sobj_hash_lookup params ''transport'' in
     if transport_sobj = SNull \<or> \<not> sobj_is_string transport_sobj then fail_errno EINVAL
     else mbind (vde_context_get_component E ctx (Some (sobj_get_string transport_sobj))) (\<lambda>transport.
     if transport = NULL then fail_errno EINVAL
     else mbind (vde_component_get_kind E transport) (\<lambda>kind.
     if kind \<noteq> VDE_TRANSPORT then fail_errno EINVAL
     else let engine_sobj = sobj_hash_lookup params ''engine'' in
     if engine_sobj = SNull \<or> \<not> sobj_is_string engine_sobj then fail_errno EINVAL
     else mbind (vde_context_get_component E ctx (Some (sobj_get_string engine_sobj))) (\<lambda>engine.
     if engine = NULL then fail_errno EINVAL
     else mbind (vde_component_get_kind E engine) (\<lambda>kind.
     if kind \<noteq> VDE_ENGINE then fail_errno EINVAL
     else let remote_auth_sobj = sobj_hash_lookup params ''remote_authorization'' in
     if remote_auth_sobj \<noteq> SNull \<and> \<not> sobj_is_bool remote_auth_sobj then fail_errno EINVAL
     else let remote_auth = (if remote_auth_sobj = SNull then 0
                             else if sobj_get_bool remote_auth_sobj then 1 else 0) in
       mbind (alloc w_cm_update E \<lparr>cm_transport = NULL, cm_engine = NULL, cm_component = NULL,
         pending_conns = [], do_remote_authorization = 0\<rparr>) (\<lambda>cm.
       if cm = NULL then fail_errno ENOMEM
       else
         mbind (upd_cm cm (\<lambda>m. m\<lparr>cm_transport := transport, cm_engine := engine,
           cm_component := component, do_remote_authorization := remote_auth, pending_conns := []\<rparr>)) (\<lambda>_.
         mbind (vde_component_get E transport) (\<lambda>_.
         mbind (vde_component_get E engine) (\<lambda>_.
         mbind (vde_transport_set_cm_callbacks E transport (Some Conn_manager_connect_cb)
           (Some Conn_manager_accept_cb) (Some Conn_manager_error_cb) component) (\<lambda>_.
         mbind (vde_component_set_priv E component cm) (\<lambda>_.
         ret 0))))))))))))"

definition conn_manager_fini :: "env \<Rightarrow> ptr \<Rightarrow> unit prog" where
  "conn_manager_fini E component =
     mbind (vde_component_get_priv E component) (\<lambda>cm.
     mbind (vde_assert E (component \<noteq> NULL)) (\<lambda>_.
     mbind (deref w_cm cm) (\<lambda>m.
     mbind (vde_component_put E (cm_transport m)) (\<lambda>_.
     mbind (vde_component_put E (cm_engine m)) (\<lambda>_.
     ret ())))))"

definition conn_manager_module :: vde_module where
  "conn_manager_module = \<lparr>m_kind = VDE_CONNECTION_MANAGER, m_family = ''default'',
     m_cops = Some \<lparr>ops_init = Some Conn_manager_init, ops_fini = Some Conn_manager_fini\<rparr>,
     m_cm_connect = Some Conn_manager_connect, m_cm_listen = Some Conn_manager_listen,
     m_eng_new_conn = None, m_tr_connect = None, m_tr_listen = None, m_dlhandle = NULL\<rparr>"

section \<open>Initialization\<close>

text \<open>
  The parameters a connection manager accepts: a hash naming a transport and an engine of the
  context, and optionally whether to authorize remote peers. The result is the transport, the
  engine and that flag.
\<close>

definition named_component ::
  "env \<Rightarrow> ptr \<Rightarrow> world \<Rightarrow> vde_component_kind \<Rightarrow> vde_sobj \<Rightarrow> ptr option" where
  "named_component E ctx w kind sobj = (case sobj of
       SString s \<Rightarrow> (let p = hget (ctx_ents ctx w) (quark_id E s)
                    in if p \<noteq> NULL \<and> comp_kind (the (w_comp w p)) = kind then Some p else None)
     | _ \<Rightarrow> None)"

definition auth_flag :: "vde_sobj \<Rightarrow> int option" where
  "auth_flag sobj = (case sobj of SNull \<Rightarrow> Some 0 | SBool b \<Rightarrow> Some (if b then 1 else 0) | _ \<Rightarrow> None)"

definition cm_params :: "env \<Rightarrow> ptr \<Rightarrow> world \<Rightarrow> vde_sobj \<Rightarrow> (ptr \<times> ptr \<times> int) option" where
  "cm_params E ctx w params =
     (if sobj_is_hash params then
        case (named_component E ctx w VDE_TRANSPORT (sobj_hash_lookup params ''transport''),
              named_component E ctx w VDE_ENGINE (sobj_hash_lookup params ''engine''),
              auth_flag (sobj_hash_lookup params ''remote_authorization'')) of
          (Some t, Some e, Some a) \<Rightarrow> Some (t, e, a)
        | _ \<Rightarrow> None
      else None)"

text \<open>The state after a successful initialization.\<close>

definition cm_started :: "ptr \<Rightarrow> ptr \<Rightarrow> ptr \<Rightarrow> int \<Rightarrow> world \<Rightarrow> world" where
  "cm_started component t e a w =
     (let ct = the (w_comp w t); ce = the (w_comp w e); k = the (w_comp w component)
      in w\<lparr>brk := Suc (brk w),
           w_cm := (w_cm w)(brk w \<mapsto> \<lparr>cm_transport = t, cm_engine = e, cm_component = component,
             pending_conns = [], do_remote_authorization = a\<rparr>),
           w_comp := (w_comp w)(
             t \<mapsto> ct\<lparr>refcount := refcount ct + 1, c_cm_connect_cb := Some Conn_manager_connect_cb,
               c_cm_accept_cb := Some Conn_manager_accept_cb,
               c_cm_error_cb := Some Conn_manager_error_cb, cm_cb_arg := component\<rparr>,
             e \<mapsto> ce\<lparr>refcount := refcount ce + 1\<rparr>,
             component \<mapsto> k\<lparr>comp_priv := brk w\<rparr>)\<rparr>)"

lemma ctx_comp:
  assumes "ctx_inv E ctx w" and "hget (ctx_ents ctx w) q \<noteq> NULL"
  shows "\<exists>c. w_comp w (hget (ctx_ents ctx w) q) = Some c \<and> qname c = q \<and>
    (q, hget (ctx_ents ctx w) q) \<in> set (ctx_ents ctx w)"
proof -
  from assms(1) obtain x oh where "oh_inv oh" and ok: "\<And>e. e \<in> set (oh_ents oh) \<Longrightarrow> entry_ok w e"
    and ents: "ctx_ents ctx w = oh_ents oh"
    by (rule ctx_invE) (rule that)
  have "(q, hget (ctx_ents ctx w) q) \<in> set (oh_ents oh)"
    using oh.look_iff [OF \<open>oh_inv oh\<close>, of q] oh.look_ents [OF \<open>oh_inv oh\<close>, of q] assms(2) ents
    by (simp only: simp_thms) metis
  with ok [OF this] ents show ?thesis by (auto simp: entry_ok_def)
qed

lemma named_component_eval:
  assumes "ctx_inv E ctx w" and "x = SString s"
  shows "named_component E ctx w kind x =
    (let p = hget (ctx_ents ctx w) (quark_id E s)
     in if p = NULL then None
        else case vde_component_get_kind E p w of
          Inr (k, _) \<Rightarrow> if k = kind then Some p else None | Inl _ \<Rightarrow> None)"
proof (cases "hget (ctx_ents ctx w) (quark_id E s) = NULL")
  case False
  from ctx_comp [OF assms(1) this] False assms(2) show ?thesis
    by (auto simp: named_component_def Let_def comp_getters)
qed (simp add: named_component_def assms(2))

lemma named_component_Some:
  assumes "ctx_inv E ctx w" and "named_component E ctx w kind x = Some p"
  shows "\<exists>c q. p \<noteq> NULL \<and> w_comp w p = Some c \<and> comp_kind c = kind \<and> qname c = q \<and> (q, p) \<in> set (ctx_ents ctx w)"
  using assms ctx_comp [OF assms(1)]
  by (fastforce simp: named_component_def Let_def split: vde_sobj.splits if_splits)

text \<open>One of the two lookups of \<open>conn_manager_init\<close>, with what follows on success.\<close>

definition pick_component ::
  "env \<Rightarrow> ptr \<Rightarrow> vde_component_kind \<Rightarrow> vde_sobj \<Rightarrow> (ptr \<Rightarrow> int prog) \<Rightarrow> int prog" where
  "pick_component E ctx kind sobj k =
     (if sobj = SNull \<or> \<not> sobj_is_string sobj then fail_errno EINVAL
      else mbind (vde_context_get_component E ctx (Some (sobj_get_string sobj))) (\<lambda>p.
        if p = NULL then fail_errno EINVAL
        else mbind (vde_component_get_kind E p) (\<lambda>kd.
          if kd \<noteq> kind then fail_errno EINVAL else k p)))"

lemma pick_component_eval:
  assumes "ctx_inv E ctx w"
  shows "pick_component E ctx kind sobj k w =
    (case named_component E ctx w kind sobj of None \<Rightarrow> Inr (- 1, w\<lparr>errno := EINVAL\<rparr>) | Some p \<Rightarrow> k p w)"
proof (cases "sobj_is_string sobj")
  case False
  then have "named_component E ctx w kind sobj = None"
    by (auto simp: named_component_def sobj_is_iff split: vde_sobj.splits)
  with False show ?thesis by (simp add: pick_component_def)
next
  case True
  then obtain s where s: "sobj = SString s" by (auto simp: sobj_is_iff)
  let ?p = "hget (ctx_ents ctx w) (quark_id E s)"
  show ?thesis
  proof (cases "?p = NULL")
    case True
    with s show ?thesis
      by (simp add: pick_component_def get_component_eval [OF assms] named_component_def)
  next
    case False
    with ctx_comp [OF assms False] s show ?thesis
      by (auto simp: pick_component_def get_component_eval [OF assms] named_component_def comp_getters)
  qed
qed

lemma conn_manager_init_picks:
  "conn_manager_init E component params =
     mbind (vde_component_get_context E component) (\<lambda>ctx.
     mbind (vde_assert E (component \<noteq> NULL)) (\<lambda>_.
     if params = SNull \<or> \<not> sobj_is_hash params then fail_errno EINVAL
     else pick_component E ctx VDE_TRANSPORT (sobj_hash_lookup params ''transport'') (\<lambda>transport.
       pick_component E ctx VDE_ENGINE (sobj_hash_lookup params ''engine'') (\<lambda>engine.
     let remote_auth_sobj = sobj_hash_lookup params ''remote_authorization'' in
     if remote_auth_sobj \<noteq> SNull \<and> \<not> sobj_is_bool remote_auth_sobj then fail_errno EINVAL
     else let remote_auth = (if remote_auth_sobj = SNull then 0
                             else if sobj_get_bool remote_auth_sobj then 1 else 0) in
       mbind (alloc w_cm_update E \<lparr>cm_transport = NULL, cm_engine = NULL, cm_component = NULL,
         pending_conns = [], do_remote_authorization = 0\<rparr>) (\<lambda>cm.
       if cm = NULL then fail_errno ENOMEM
       else
         mbind (upd_cm cm (\<lambda>m. m\<lparr>cm_transport := transport, cm_engine := engine,
           cm_component := component, do_remote_authorization := remote_auth, pending_conns := []\<rparr>)) (\<lambda>_.
         mbind (vde_component_get E transport) (\<lambda>_.
         mbind (vde_component_get E engine) (\<lambda>_.
         mbind (vde_transport_set_cm_callbacks E transport (Some Conn_manager_connect_cb)
           (Some Conn_manager_accept_cb) (Some Conn_manager_error_cb) component) (\<lambda>_.
         mbind (vde_component_set_priv E component cm) (\<lambda>_.
         ret 0)))))))))) "
  by (simp only: conn_manager_init_def pick_component_def Let_def)

lemma conn_manager_init_eval:
  assumes inv: "ctx_inv E ctx w" and "w_comp w component = Some k" and "component \<noteq> NULL"
    and "comp_ctx k = ctx" and "component \<notin> snd ` set (ctx_ents ctx w)" and "brk w \<noteq> NULL"
  shows "conn_manager_init E component params w =
    (case cm_params E ctx w params of
       None \<Rightarrow> Inr (- 1, w\<lparr>errno := EINVAL\<rparr>)
     | Some (t, e, a) \<Rightarrow>
         if malloc_null E (brk w) then Inr (- 1, w\<lparr>brk := Suc (brk w), errno := ENOMEM\<rparr>)
         else Inr (0, cm_started component t e a w))"
proof (cases "sobj_is_hash params")
  case False
  with assms show ?thesis by (simp add: conn_manager_init_picks mon cm_params_def)
next
  case hash: True
  then have ne: "params \<noteq> SNull" by auto
  let ?T = "named_component E ctx w VDE_TRANSPORT (sobj_hash_lookup params ''transport'')"
  let ?G = "named_component E ctx w VDE_ENGINE (sobj_hash_lookup params ''engine'')"
  let ?A = "sobj_hash_lookup params ''remote_authorization''"
  show ?thesis
  proof (cases "?T = None \<or> ?G = None \<or> auth_flag ?A = None")
    case True
    then have none: "cm_params E ctx w params = None" by (auto simp: cm_params_def split: option.splits)
    have "?A \<noteq> SNull \<and> \<not> sobj_is_bool ?A" if "auth_flag ?A = None"
      using that by (auto simp: auth_flag_def sobj_is_iff split: vde_sobj.splits)
    with True none hash ne assms show ?thesis
      by (auto simp: conn_manager_init_picks mon pick_component_eval [OF inv] split: option.splits)
  next
    case False
    then obtain t e a where tea: "?T = Some t" "?G = Some e" "auth_flag ?A = Some a" by auto
    then have some: "cm_params E ctx w params = Some (t, e, a)" by (simp add: cm_params_def hash)
    from named_component_Some [OF inv tea(1)] obtain ct q where
      t: "t \<noteq> NULL" "w_comp w t = Some ct" "comp_kind ct = VDE_TRANSPORT" "(q, t) \<in> set (ctx_ents ctx w)"
      by auto
    from named_component_Some [OF inv tea(2)] obtain ce r where
      e: "e \<noteq> NULL" "w_comp w e = Some ce" "comp_kind ce = VDE_ENGINE" "(r, e) \<in> set (ctx_ents ctx w)"
      by auto
    have d: "t \<noteq> e" "t \<noteq> component" "e \<noteq> component" using t e assms(5) by (auto simp: image_iff)
    have auth: "(?A \<noteq> SNull \<and> \<not> sobj_is_bool ?A) = False"
      "(if ?A = SNull then 0 else if sobj_get_bool ?A then 1 else 0) = a"
      using tea(3) by (auto simp: auth_flag_def split: vde_sobj.splits)
    show ?thesis
      using assms hash ne some tea(1,2) t(1-3) e(1-3) d auth
      by (simp add: conn_manager_init_picks mon pick_component_eval [OF inv] Let_def cm_started_def
          vde_transport_set_cm_callbacks_def fun_upd_twist) blast
  qed
qed

section \<open>Handing a connection to the engine\<close>

text \<open>
  A connection manager at work: its record, and the contract of the engine's \<open>new_conn\<close>
  towards it, which is to leave the manager's own data alone.
\<close>

definition cm_ready :: "env \<Rightarrow> world \<Rightarrow> ptr \<Rightarrow> ptr \<Rightarrow> conn_manager \<Rightarrow> eng_new_conn \<Rightarrow> bool" where
  "cm_ready E w component cm m f \<longleftrightarrow> component \<noteq> NULL \<and> brk w \<noteq> NULL \<and> w_cm w cm = Some m \<and>
     (\<exists>k. w_comp w component = Some k \<and> comp_priv k = cm) \<and> cm_engine m \<noteq> NULL \<and>
     (\<exists>g. w_comp w (cm_engine m) = Some g \<and> comp_kind g = VDE_ENGINE \<and> c_eng_new_conn g = Some f)"

definition respects_cm :: "env \<Rightarrow> eng_new_conn \<Rightarrow> ptr \<Rightarrow> bool" where
  "respects_cm E f engine \<longleftrightarrow> (\<forall>w conn req r w'. call_eng_new_conn E f engine conn req w = Inr (r, w') \<longrightarrow>
     w_cm w' = w_cm w \<and> w_pc w' = w_pc w)"

lemma accept_cb_run:
  assumes ready: "cm_ready E w component cm m f"
    and "\<not> malloc_null E (brk w)" and "conn \<noteq> NULL" and "do_remote_authorization m = 0"
    and "w_pc w (brk w) = None"
    and run: "call_eng_new_conn E f (cm_engine m) conn NULL
      (w\<lparr>brk := Suc (brk w),
         w_cm := (w_cm w)(cm \<mapsto> m\<lparr>pending_conns := brk w # pending_conns m\<rparr>),
         w_pc := (w_pc w)(brk w \<mapsto> zero_pending_conn\<lparr>pc_conn := conn, pc_state := AUTHORIZED\<rparr>)\<rparr>) = Inr (r, w')"
    and same: "w_cm w' = (w_cm w)(cm \<mapsto> m\<lparr>pending_conns := brk w # pending_conns m\<rparr>)"
      "w_pc w' = (w_pc w)(brk w \<mapsto> zero_pending_conn\<lparr>pc_conn := conn, pc_state := AUTHORIZED\<rparr>)"
  shows "conn_manager_accept_cb E conn component w =
    Inr ((), w'\<lparr>w_cm := w_cm w, w_pc := w_pc w\<rparr>)"
proof -
  let ?pc = "brk w"
  let ?w1 = "w\<lparr>brk := Suc ?pc,
    w_cm := (w_cm w)(cm \<mapsto> m\<lparr>pending_conns := ?pc # pending_conns m\<rparr>),
    w_pc := (w_pc w)(?pc \<mapsto> zero_pending_conn\<lparr>pc_conn := conn, pc_state := AUTHORIZED\<rparr>)\<rparr>"
  obtain k g where w: "component \<noteq> NULL" "?pc \<noteq> NULL" "w_cm w cm = Some m" "w_comp w component = Some k"
    "comp_priv k = cm" "cm_engine m \<noteq> NULL" "w_comp w (cm_engine m) = Some g" "comp_kind g = VDE_ENGINE"
    "c_eng_new_conn g = Some f"
    using ready by (auto simp: cm_ready_def)
  have "vde_engine_new_connection E (cm_engine m) conn NULL ?w1 = Inr (r, w')"
    using w assms(3) run by (simp add: vde_engine_new_connection_def mon)
  moreover have "(w_cm w)(cm \<mapsto> m) = w_cm w" "(w_pc w)(?pc := None) = w_pc w"
    using w(3) assms(5) by (simp_all add: fun_upd_idem)
  ultimately show ?thesis
    using w assms(2,4) same
    by (simp add: conn_manager_accept_cb_def post_authorization_def mon zero_pending_conn_def
        call_connect_cb_def)
qed

lemma accept_cb_eval:
  assumes ready: "cm_ready E w component cm m f" and "respects_cm E f (cm_engine m)"
    and "\<not> malloc_null E (brk w)" and "conn \<noteq> NULL" and "do_remote_authorization m = 0"
    and "w_pc w (brk w) = None"
    and run: "call_eng_new_conn E f (cm_engine m) conn NULL
      (w\<lparr>brk := Suc (brk w),
         w_cm := (w_cm w)(cm \<mapsto> m\<lparr>pending_conns := brk w # pending_conns m\<rparr>),
         w_pc := (w_pc w)(brk w \<mapsto> zero_pending_conn\<lparr>pc_conn := conn, pc_state := AUTHORIZED\<rparr>)\<rparr>) = Inr (r, w')"
  shows "conn_manager_accept_cb E conn component w =
    Inr ((), w'\<lparr>w_cm := w_cm w, w_pc := w_pc w\<rparr>)"
proof -
  let ?w1 = "w\<lparr>brk := Suc (brk w), w_cm := (w_cm w)(cm \<mapsto> m\<lparr>pending_conns := brk w # pending_conns m\<rparr>),
    w_pc := (w_pc w)(brk w \<mapsto> zero_pending_conn\<lparr>pc_conn := conn, pc_state := AUTHORIZED\<rparr>)\<rparr>"
  have "w_cm w' = w_cm ?w1" "w_pc w' = w_pc ?w1"
    using assms(2) run unfolding respects_cm_def by blast+
  with accept_cb_run [OF assms(1,3-7)] show ?thesis by simp
qed

section \<open>Properties\<close>

text \<open>
  C26. Initialization of a connection manager succeeds exactly on a hash that names a
  transport and an engine of the context (and holds a boolean, if anything, under
  \<open>remote_authorization\<close>). It then takes one reference on each, installs itself behind the
  transport and has no pending connection. On any other parameters it returns \<open>-1\<close> with
  \<open>errno\<close> set to \<open>EINVAL\<close> and has changed nothing else.
\<close>

theorem conn_manager_init_checks:
  assumes "ctx_inv E ctx w" and "w_comp w component = Some k" and "component \<noteq> NULL"
    and "comp_ctx k = ctx" and "component \<notin> snd ` set (ctx_ents ctx w)" and "brk w \<noteq> NULL"
    and "\<not> malloc_null E (brk w)"
  shows "conn_manager_init E component params w =
    (case cm_params E ctx w params of
       None \<Rightarrow> Inr (- 1, w\<lparr>errno := EINVAL\<rparr>)
     | Some (t, e, a) \<Rightarrow> Inr (0, cm_started component t e a w))"
  using conn_manager_init_eval [OF assms(1-6)] assms(7) by (auto split: option.splits)

text \<open>
  A context with a transport, an engine and a connection manager being created.
\<close>

definition cm_world :: world where
  "cm_world = empty_world\<lparr>brk := 20, interned := [''t'', ''e'', ''cm''],
     w_ctx := [3 \<mapsto> example_context\<lparr>components := Some \<lparr>oh_hash = [(quark_num ''t'', 7), (quark_num ''e'', 8)],
       oh_list = [quark_num ''t'', quark_num ''e'']\<rparr>\<rparr>],
     w_comp := [7 \<mapsto> zero_component\<lparr>comp_ctx := 3, qname := quark_num ''t'', initialized := True, refcount := 1,
         comp_kind := VDE_TRANSPORT\<rparr>,
       8 \<mapsto> zero_component\<lparr>comp_ctx := 3, qname := quark_num ''e'', initialized := True, refcount := 1,
         c_eng_new_conn := Some Hub_engine_newconn\<rparr>,
       9 \<mapsto> zero_component\<lparr>comp_ctx := 3, qname := quark_num ''cm'', comp_kind := VDE_CONNECTION_MANAGER\<rparr>]\<rparr>"

definition cm_example_params :: vde_sobj where
  "cm_example_params = SHash [(''engine'', SString ''e''), (''transport'', SString ''t'')]"

lemma cm_world_ents: "ctx_ents 3 cm_world = [(quark_num ''t'', 7), (quark_num ''e'', 8)]"
  by (simp add: ctx_ents_def cm_world_def oh_ents_def hget_def)

lemma cm_world_inv: "ctx_inv base_env 3 cm_world"
  by (simp add: ctx_inv_def quark_ok_num cm_world_def example_context_def
      oh_inv_def oh_ents_def keys_interned_def hget_def entry_ok_def)

lemma cm_world_comp:
  "w_comp cm_world 7 = Some (zero_component\<lparr>comp_ctx := 3, qname := quark_num ''t'', initialized := True,
     refcount := 1, comp_kind := VDE_TRANSPORT\<rparr>)"
  "w_comp cm_world 8 = Some (zero_component\<lparr>comp_ctx := 3, qname := quark_num ''e'', initialized := True,
     refcount := 1, c_eng_new_conn := Some Hub_engine_newconn\<rparr>)"
  "w_comp cm_world 9 = Some (zero_component\<lparr>comp_ctx := 3, qname := quark_num ''cm'',
     comp_kind := VDE_CONNECTION_MANAGER\<rparr>)"
  "brk cm_world = 20"
  by (simp_all add: cm_world_def)

lemma cm_world_params: "cm_params base_env 3 cm_world cm_example_params = Some (7, 8, 0)"
  by (simp add: cm_params_def cm_example_params_def named_component_def cm_world_ents cm_world_comp
      hget_def auth_flag_def zero_component_def)

lemma cm_world_params_string: "cm_params base_env 3 cm_world (SString s) = None"
  by (simp add: cm_params_def sobj_is_iff)

theorem conn_manager_init_checks_witness:
  "conn_manager_init base_env 9 cm_example_params cm_world = Inr (0, cm_started 9 7 8 0 cm_world) \<and>
   conn_manager_init base_env 9 (SString ''e'') cm_world = Inr (- 1, cm_world\<lparr>errno := EINVAL\<rparr>)"
  using conn_manager_init_checks [OF cm_world_inv cm_world_comp(3), of cm_example_params]
    conn_manager_init_checks [OF cm_world_inv cm_world_comp(3), of "SString ''e''"]
    cm_world_params_string
  by (simp add: cm_world_ents cm_world_comp cm_world_params)

text \<open>
  C27. While a connection manager exists, its transport and its engine cannot be deleted from
  the context: both attempts fail with \<open>EBUSY\<close> and change nothing else. Finalizing the manager
  gives back exactly the references it took.
\<close>

theorem conn_manager_pins_components:
  assumes "ctx_inv E ctx w" and "w_comp w component = Some k" and "component \<noteq> NULL"
    and "comp_ctx k = ctx" and "component \<notin> snd ` set (ctx_ents ctx w)" and "brk w \<noteq> NULL"
    and "\<not> malloc_null E (brk w)" and "cm_params E ctx w params = Some (t, e, a)"
    and "w_comp w t = Some ct" and "w_comp w e = Some ce" and "1 \<le> refcount ct" and "1 \<le> refcount ce"
  shows "\<exists>w1 w2. conn_manager_init E component params w = Inr (0, w1) \<and>
    vde_context_component_del E ctx t w1 = Inr (- 1, w1\<lparr>errno := EBUSY\<rparr>) \<and>
    vde_context_component_del E ctx e w1 = Inr (- 1, w1\<lparr>errno := EBUSY\<rparr>) \<and>
    conn_manager_fini E component w1 = Inr ((), w2) \<and>
    map_option refcount (w_comp w2 t) = Some (refcount ct) \<and>
    map_option refcount (w_comp w2 e) = Some (refcount ce)"
proof -
  obtain T G where tg: "named_component E ctx w VDE_TRANSPORT T = Some t"
    "named_component E ctx w VDE_ENGINE G = Some e"
    using assms(8) by (auto simp: cm_params_def split: if_splits option.splits)
  obtain q where t: "t \<noteq> NULL" "comp_kind ct = VDE_TRANSPORT" "(q, t) \<in> set (ctx_ents ctx w)"
    using named_component_Some [OF assms(1) tg(1)] assms(9) by auto
  obtain r where e: "e \<noteq> NULL" "comp_kind ce = VDE_ENGINE" "(r, e) \<in> set (ctx_ents ctx w)"
    using named_component_Some [OF assms(1) tg(2)] assms(10) by auto
  have d: "t \<noteq> e" "t \<noteq> component" "e \<noteq> component"
    using t e assms(5,9,10) by (auto simp: image_iff)
  let ?w1 = "cm_started component t e a w"
  have init: "conn_manager_init E component params w = Inr (0, ?w1)"
    using conn_manager_init_eval [OF assms(1-6), of params] assms(7,8) by simp
  have same: "same_core w ?w1 p" for p
    using assms(2,9,10) d by (auto simp: same_core_def cm_started_def Let_def core_def)
  have "ctx_inv E ctx ?w1"
  proof -
    have "entry_ok ?w1 x" if "entry_ok w x" for x using same that by (rule entry_ok_same_core)
    with assms(1) show ?thesis by (auto simp: ctx_inv_def cm_started_def Let_def keys_interned_def)
  qed
  moreover have "ctx_ents ctx ?w1 = ctx_ents ctx w" by (simp add: ctx_ents_def cm_started_def Let_def)
  ultimately have "vde_context_component_del E ctx t ?w1 = Inr (- 1, ?w1\<lparr>errno := EBUSY\<rparr>)"
    "vde_context_component_del E ctx e ?w1 = Inr (- 1, ?w1\<lparr>errno := EBUSY\<rparr>)"
    using t e d assms(9-12)
    by (auto intro!: component_del_busy_eval simp: cm_started_def Let_def)
  moreover have "\<exists>w2. conn_manager_fini E component ?w1 = Inr ((), w2) \<and>
      map_option refcount (w_comp w2 t) = Some (refcount ct) \<and>
      map_option refcount (w_comp w2 e) = Some (refcount ce)"
    using assms(2,3,9,10) t(1) e(1) d
    by (simp add: conn_manager_fini_def mon cm_started_def Let_def)
  ultimately show ?thesis using init by blast
qed

theorem conn_manager_pins_components_witness:
  "\<exists>w1. conn_manager_init base_env 9 cm_example_params cm_world = Inr (0, w1) \<and>
    vde_context_component_del base_env 3 8 w1 = Inr (- 1, w1\<lparr>errno := EBUSY\<rparr>)"
  using conn_manager_pins_components [OF cm_world_inv cm_world_comp(3) _ _ _ _ _ cm_world_params
      cm_world_comp(1,2)]
  by (simp add: cm_world_ents cm_world_comp(4)) blast

text \<open>
  C28. Without remote authorization, a connection accepted by the transport is handed to the
  engine exactly once, as authorized, and afterwards nothing of it is left pending, whatever
  the engine answers. The manager does not look at the answer: a connection the engine has
  refused is neither closed nor deleted.
\<close>

theorem accepted_connection_reaches_engine:
  assumes "cm_ready E w component cm m f" and "respects_cm E f (cm_engine m)"
    and "\<not> malloc_null E (brk w)" and "conn \<noteq> NULL" and "do_remote_authorization m = 0"
    and "w_pc w (brk w) = None"
    and "call_eng_new_conn E f (cm_engine m) conn NULL
      (w\<lparr>brk := Suc (brk w),
         w_cm := (w_cm w)(cm \<mapsto> m\<lparr>pending_conns := brk w # pending_conns m\<rparr>),
         w_pc := (w_pc w)(brk w \<mapsto> zero_pending_conn\<lparr>pc_conn := conn, pc_state := AUTHORIZED\<rparr>)\<rparr>) = Inr (r, w')"
  shows "\<exists>w''. conn_manager_accept_cb E conn component w = Inr ((), w'') \<and>
    w_cm w'' = w_cm w \<and> w_pc w'' = w_pc w \<and> w_conn w'' = w_conn w' \<and> trace w'' = trace w'"
  using accept_cb_eval [OF assms] by simp

definition refusing_env :: env where
  "refusing_env = base_env\<lparr>call_eng_new_conn := (\<lambda>f g c r. ret (- 1))\<rparr>"

theorem accepted_connection_reaches_engine_witness:
  "\<exists>w''. conn_manager_accept_cb refusing_env 15 9
      ((cm_started 9 7 8 0 cm_world)\<lparr>w_conn := [15 \<mapsto> zero_connection]\<rparr>) = Inr ((), w'') \<and>
    w_conn w'' 15 = Some zero_connection"
proof -
  let ?w = "(cm_started 9 7 8 0 cm_world)\<lparr>w_conn := [15 \<mapsto> zero_connection]\<rparr>"
  let ?m = "\<lparr>cm_transport = 7, cm_engine = 8, cm_component = 9, pending_conns = [],
    do_remote_authorization = 0\<rparr>"
  have ready: "cm_ready refusing_env ?w 9 20 ?m Hub_engine_newconn"
    by (simp add: cm_ready_def cm_started_def Let_def cm_world_comp zero_component_def)
  have resp: "respects_cm refusing_env Hub_engine_newconn 8"
    by (simp add: respects_cm_def refusing_env_def)
  have "w_pc ?w (brk ?w) = None"
    by (simp add: cm_started_def Let_def cm_world_def empty_world_def)
  from accepted_connection_reaches_engine [OF ready _ _ _ _ this, of 15 "- 1"] resp show ?thesis
    by (simp add: refusing_env_def) (auto simp: cm_started_def Let_def)
qed

end
