(* ===== verification/Localconn.thy ===== *)
theory Localconn
  imports Component
begin

text \<open>
  Unqueued local connections, \<^verbatim>\<open>src/localconnection.c\<close>: two connections whose backends hand
  every packet written on one of them straight to the user of the other.
\<close>

section \<open>Operations\<close>

abbreviation upd_lc :: "ptr \<Rightarrow> (vde_lc \<Rightarrow> vde_lc) \<Rightarrow> unit prog" where
  "upd_lc \<equiv> store w_lc w_lc_update"

text \<open>The code reads \<open>peer->conn\<close> before it tests \<open>peer\<close>.\<close>

definition vde_lc_write :: "env \<Rightarrow> ptr \<Rightarrow> vde_pkt \<Rightarrow> int prog" where
  "vde_lc_write E conn pkt =
     mbind (vde_connection_get_priv E conn) (\<lambda>lc.
     mbind (deref w_lc lc) (\<lambda>l.
     mbind (deref w_lc (lc_peer l)) (\<lambda>peer.
     if lc_peer l = NULL then ret (- 1)
     else mbind (vde_connection_call_read E (lc_conn peer) pkt) (\<lambda>r.
       if r \<noteq> 0 then
         mbind (gets errno) (\<lambda>tmp_errno.
         mbind (if tmp_errno = EPIPE
                then mbind (vde_connection_fini E (lc_conn peer)) (\<lambda>_.
                     vde_connection_delete E (lc_conn peer))
                else ret ()) (\<lambda>_.
         mbind (set_errno tmp_errno) (\<lambda>_. ret (- 1))))
       else ret 0))))"

definition vde_lc_close :: "env \<Rightarrow> ptr \<Rightarrow> unit prog" where
  "vde_lc_close E conn =
     mbind (vde_connection_get_priv E conn) (\<lambda>lc.
     mbind (deref w_lc lc) (\<lambda>l.
     mbind (deref w_lc (lc_peer l)) (\<lambda>peer.
     mbind (if lc_peer l \<noteq> NULL then
              mbind (upd_lc (lc_peer l) (\<lambda>p. p\<lparr>lc_peer := NULL\<rparr>)) (\<lambda>_.
              mbind (vde_connection_call_error E (lc_conn peer) None CONN_READ_CLOSED) (\<lambda>r.
              mbind (gets errno) (\<lambda>e.
              if r \<noteq> 0 \<and> e = EPIPE
              then mbind (vde_connection_fini E (lc_conn peer)) (\<lambda>_.
                   vde_connection_delete E (lc_conn peer))
              else ret ())))
            else ret ()) (\<lambda>_.
     dealloc w_lc w_lc_update lc))))"

text \<open>
  \<open>tmp_errno\<close> is the indeterminate value of the local variable of that name, which two of
  the error paths read without having set it.
\<close>

definition vde_connect_engines_unqueued ::
  "env \<Rightarrow> int \<Rightarrow> ptr \<Rightarrow> ptr \<Rightarrow> ptr \<Rightarrow> ptr \<Rightarrow> ptr \<Rightarrow> int prog" where
  "vde_connect_engines_unqueued E tmp_errno ctx engine1 req1 engine2 req2 =
     mbind (vde_assert E (ctx \<noteq> NULL)) (\<lambda>_.
     mbind (vde_assert E (engine1 \<noteq> NULL)) (\<lambda>_.
     mbind (vde_assert E (engine2 \<noteq> NULL)) (\<lambda>_.
     let err_out = (\<lambda>e. fail_errno e);
         err_lc1 = (\<lambda>lc1 e. mbind (dealloc w_lc w_lc_update lc1) (\<lambda>_. err_out e));
         err_lc2 = (\<lambda>lc1 lc2 e. mbind (dealloc w_lc w_lc_update lc2) (\<lambda>_. err_lc1 lc1 e))
     in
       mbind (alloc w_lc_update E \<lparr>lc_conn = NULL, lc_peer = NULL\<rparr>) (\<lambda>lc1.
       if lc1 = NULL then err_out ENOMEM
       else mbind (alloc w_lc_update E \<lparr>lc_conn = NULL, lc_peer = NULL\<rparr>) (\<lambda>lc2.
       if lc2 = NULL then err_lc1 lc1 ENOMEM
       else
         mbind (vde_connection_new E) (\<lambda>(_, c1).
         mbind (vde_connection_new E) (\<lambda>(_, c2).
         mbind (upd_lc lc1 (\<lambda>l. l\<lparr>lc_conn := c1\<rparr>)) (\<lambda>_.
         mbind (upd_lc lc2 (\<lambda>l. l\<lparr>lc_conn := c2\<rparr>)) (\<lambda>_.
         mbind (upd_lc lc1 (\<lambda>l. l\<lparr>lc_peer := lc2\<rparr>)) (\<lambda>_.
         mbind (upd_lc lc2 (\<lambda>l. l\<lparr>lc_peer := lc1\<rparr>)) (\<lambda>_.
         mbind (vde_connection_init E c1 ctx 0 (Some Vde_lc_write) (Some Vde_lc_close) lc1) (\<lambda>_.
         mbind (vde_connection_init E c2 ctx 0 (Some Vde_lc_write) (Some Vde_lc_close) lc2) (\<lambda>_.
         mbind (vde_engine_new_connection E engine1 c1 req1) (\<lambda>r1.
         if r1 \<noteq> 0 then err_lc2 lc1 lc2 tmp_errno
         else mbind (vde_engine_new_connection E engine2 c2 req2) (\<lambda>r2.
         if r2 \<noteq> 0 then
           mbind (vde_connection_call_error E c1 None CONN_READ_CLOSED) (\<lambda>r.
           mbind (gets errno) (\<lambda>e.
           mbind (if r \<noteq> 0 \<and> e = EPIPE
                  then mbind (vde_connection_fini E c1) (\<lambda>_. vde_connection_delete E c1)
                  else ret ()) (\<lambda>_.
           err_lc2 lc1 lc2 tmp_errno)))
         else ret 0)))))))))))))))"

section \<open>A pair of connected ends\<close>

definition lc_end :: "world \<Rightarrow> ptr \<Rightarrow> ptr \<Rightarrow> ptr \<Rightarrow> bool" where
  "lc_end w conn lc peer \<longleftrightarrow> conn \<noteq> NULL \<and> lc \<noteq> NULL \<and>
     w_lc w lc = Some \<lparr>lc_conn = conn, lc_peer = peer\<rparr> \<and>
     (\<exists>c. w_conn w conn = Some c \<and> be_priv c = lc \<and> be_write c = Some Vde_lc_write \<and>
        be_close c = Some Vde_lc_close)"

definition lc_pair :: "world \<Rightarrow> ptr \<Rightarrow> ptr \<Rightarrow> ptr \<Rightarrow> ptr \<Rightarrow> bool" where
  "lc_pair w c1 l1 c2 l2 \<longleftrightarrow> lc_end w c1 l1 l2 \<and> lc_end w c2 l2 l1 \<and> c1 \<noteq> c2 \<and> l1 \<noteq> l2"

lemma lc_write_delivers:
  assumes "lc_pair w c1 l1 c2 l2" and "w_conn w c2 = Some c" and "read_cb c = Some f"
  shows "vde_lc_write E c1 pkt w =
    mbind (call_read_cb E f c2 pkt (cb_priv c)) (\<lambda>r.
      if r \<noteq> 0 then
        mbind (gets errno) (\<lambda>e.
        mbind (if e = EPIPE
               then mbind (vde_connection_fini E c2) (\<lambda>_. vde_connection_delete E c2)
               else ret ()) (\<lambda>_.
        mbind (set_errno e) (\<lambda>_. ret (- 1))))
      else ret 0) w"
proof -
  obtain d where d: "w_conn w c1 = Some d" "be_priv d = l1" "c1 \<noteq> NULL" "c2 \<noteq> NULL" "l2 \<noteq> NULL"
    "w_lc w l1 = Some \<lparr>lc_conn = c1, lc_peer = l2\<rparr>" "w_lc w l2 = Some \<lparr>lc_conn = c2, lc_peer = l1\<rparr>"
    using assms(1) by (auto simp: lc_pair_def lc_end_def)
  then have "vde_connection_get_priv E c1 w = Inr (l1, w)" by (simp add: conn_getters)
  moreover have "vde_connection_call_read E c2 pkt w = call_read_cb E f c2 pkt (cb_priv c) w"
    using conn_call_read_dispatch [OF assms(2) d(4) assms(3)] .
  ultimately show ?thesis using d by (simp add: vde_lc_write_def mbind_apply deref_Some cong: sum.case_cong if_cong)
qed

section \<open>Properties\<close>

text \<open>
  A packet written on one end of a local connection is delivered at once, and once, to
  the read callback of the other end's user; when that user accepts it, the write returns 0 in
  the state the user left behind.
\<close>

theorem lc_write_delivers_once:
  assumes "lc_pair w c1 l1 c2 l2" and "w_conn w c2 = Some c" and "read_cb c = Some f"
    and "call_read_cb E f c2 pkt (cb_priv c) w = Inr (0, w')"
  shows "vde_lc_write E c1 pkt w = Inr (0, w')"
  using lc_write_delivers [OF assms(1-3), of E pkt] assms(4) by simp

definition lc_world :: world where
  "lc_world = empty_world\<lparr>brk := 20,
     w_lc := [11 \<mapsto> \<lparr>lc_conn = 13, lc_peer = 12\<rparr>, 12 \<mapsto> \<lparr>lc_conn = 14, lc_peer = 11\<rparr>],
     w_conn := [13 \<mapsto> zero_connection\<lparr>be_priv := 11, be_write := Some Vde_lc_write, be_close := Some Vde_lc_close\<rparr>,
       14 \<mapsto> zero_connection\<lparr>be_priv := 12, be_write := Some Vde_lc_write, be_close := Some Vde_lc_close,
         read_cb := Some (Ext_read_cb 0), error_cb := Some (Ext_error_cb 0), cb_priv := 9\<rparr>]\<rparr>"

theorem lc_write_delivers_once_witness:
  "vde_lc_write (base_env\<lparr>call_read_cb := (\<lambda>f c p a. mbind (set_errno (int a)) (\<lambda>_. ret 0))\<rparr>) 13 example_pkt
     lc_world = Inr (0, lc_world\<lparr>errno := 9\<rparr>)"
  using lc_write_delivers_once [of lc_world 13 11 14 12 _ "Ext_read_cb 0"
      "base_env\<lparr>call_read_cb := (\<lambda>f c p a. mbind (set_errno (int a)) (\<lambda>_. ret 0))\<rparr>" example_pkt
      "lc_world\<lparr>errno := 9\<rparr>"]
  by (simp add: lc_world_def lc_pair_def lc_end_def)

text \<open>
  Once one end of a local connection has been closed the other end is unusable: closing
  it, or writing on it, reads through the null pointer that the first close left as its peer,
  before the code tests that pointer.
\<close>

theorem lc_after_peer_close_faults:
  assumes "lc_end w conn lc NULL" and "w_lc w NULL = None"
  shows "vde_lc_close E conn w = Inl Null_Deref \<and> vde_lc_write E conn pkt w = Inl Null_Deref"
  using assms
  by (auto simp: lc_end_def vde_lc_close_def vde_lc_write_def mon deref_None)

theorem lc_after_peer_close_faults_witness:
  "vde_lc_close base_env 13 (lc_world\<lparr>w_lc := [11 \<mapsto> \<lparr>lc_conn = 13, lc_peer = NULL\<rparr>]\<rparr>) = Inl Null_Deref"
  using lc_after_peer_close_faults [of "lc_world\<lparr>w_lc := [11 \<mapsto> \<lparr>lc_conn = 13, lc_peer = NULL\<rparr>]\<rparr>" 13 11 base_env]
  by (simp add: lc_world_def lc_end_def)

text \<open>
  Closing a local connection whose other end's user answers the error with \<open>EPIPE\<close>, as
  the documentation of the callbacks prescribes, never completes: the close of the other end
  dereferences the null pointer set a moment before.
\<close>

theorem lc_close_faults:
  assumes "lc_pair w c1 l1 c2 l2" and "w_lc w NULL = None"
    and "w_conn w c2 = Some c" and "error_cb c = Some f"
    and "call_be_close E Vde_lc_close = vde_lc_close E'"
    and "call_error_cb E f c2 None CONN_READ_CLOSED (cb_priv c)
      (w\<lparr>w_lc := (w_lc w)(l2 \<mapsto> \<lparr>lc_conn = c2, lc_peer = NULL\<rparr>)\<rparr>) = Inr (- 1, w')"
    and "errno w' = EPIPE" and "w_conn w' = w_conn w"
    and "w_lc w' = (w_lc w)(l2 \<mapsto> \<lparr>lc_conn = c2, lc_peer = NULL\<rparr>)"
  shows "vde_lc_close E c1 w = Inl Null_Deref"
proof -
  let ?w1 = "w\<lparr>w_lc := (w_lc w)(l2 \<mapsto> \<lparr>lc_conn = c2, lc_peer = NULL\<rparr>)\<rparr>"
  have ne: "c1 \<noteq> NULL" "c2 \<noteq> NULL" "l2 \<noteq> NULL" "l1 \<noteq> l2"
    using assms(1) by (auto simp: lc_pair_def lc_end_def)
  obtain d where d: "w_conn w c1 = Some d" "be_priv d = l1"
    using assms(1) by (auto simp: lc_pair_def lc_end_def)
  have l: "w_lc w l1 = Some \<lparr>lc_conn = c1, lc_peer = l2\<rparr>" "w_lc w l2 = Some \<lparr>lc_conn = c2, lc_peer = l1\<rparr>"
    using assms(1) by (auto simp: lc_pair_def lc_end_def)
  have c: "be_priv c = l2" "be_close c = Some Vde_lc_close"
    using assms(1,3) by (auto simp: lc_pair_def lc_end_def)
  have e: "vde_connection_call_error E c2 None CONN_READ_CLOSED ?w1 = Inr (- 1, w')"
    using assms(3,4,6) ne(2) by (simp add: conn_call_error_dispatch [where c = c])
  have "vde_lc_close E' c2 w' = Inl Null_Deref"
    using ne c assms(2,3,8,9) by (simp add: vde_lc_close_def mon deref_None)
  then have "vde_connection_fini E c2 w' = Inl Null_Deref"
    using assms(3,5,8) ne(2) c(2) by (simp add: conn_fini_dispatch [where c = c])
  with e d l ne assms(7) show ?thesis by (simp add: vde_lc_close_def mon)
qed

text \<open>The users of the example's ends answer every error with \<open>EPIPE\<close>.\<close>

definition epipe_env :: env where
  "epipe_env = base_env\<lparr>call_be_close := (\<lambda>_. vde_lc_close base_env),
     call_error_cb := (\<lambda>f c p e a. mbind (set_errno EPIPE) (\<lambda>_. ret (- 1)))\<rparr>"

theorem lc_close_faults_witness: "vde_lc_close epipe_env 13 lc_world = Inl Null_Deref"
proof (rule lc_close_faults [where f = "Ext_error_cb 0" and E' = base_env and ?l1.0 = 11 and ?l2.0 = 12 and
      ?c2.0 = 14 and w' = "lc_world\<lparr>w_lc := (w_lc lc_world)(12 \<mapsto> \<lparr>lc_conn = 14, lc_peer = NULL\<rparr>), errno := EPIPE\<rparr>"])
  show "lc_pair lc_world 13 11 14 12" by (simp add: lc_world_def lc_pair_def lc_end_def)
  show "w_lc lc_world NULL = None" by (simp add: lc_world_def)
  show "w_conn lc_world 14 = Some (zero_connection\<lparr>be_priv := 12, be_write := Some Vde_lc_write,
      be_close := Some Vde_lc_close, read_cb := Some (Ext_read_cb 0), error_cb := Some (Ext_error_cb 0),
      cb_priv := 9\<rparr>)"
    by (simp add: lc_world_def)
qed (auto simp: epipe_env_def)

text \<open>The contract of an engine that accepts a connection: it only installs its callbacks.\<close>

definition accepts_conn :: "env \<Rightarrow> eng_new_conn \<Rightarrow> ptr \<Rightarrow> bool" where
  "accepts_conn E f engine \<longleftrightarrow> (\<forall>w conn req c. w_conn w conn = Some c \<longrightarrow>
     (\<exists>w' c'. call_eng_new_conn E f engine conn req w = Inr (0, w') \<and> w_lc w' = w_lc w \<and>
        w_comp w' = w_comp w \<and> w_conn w' = (w_conn w)(conn \<mapsto> c') \<and>
        be_priv c' = be_priv c \<and> be_write c' = be_write c \<and> be_close c' = be_close c))"

definition is_engine :: "world \<Rightarrow> ptr \<Rightarrow> eng_new_conn \<Rightarrow> bool" where
  "is_engine w engine f \<longleftrightarrow> engine \<noteq> NULL \<and>
     (\<exists>c. w_comp w engine = Some c \<and> comp_kind c = VDE_ENGINE \<and> c_eng_new_conn c = Some f)"

lemma engine_new_connection_accepts:
  assumes "is_engine w engine f" and "accepts_conn E f engine" and "w_conn w conn = Some c" and "conn \<noteq> NULL"
  shows "\<exists>w' c'. vde_engine_new_connection E engine conn req w = Inr (0, w') \<and> w_lc w' = w_lc w \<and>
    w_comp w' = w_comp w \<and> w_conn w' = (w_conn w)(conn \<mapsto> c') \<and>
    be_priv c' = be_priv c \<and> be_write c' = be_write c \<and> be_close c' = be_close c"
proof -
  obtain k where k: "engine \<noteq> NULL" "w_comp w engine = Some k" "comp_kind k = VDE_ENGINE"
    "c_eng_new_conn k = Some f"
    using assms(1) by (auto simp: is_engine_def)
  then have "vde_engine_new_connection E engine conn req w = call_eng_new_conn E f engine conn req w"
    using assms(4) by (simp add: vde_engine_new_connection_def mon)
  with assms(2,3) show ?thesis unfolding accepts_conn_def by metis
qed

text \<open>The two connections and their ends, before the engines get them.\<close>

definition lc_started :: "ptr \<Rightarrow> world \<Rightarrow> world" where
  "lc_started ctx w =
     (let l1 = brk w; l2 = Suc l1; c1 = Suc l2; c2 = Suc c1;
          k = zero_connection\<lparr>c_context := ctx, max_pload := 0, be_write := Some Vde_lc_write, be_close := Some Vde_lc_close\<rparr>
      in w\<lparr>brk := Suc c2,
           w_lc := (w_lc w)(l1 \<mapsto> \<lparr>lc_conn = c1, lc_peer = l2\<rparr>, l2 \<mapsto> \<lparr>lc_conn = c2, lc_peer = l1\<rparr>),
           w_conn := (w_conn w)(c1 \<mapsto> k\<lparr>be_priv := l1\<rparr>, c2 \<mapsto> k\<lparr>be_priv := l2\<rparr>)\<rparr>)"

lemma connect_engines_run:
  assumes "\<not> vde3_debug E" and "\<forall>n. \<not> malloc_null E n" and "brk w \<noteq> NULL"
    and "vde_engine_new_connection E engine1 (Suc (Suc (brk w))) req1 (lc_started ctx w) = Inr (0, w2)"
    and "vde_engine_new_connection E engine2 (Suc (Suc (Suc (brk w)))) req2 w2 = Inr (0, w3)"
  shows "vde_connect_engines_unqueued E e ctx engine1 req1 engine2 req2 w = Inr (0, w3)"
  using assms
  by (simp add: vde_connect_engines_unqueued_def Let_def mon vde_connection_new_def vde_connection_init_def
      lc_started_def)


definition accepting_env :: env where
  "accepting_env = base_env\<lparr>vde3_debug := False, call_eng_new_conn := (\<lambda>f e c r. ret 0)\<rparr>"

definition engines_world :: world where
  "engines_world = empty_world\<lparr>brk := 20,
     w_comp := [7 \<mapsto> zero_component\<lparr>c_eng_new_conn := Some (Ext_eng_new_conn 0)\<rparr>,
       8 \<mapsto> zero_component\<lparr>c_eng_new_conn := Some (Ext_eng_new_conn 0)\<rparr>]\<rparr>"


text \<open>
  In the debug build, connecting two engines always stops the program: the connections are
  created with a maximum payload of 0, which the documentation of the engines takes to mean
  unlimited, but \<open>vde_connection_init\<close> asserts that it is positive.
\<close>

theorem connect_engines_debug_stops:
  assumes "vde3_debug E" and "\<forall>n. \<not> malloc_null E n" and "brk w \<noteq> NULL"
  shows "vde_connect_engines_unqueued E e ctx engine1 req1 engine2 req2 w = Inl Assert_Failed"
  using assms
  by (simp add: vde_connect_engines_unqueued_def Let_def mon vde_connection_new_def vde_connection_init_def)

theorem connect_engines_debug_stops_witness:
  "vde_connect_engines_unqueued base_env 0 3 7 0 8 0 engines_world = Inl Assert_Failed"
  using connect_engines_debug_stops [of base_env engines_world] by (simp add: engines_world_def)

end
