(* ===== verification/Backend.thy ===== *)
theory Backend
  imports Connection
begin

text \<open>
  The contract between an engine that sends the same packet on many connections and a
  connection backend that queues packets: writing on one connection always returns, accepts
  the packet exactly when there is room, does not disturb the other connections or the
  engine, and redirects nothing (\<open>peer\<close> is where a connection sends to, \<open>own\<close> the backend's
  record of a connection). \<open>Vde2\<close> interprets the locale for the packet queues of the vde2 transport; the hub's
  broadcast rests on \<open>write_all\<close>.
\<close>

text \<open>What a write leaves alone: everything but the contents of the backend's own records. It makes
  no system call.\<close>

definition engine_frame :: "world \<Rightarrow> world \<Rightarrow> bool" where
  "engine_frame w w' \<longleftrightarrow> w_hub w' = w_hub w \<and> w_cc w' = w_cc w \<and> w_ctrl w' = w_ctrl w \<and>
     w_conn w' = w_conn w \<and> w_comp w' = w_comp w \<and> w_signal w' = w_signal w \<and> w_ctx w' = w_ctx w \<and>
     interned w' = interned w \<and> trace w' = trace w \<and> w_tr w' = w_tr w \<and> w_cm w' = w_cm w \<and>
     w_pc w' = w_pc w \<and> w_lc w' = w_lc w \<and> brk w \<le> brk w' \<and> dom (w_v2c w') = dom (w_v2c w)"

lemma engine_frame_refl [simp]: "engine_frame w w"
  by (simp add: engine_frame_def)

lemma engine_frame_trans: "engine_frame w w1 \<Longrightarrow> engine_frame w1 w2 \<Longrightarrow> engine_frame w w2"
  by (simp add: engine_frame_def)

locale conn_backend =
  fixes put :: "ptr \<Rightarrow> vde_pkt \<Rightarrow> int prog"
    and pkt_ok :: "vde_pkt \<Rightarrow> bool"
    and usable :: "world \<Rightarrow> ptr \<Rightarrow> bool"
    and room :: "world \<Rightarrow> ptr \<Rightarrow> bool"
    and waiting :: "world \<Rightarrow> ptr \<Rightarrow> char list list"
    and contents :: "vde_pkt \<Rightarrow> char list"
    and peer :: "world \<Rightarrow> ptr \<Rightarrow> 'a"
    and own :: "world \<Rightarrow> ptr \<Rightarrow> 'b"
  assumes put_law: "pkt_ok pkt \<Longrightarrow> usable w c \<Longrightarrow>
    \<exists>r w'. put c pkt w = Inr (r, w') \<and> engine_frame w w' \<and>
      usable w' = usable w \<and> (\<forall>d. d \<noteq> c \<longrightarrow> usable w d \<longrightarrow> waiting w' d = waiting w d \<and> room w' d = room w d \<and>
        own w' d = own w d) \<and>
      (if room w c then r = 0 \<and> waiting w' c = waiting w c @ [contents pkt]
       else r = - 1 \<and> waiting w' c = waiting w c) \<and>
      (\<forall>d. usable w d \<longrightarrow> peer w' d = peer w d)"
begin

text \<open>Writing on distinct connections in turn gives each of them the packet once, if it has room.\<close>

lemma write_all:
  assumes "pkt_ok pkt" and "\<forall>c\<in>set cs. usable w c" and "distinct cs"
  shows "\<exists>w'. mapM (\<lambda>c. mbind (put c pkt) (\<lambda>_. ret ())) cs w = Inr ((), w') \<and>
    engine_frame w w' \<and> usable w' = usable w \<and>
    (\<forall>d. usable w d \<longrightarrow> waiting w' d =
      (if d \<in> set cs \<and> room w d then waiting w d @ [contents pkt] else waiting w d)) \<and>
    (\<forall>d. usable w d \<longrightarrow> peer w' d = peer w d) \<and> (\<forall>d. usable w d \<longrightarrow> d \<notin> set cs \<longrightarrow> own w' d = own w d)"
  using assms
proof (induction cs arbitrary: w)
  case Nil
  then show ?case by simp
next
  case (Cons c cs)
  then obtain r w1 where w1: "put c pkt w = Inr (r, w1)" "engine_frame w w1"
    "usable w1 = usable w"
    "\<forall>d. d \<noteq> c \<longrightarrow> usable w d \<longrightarrow> waiting w1 d = waiting w d \<and> room w1 d = room w d \<and> own w1 d = own w d"
    "if room w c then r = 0 \<and> waiting w1 c = waiting w c @ [contents pkt]
     else r = - 1 \<and> waiting w1 c = waiting w c"
    "\<forall>d. usable w d \<longrightarrow> peer w1 d = peer w d"
    using put_law [OF assms(1), of w c] by auto
  have usable1: "\<forall>d\<in>set cs. usable w1 d" using Cons.prems(2) w1(3) by simp
  obtain w' where w': "mapM (\<lambda>c. mbind (put c pkt) (\<lambda>_. ret ())) cs w1 = Inr ((), w')"
    "engine_frame w1 w'" "usable w' = usable w1"
    "\<forall>d. usable w1 d \<longrightarrow> waiting w' d =
      (if d \<in> set cs \<and> room w1 d then waiting w1 d @ [contents pkt] else waiting w1 d)"
    "\<forall>d. usable w1 d \<longrightarrow> peer w' d = peer w1 d"
    "\<forall>d. usable w1 d \<longrightarrow> d \<notin> set cs \<longrightarrow> own w' d = own w1 d"
    using Cons.IH [OF \<open>pkt_ok pkt\<close> usable1 distinct_tl [OF \<open>distinct (c # cs)\<close>, simplified]] by blast
  have "waiting w' d = (if d \<in> set (c # cs) \<and> room w d then waiting w d @ [contents pkt] else waiting w d)"
    if "usable w d" for d
  proof (cases "d = c")
    case True
    with Cons.prems(3) w1(3,5) w'(4) that show ?thesis by (auto split: if_splits)
  next
    case False
    with w1(3,4) w'(4) that show ?thesis by auto
  qed
  moreover have "mapM (\<lambda>c. mbind (put c pkt) (\<lambda>_. ret ())) (c # cs) w = Inr ((), w')"
    using w1(1) w'(1) by (simp add: mbind_apply)
  moreover have "usable w' = usable w" using w1(3) w'(3) by simp
  moreover have "\<forall>d. usable w d \<longrightarrow> peer w' d = peer w d" using w1(3,6) w'(5) by simp
  moreover have "\<forall>d. usable w d \<longrightarrow> d \<notin> set (c # cs) \<longrightarrow> own w' d = own w d" using w1(3,4) w'(6) by simp
  ultimately show ?case using engine_frame_trans [OF w1(2) w'(2)] by blast
qed

end

end
