(* ===== verification/Hub.thy ===== *)
theory Hub
  imports Component Backend
begin

text \<open>
  The hub engine, \<^verbatim>\<open>src/engine_hub.c\<close>: every packet read from a port is written to all the
  other ports. Ports join at the front of the list (\<open>hub_engine_newconn\<close>) and leave when
  their connection reports a fatal error (\<open>hub_engine_errorcb\<close>). The wrappers that check the
  arguments of the commands, and the array that names them, are generated by the build.
\<close>

section \<open>Operations\<close>

abbreviation upd_hub :: "ptr \<Rightarrow> (hub_engine \<Rightarrow> hub_engine) \<Rightarrow> unit prog" where
  "upd_hub \<equiv> store w_hub w_hub_update"

definition TIMEOUT :: int where "TIMEOUT = 5"

definition TIMES :: "32 word" where "TIMES = 10"

definition engine_hub_signals :: "vde_signal list" where
  "engine_hub_signals =
     [\<lparr>sig_name = Some ''port_new'', sig_description = None, callbacks = []\<rparr>,
      \<lparr>sig_name = Some ''port_del'', sig_description = None, callbacks = []\<rparr>,
      \<lparr>sig_name = None, sig_description = None, callbacks = []\<rparr>]"

definition get_ports :: "ptr \<Rightarrow> ptr list prog" where
  "get_ports hub = mbind (deref w_hub hub) (\<lambda>h. ret (ports h))"

text \<open>The commands return their status and the object stored through \<open>out\<close>.\<close>

definition engine_hub_status :: "env \<Rightarrow> ptr \<Rightarrow> (int \<times> vde_sobj) prog" where
  "engine_hub_status E component =
     mbind (vde_component_get_priv E component) (\<lambda>hub.
     mbind (get_ports hub) (\<lambda>ps.
     ret (0, SInt (int (length ps)))))"

text \<open>The conversion \<^verbatim>\<open>%i\<close> of \<open>sprintf\<close>.\<close>

definition int_digits :: "int \<Rightarrow> string" where
  "int_digits i = (if i < 0 then CHR ''-'' # dec_digits (nat (- i)) else dec_digits (nat i))"

definition engine_hub_printport :: "env \<Rightarrow> ptr \<Rightarrow> int \<Rightarrow> (int \<times> vde_sobj) prog" where
  "engine_hub_printport E component port =
     ret (0, SString (''please print something useful for port '' @ int_digits port))"

definition hub_engine_readcb :: "env \<Rightarrow> ptr \<Rightarrow> vde_pkt \<Rightarrow> ptr \<Rightarrow> int prog" where
  "hub_engine_readcb E conn pkt hub =
     mbind (get_ports hub) (\<lambda>ps.
     mbind (foreach (get_ports hub)
       (\<lambda>port. if port \<noteq> conn then mbind (vde_connection_write E port pkt) (\<lambda>_. ret ()) else ret ())
       ps) (\<lambda>_.
     ret 0))"

definition hub_engine_errorcb :: "env \<Rightarrow> ptr \<Rightarrow> vde_pkt option \<Rightarrow> vde_conn_error \<Rightarrow> ptr \<Rightarrow> int prog" where
  "hub_engine_errorcb E conn pkt err hub =
     (if err = CONN_WRITE_DELAY then ret 0
      else
        mbind (upd_hub hub (\<lambda>h. h\<lparr>ports := remove1 conn (ports h)\<rparr>)) (\<lambda>_.
        mbind (deref w_hub hub) (\<lambda>h.
        mbind (vde_component_signal_raise E (hub_component h) (Some ''port_del'')
          (SArray [SInt (int (length (ports h)))])) (\<lambda>_.
        fail_errno EPIPE))))"

definition hub_engine_newconn :: "env \<Rightarrow> ptr \<Rightarrow> ptr \<Rightarrow> ptr \<Rightarrow> int prog" where
  "hub_engine_newconn E component conn req =
     mbind (vde_component_get_priv E component) (\<lambda>hub.
     mbind (vde_connection_max_payload E conn) (\<lambda>max_payload.
     if max_payload \<noteq> 0 \<and> unat max_payload < SIZEOF_ETH_FRAME then ret (- 1)
     else
       mbind (upd_hub hub (\<lambda>h. h\<lparr>ports := conn # ports h\<rparr>)) (\<lambda>_.
       mbind (vde_connection_set_callbacks E conn (Some Hub_engine_readcb) None
         (Some Hub_engine_errorcb) hub) (\<lambda>_.
       mbind (vde_connection_set_pkt_properties E conn 0 0) (\<lambda>_.
       mbind (vde_connection_set_send_properties E conn TIMES \<lparr>tv_sec = TIMEOUT, tv_usec = 0\<rparr>) (\<lambda>_.
       mbind (get_ports hub) (\<lambda>ps.
       mbind (vde_component_signal_raise E component (Some ''port_new'')
         (SArray [SInt (int (length ps))])) (\<lambda>_.
       ret 0))))))))"

definition engine_hub_init :: "env \<Rightarrow> ptr \<Rightarrow> vde_sobj \<Rightarrow> int prog" where
  "engine_hub_init E component params =
     mbind (vde_assert E (component \<noteq> NULL)) (\<lambda>_.
     mbind (alloc w_hub_update E \<lparr>hub_component = NULL, ports = []\<rparr>) (\<lambda>hub.
     if hub = NULL then fail_errno ENOMEM
     else
       mbind (upd_hub hub (\<lambda>h. h\<lparr>hub_component := component\<rparr>)) (\<lambda>_.
       mbind (vde_component_commands_register E component (engine_hub_commands E)) (\<lambda>r.
       if r \<noteq> 0 then mbind (dealloc w_hub w_hub_update hub) (\<lambda>_. ret (- 1))
       else mbind (vde_component_signals_register E component engine_hub_signals) (\<lambda>r.
       if r \<noteq> 0 then mbind (dealloc w_hub w_hub_update hub) (\<lambda>_. ret (- 1))
       else mbind (vde_component_set_priv E component hub) (\<lambda>_. ret 0))))))"

definition engine_hub_fini :: "env \<Rightarrow> ptr \<Rightarrow> unit prog" where
  "engine_hub_fini E component =
     mbind (vde_component_get_priv E component) (\<lambda>hub.
     mbind (get_ports hub) (\<lambda>ps.
     mbind (foreach (get_ports hub)
       (\<lambda>port. mbind (vde_connection_fini E port) (\<lambda>_. vde_connection_delete E port))
       ps) (\<lambda>_.
     mbind (dealloc w_hub w_hub_update hub) (\<lambda>_.
     mbind (vde_component_commands_deregister E component (engine_hub_commands E)) (\<lambda>_.
     mbind (vde_component_signals_deregister E component engine_hub_signals) (\<lambda>_.
     ret ()))))))"

definition engine_hub_module :: vde_module where
  "engine_hub_module = \<lparr>m_kind = VDE_ENGINE, m_family = ''hub'',
     m_cops = Some \<lparr>ops_init = Some Engine_hub_init, ops_fini = Some Engine_hub_fini\<rparr>,
     m_cm_connect = None, m_cm_listen = None, m_eng_new_conn = Some Hub_engine_newconn,
     m_tr_connect = None, m_tr_listen = None, m_dlhandle = NULL\<rparr>"

section \<open>Ports\<close>

text \<open>
  Every port of a hub is an allocated connection that calls back into this hub, and no
  connection is a port twice.
\<close>

definition hub_port :: "world \<Rightarrow> ptr \<Rightarrow> ptr \<Rightarrow> bool" where
  "hub_port w hub p \<longleftrightarrow> p \<noteq> NULL \<and>
     (\<exists>c. w_conn w p = Some c \<and> read_cb c = Some Hub_engine_readcb \<and>
        error_cb c = Some Hub_engine_errorcb \<and> cb_priv c = hub)"

definition hub_inv :: "ptr \<Rightarrow> world \<Rightarrow> bool" where
  "hub_inv hub w \<longleftrightarrow> (\<exists>h. w_hub w hub = Some h \<and> distinct (ports h) \<and> (\<forall>p\<in>set (ports h). hub_port w hub p))"

lemma get_ports_apply [mon]: "w_hub w hub = Some h \<Longrightarrow> get_ports hub w = Inr (ports h, w)"
  by (simp add: get_ports_def)

text \<open>What \<open>hub_engine_newconn\<close> does to the connection.\<close>

definition hub_conn :: "ptr \<Rightarrow> vde_connection \<Rightarrow> vde_connection" where
  "hub_conn hub c = c\<lparr>read_cb := Some Hub_engine_readcb, write_cb := None,
     error_cb := Some Hub_engine_errorcb, cb_priv := hub, pkt_head_sz := 0, pkt_tail_sz := 0,
     send_maxtries := TIMES, send_maxtimeout := \<lparr>tv_sec = TIMEOUT, tv_usec = 0\<rparr>\<rparr>"

lemma hub_newconn_eval:
  assumes "w_comp w component = Some k" and "component \<noteq> NULL" and "comp_priv k = hub"
    and "w_hub w hub = Some h" and "w_conn w conn = Some c" and "conn \<noteq> NULL"
  shows "hub_engine_newconn E component conn req w =
    (if max_pload c \<noteq> 0 \<and> unat (max_pload c) < SIZEOF_ETH_FRAME then Inr (- 1, w)
     else mbind (vde_component_signal_raise E component (Some ''port_new'')
            (SArray [SInt (1 + int (length (ports h)))])) (\<lambda>_. ret 0)
          (w\<lparr>w_hub := (w_hub w)(hub \<mapsto> h\<lparr>ports := conn # ports h\<rparr>),
             w_conn := (w_conn w)(conn \<mapsto> hub_conn hub c)\<rparr>))"
  using assms
  by (simp add: hub_engine_newconn_def mon hub_conn_def timeradd_def TIMEOUT_def)

lemma hub_errorcb_eval:
  assumes "w_hub w hub = Some h"
  shows "hub_engine_errorcb E conn pkt err hub w =
    (if err = CONN_WRITE_DELAY then Inr (0, w)
     else mbind (vde_component_signal_raise E (hub_component h) (Some ''port_del'')
            (SArray [SInt (int (length (remove1 conn (ports h))))])) (\<lambda>_. fail_errno EPIPE)
          (w\<lparr>w_hub := (w_hub w)(hub \<mapsto> h\<lparr>ports := remove1 conn (ports h)\<rparr>)\<rparr>))"
  using assms by (simp add: hub_engine_errorcb_def mon)

lemma hub_readcb_eval:
  assumes "P w" and "\<And>w. P w \<Longrightarrow> w_hub w hub = Some h" and "distinct (ports h)"
    and "\<And>p. p \<in> set (ports h) \<Longrightarrow> p \<noteq> conn \<Longrightarrow> keeps P (vde_connection_write E p pkt)"
  shows "hub_engine_readcb E conn pkt hub w =
    mbind (mapM (\<lambda>p. mbind (vde_connection_write E p pkt) (\<lambda>_. ret ()))
      (filter (\<lambda>p. p \<noteq> conn) (ports h))) (\<lambda>_. ret 0) w"
proof -
  let ?b = "\<lambda>p. if p \<noteq> conn then mbind (vde_connection_write E p pkt) (\<lambda>_. ret ()) else ret ()"
  have "foreach (get_ports hub) ?b (ports h) w = mapM ?b (ports h) w"
    by (rule foreach_eq_mapM [where P = P and pre = "[]"])
      (use assms in \<open>auto simp: mon intro!: keep\<close>)
  moreover have "mapM ?b (ports h) = mapM (\<lambda>p. mbind (vde_connection_write E p pkt) (\<lambda>_. ret ()))
      (filter (\<lambda>p. p \<noteq> conn) (ports h))"
    by (rule mapM_if_filter)
  ultimately show ?thesis using assms(1,2) by (simp add: hub_engine_readcb_def mon mbind_apply)
qed

section \<open>Properties\<close>

lemma hub_inv_add:
  assumes "hub_inv hub w" and "w_hub w hub = Some h" and "w_conn w conn = Some c" and "conn \<noteq> NULL"
    and "conn \<notin> set (ports h)"
  shows "hub_inv hub (w\<lparr>w_hub := (w_hub w)(hub \<mapsto> h\<lparr>ports := conn # ports h\<rparr>),
    w_conn := (w_conn w)(conn \<mapsto> hub_conn hub c)\<rparr>)"
  using assms by (auto simp: hub_inv_def hub_port_def hub_conn_def)

lemma hub_inv_remove:
  "hub_inv hub w \<Longrightarrow> w_hub w hub = Some h \<Longrightarrow>
    hub_inv hub (w\<lparr>w_hub := (w_hub w)(hub \<mapsto> h\<lparr>ports := remove1 conn (ports h)\<rparr>)\<rparr>)"
  by (auto simp: hub_inv_def hub_port_def dest: notin_set_remove1)

text \<open>C33: the hub accepts a new connection unless its payload limit is set and too small for an
  Ethernet frame; then it answers \<open>- 1\<close> and changes nothing, \<open>errno\<close> included. An accepted
  connection becomes the first port and calls back into this hub, all other ports stay, the
  port list stays well formed, and \<open>port_new\<close> is raised with the new number of ports.\<close>

theorem hub_newconn_outcome:
  assumes "w_comp w component = Some k" and "component \<noteq> NULL" and "comp_priv k = hub"
    and "hub_inv hub w" and "w_hub w hub = Some h" and "w_conn w conn = Some c" and "conn \<noteq> NULL"
    and "conn \<notin> set (ports h)"
  shows "(max_pload c \<noteq> 0 \<and> unat (max_pload c) < 1518 \<longrightarrow>
      hub_engine_newconn E component conn req w = Inr (- 1, w)) \<and>
    (max_pload c = 0 \<or> 1518 \<le> unat (max_pload c) \<longrightarrow>
      (\<exists>w1. hub_inv hub w1 \<and> w_hub w1 hub = Some (h\<lparr>ports := conn # ports h\<rparr>) \<and> hub_port w1 hub conn \<and>
        (\<forall>p. p \<noteq> conn \<longrightarrow> w_conn w1 p = w_conn w p) \<and>
        hub_engine_newconn E component conn req w =
          mbind (vde_component_signal_raise E component (Some ''port_new'')
            (SArray [SInt (1 + int (length (ports h)))])) (\<lambda>_. ret 0) w1))"
proof -
  let ?w1 = "w\<lparr>w_hub := (w_hub w)(hub \<mapsto> h\<lparr>ports := conn # ports h\<rparr>),
    w_conn := (w_conn w)(conn \<mapsto> hub_conn hub c)\<rparr>"
  have inv: "hub_inv hub ?w1" using hub_inv_add [OF assms(4-8)] .
  have port: "hub_port ?w1 hub conn" using assms(7) by (simp add: hub_port_def hub_conn_def)
  note eval = hub_newconn_eval [OF assms(1-3,5-7), of E req]
  show ?thesis
  proof (intro conjI impI)
    assume "max_pload c \<noteq> 0 \<and> unat (max_pload c) < 1518"
    then show "hub_engine_newconn E component conn req w = Inr (- 1, w)"
      by (simp add: eval size_defs)
  next
    assume a: "max_pload c = 0 \<or> 1518 \<le> unat (max_pload c)"
    have "hub_engine_newconn E component conn req w =
        mbind (vde_component_signal_raise E component (Some ''port_new'')
          (SArray [SInt (1 + int (length (ports h)))])) (\<lambda>_. ret 0) ?w1"
      unfolding eval using a by (auto simp: size_defs)
    with inv port show "\<exists>w1. hub_inv hub w1 \<and> w_hub w1 hub = Some (h\<lparr>ports := conn # ports h\<rparr>) \<and>
        hub_port w1 hub conn \<and> (\<forall>p. p \<noteq> conn \<longrightarrow> w_conn w1 p = w_conn w p) \<and>
        hub_engine_newconn E component conn req w =
          mbind (vde_component_signal_raise E component (Some ''port_new'')
            (SArray [SInt (1 + int (length (ports h)))])) (\<lambda>_. ret 0) w1"
      by (intro exI [of _ ?w1]) simp
  qed
qed

definition example_port :: vde_connection where
  "example_port = \<lparr>attributes = NULL, c_context = 3, max_pload = 1518, pkt_head_sz = 0,
     pkt_tail_sz = 0, send_maxtries = 0, send_maxtimeout = \<lparr>tv_sec = 0, tv_usec = 0\<rparr>,
     be_write = None, be_close = None, be_priv = NULL, read_cb = None, write_cb = None,
     error_cb = None, cb_priv = NULL\<rparr>"

definition example_hub_world :: world where
  "example_hub_world = empty_world\<lparr>brk := 100, w_comp := [50 \<mapsto> zero_component\<lparr>comp_priv := 40\<rparr>],
     w_hub := [40 \<mapsto> \<lparr>hub_component = 50, ports = [20]\<rparr>],
     w_conn := [20 \<mapsto> hub_conn 40 example_port, 21 \<mapsto> example_port, 22 \<mapsto> example_port\<lparr>max_pload := 1500\<rparr>]\<rparr>"

lemma example_hub_facts:
  "hub_inv 40 example_hub_world" "w_hub example_hub_world 40 = Some \<lparr>hub_component = 50, ports = [20]\<rparr>"
  "w_comp example_hub_world 50 = Some (zero_component\<lparr>comp_priv := 40\<rparr>)"
  "w_conn example_hub_world 21 = Some example_port"
  by (simp_all add: hub_inv_def hub_port_def example_hub_world_def hub_conn_def)

theorem hub_newconn_outcome_witness:
  "\<exists>w1. hub_engine_newconn base_env 50 21 NULL example_hub_world = Inr (0, w1) \<and>
    w_hub w1 40 = Some \<lparr>hub_component = 50, ports = [21, 20]\<rparr> \<and> hub_port w1 40 21"
proof -
  have "comp_priv (zero_component\<lparr>comp_priv := 40\<rparr>) = 40" "(50 :: nat) \<noteq> NULL" "(21 :: nat) \<noteq> NULL"
    "21 \<notin> set (ports \<lparr>hub_component = 50, ports = [20]\<rparr>)" "1518 \<le> unat (max_pload example_port)"
    by (simp_all add: example_port_def)
  with hub_newconn_outcome [OF example_hub_facts(3) _ _ example_hub_facts(1,2,4)] obtain w1 where
    w1: "w_hub w1 40 = Some \<lparr>hub_component = 50, ports = [21, 20]\<rparr>" "hub_port w1 40 21"
    "hub_engine_newconn base_env 50 21 NULL example_hub_world =
      mbind (vde_component_signal_raise base_env 50 (Some ''port_new'') (SArray [SInt 2])) (\<lambda>_. ret 0) w1"
    by fastforce
  have "hub_engine_newconn base_env 50 21 NULL example_hub_world = Inr (0, example_hub_world\<lparr>
      w_hub := (w_hub example_hub_world)(40 \<mapsto> \<lparr>hub_component = 50, ports = [21, 20]\<rparr>),
      w_conn := (w_conn example_hub_world)(21 \<mapsto> hub_conn 40 example_port)\<rparr>)"
    using example_hub_facts
    by (simp add: hub_newconn_eval mon vde_component_signal_raise_def vde_component_signal_get_def
        zero_component_def example_port_def size_defs example_hub_world_def)
  then show ?thesis using w1 by (auto simp: hub_port_def hub_conn_def)
qed

text \<open>A delayed write leaves the hub as it is; any other error takes the connection out of the port
  list, keeps the other ports in order, raises \<open>port_del\<close> with the number of ports left and
  answers \<open>- 1\<close> with \<open>errno\<close> set to \<open>EPIPE\<close>, which tells the transport to close the connection.\<close>

theorem hub_errorcb_outcome:
  assumes "hub_inv hub w" and "w_hub w hub = Some h"
  shows "hub_engine_errorcb E conn pkt CONN_WRITE_DELAY hub w = Inr (0, w) \<and>
    (err \<noteq> CONN_WRITE_DELAY \<longrightarrow> (\<exists>w1. hub_inv hub w1 \<and>
      w_hub w1 hub = Some (h\<lparr>ports := filter (\<lambda>p. p \<noteq> conn) (ports h)\<rparr>) \<and>
      hub_engine_errorcb E conn pkt err hub w =
        mbind (vde_component_signal_raise E (hub_component h) (Some ''port_del'')
          (SArray [SInt (int (length (filter (\<lambda>p. p \<noteq> conn) (ports h))))])) (\<lambda>_. fail_errno EPIPE) w1))"
proof -
  have d: "distinct (ports h)" using assms by (auto simp: hub_inv_def)
  have "hub_inv hub (w\<lparr>w_hub := (w_hub w)(hub \<mapsto> h\<lparr>ports := remove1 conn (ports h)\<rparr>)\<rparr>)"
    using hub_inv_remove [OF assms] .
  then show ?thesis
    using hub_errorcb_eval [OF assms(2)] filter_neq_remove1 [OF d, of conn] by auto
qed

theorem hub_errorcb_outcome_witness:
  "\<exists>w1. hub_engine_errorcb base_env 20 None CONN_READ_CLOSED 40 example_hub_world =
      mbind (vde_component_signal_raise base_env 50 (Some ''port_del'') (SArray [SInt 0]))
        (\<lambda>_. fail_errno EPIPE) w1 \<and> w_hub w1 40 = Some \<lparr>hub_component = 50, ports = []\<rparr>"
  using hub_errorcb_outcome [OF example_hub_facts(1,2), where err = CONN_READ_CLOSED and E = base_env and
      conn = 20 and pkt = None] by auto

end
