(* ===== verification/Vde2.thy ===== *)
theory Vde2
  imports Context Sobj Backend
begin

text \<open>
  The vde2-compatible transport, \<^verbatim>\<open>src/transport_vde2.c\<close>. A listening socket accepts control
  connections; the handshake reads a request that names the peer's datagram socket, creates
  and names a datagram socket of its own and tells the peer; from then on frames travel over
  the datagram sockets. Outgoing packets wait in a queue until the socket is writable: the
  head of the list \<open>pkt_queue\<close> is the youngest packet, as in the code, which pushes at the
  head and pops at the tail.

  System calls and the application's event handler are parameters of the environment; the
  loop that drains the queue calls back into the engine, which may queue further packets, so
  it carries a bound on its number of rounds.
\<close>

section \<open>Constants and layouts\<close>

definition MAX_HEAD_SZ :: "32 word" where "MAX_HEAD_SZ = 4"

definition MAX_TAIL_SZ :: "32 word" where "MAX_TAIL_SZ = 0"

definition PKT_DATA_SZ :: nat where
  "PKT_DATA_SZ = SIZEOF_VDE_HDR + unat MAX_HEAD_SZ + SIZEOF_ETH_FRAME + unat MAX_TAIL_SZ"

definition UNIX_PATH_MAX :: nat where "UNIX_PATH_MAX = 108"

definition MAXQLEN :: nat where "MAXQLEN = 4192"

definition LISTEN_QUEUE :: nat where "LISTEN_QUEUE = 15"

definition SWITCH_MAGIC :: nat where "SWITCH_MAGIC = 0xfeedface"

definition REQBUFLEN :: nat where "REQBUFLEN = 256"

definition VDE_EV_READ :: nat where "VDE_EV_READ = 0x02"

definition VDE_EV_WRITE :: nat where "VDE_EV_WRITE = 0x04"

definition VDE_EV_PERSIST :: nat where "VDE_EV_PERSIST = 0x10"

lemmas vde2_consts = MAX_HEAD_SZ_def MAX_TAIL_SZ_def PKT_DATA_SZ_def UNIX_PATH_MAX_def MAXQLEN_def
  LISTEN_QUEUE_def SWITCH_MAGIC_def REQBUFLEN_def VDE_EV_READ_def VDE_EV_WRITE_def VDE_EV_PERSIST_def

abbreviation upd_v2c :: "ptr \<Rightarrow> (vde2_conn \<Rightarrow> vde2_conn) \<Rightarrow> unit prog" where
  "upd_v2c \<equiv> store w_v2c w_v2c_update"

abbreviation upd_tr :: "ptr \<Rightarrow> (vde2_tr \<Rightarrow> vde2_tr) \<Rightarrow> unit prog" where
  "upd_tr \<equiv> store w_tr w_tr_update"

definition zero_sa :: sockaddr_un where "zero_sa = \<lparr>sun_family = 0, sun_path = []\<rparr>"

definition AF_UNIX :: int where "AF_UNIX = 1"

definition zero_vde2_conn :: vde2_conn where
  "zero_vde2_conn = \<lparr>data_fd = 0, data_ev_rd = NULL, data_ev_wr = NULL, ctl_fd = 0, ctl_ev = NULL,
     pkt_queue = [], local_sa = zero_sa, remote_sa = zero_sa, remote_request = None,
     v2_conn = NULL, v2_transport = NULL\<rparr>"

text \<open>
  The packet inside a \<open>vde2_pkt\<close>: its data area consists of the padding of \<open>vde_pkt\<close> and of
  the array \<open>data\<close>. Its initial contents are indeterminate; no correct run reads them.
\<close>

definition blank_pkt :: vde_pkt where
  "blank_pkt = \<lparr>p_head = 0, p_payload = 0, p_tail = 0, data_size = 0,
     p_data = replicate (SIZEOF_VDE_PKT - OFFSETOF_DATA + PKT_DATA_SZ) (CHR 0x00)\<rparr>"

section \<open>Events on an established connection\<close>

text \<open>\<^verbatim>\<open>vde_connection_fini(conn); vde_connection_delete(conn);\<close>\<close>

definition close_conn :: "env \<Rightarrow> ptr \<Rightarrow> unit prog" where
  "close_conn E conn = mbind (vde_connection_fini E conn) (\<lambda>_. vde_connection_delete E conn)"

definition vde2_conn_read_ctl_event :: "env \<Rightarrow> ptr \<Rightarrow> unit prog" where
  "vde2_conn_read_ctl_event E arg =
     mbind (deref w_v2c arg) (\<lambda>v.
     mbind (syscall E (Sys_read (ctl_fd v) REQBUFLEN)) (\<lambda>r.
     let fatal = mbind (vde_connection_call_error E (v2_conn v) None CONN_READ_CLOSED) (\<lambda>rv.
                 mbind (gets errno) (\<lambda>e.
                 if rv \<noteq> 0 \<and> e = EPIPE then close_conn E (v2_conn v) else ret ()))
     in if retval r < 0 then
          mbind (gets errno) (\<lambda>e. if e = EAGAIN then ret () else fatal)
        else if 0 < retval r then ret ()
        else fatal))"

text \<open>
  The test \<^verbatim>\<open>len >= sizeof(struct eth_hdr)\<close> converts \<open>len\<close> to the unsigned type of
  \<open>sizeof\<close>.
\<close>

definition vde2_conn_read_data_event :: "env \<Rightarrow> ptr \<Rightarrow> unit prog" where
  "vde2_conn_read_data_event E arg =
     mbind (deref w_v2c arg) (\<lambda>v.
     let conn = v2_conn v in
     mbind (vde_connection_get_pkt_headsize E conn) (\<lambda>head.
     mbind (vde_connection_get_pkt_tailsize E conn) (\<lambda>tail.
     if head \<le> MAX_HEAD_SZ \<and> tail \<le> MAX_TAIL_SZ then
       let pkt = vde_pkt_init blank_pkt (of_nat PKT_DATA_SZ) head tail in
       mbind (syscall E (Sys_recvfrom (data_fd v) SIZEOF_ETH_FRAME)) (\<lambda>r.
       let len = retval r in
       mbind (if 0 \<le> len
              then lift (mem_write (p_data pkt) (p_payload pkt)
                     (take (min (nat len) SIZEOF_ETH_FRAME) (retbytes r)))
              else ret (p_data pkt)) (\<lambda>d.
       let pkt = pkt\<lparr>p_data := d\<rparr> in
       mbind (if int SIZEOF_ETH_HDR \<le> uint (word_of_int len :: 64 word) then
                mbind (lift (set_pkt_len pkt (nat (len mod 65536)))) (\<lambda>pkt.
                mbind (vde_connection_call_read E conn pkt) (\<lambda>rv.
                if rv \<noteq> 0 then gets errno else ret 0))
              else ret 0) (\<lambda>cb_errno.
       if cb_errno = EPIPE then close_conn E conn else ret ())))
     else ret ())))"

text \<open>How the sending loop ends: with the connection to be closed, with the queue empty or by giving up.\<close>

datatype send_end = Err_close | Queue_empty | Given_up

text \<open>\<open>v\<close> is the record as read at this point; \<open>cb_errno\<close> is carried from round to round.\<close>

fun vde2_send_loop :: "nat \<Rightarrow> env \<Rightarrow> ptr \<Rightarrow> int \<Rightarrow> send_end prog" where
  "vde2_send_loop 0 E arg cb_errno = mfail Out_Of_Fuel"
| "vde2_send_loop (Suc n) E arg cb_errno =
     mbind (deref w_v2c arg) (\<lambda>v.
     let conn = v2_conn v in
     if pkt_queue v = [] then ret Queue_empty
     else
       let p = last (pkt_queue v); pkt = v2_pkt p in
       mbind (upd_v2c arg (\<lambda>v. v\<lparr>pkt_queue := butlast (pkt_queue v)\<rparr>)) (\<lambda>_.
       mbind (lift (pkt_bytes pkt)) (\<lambda>bytes.
       mbind (lift (get_pkt_len pkt)) (\<lambda>pkt_len.
       mbind (syscall E (Sys_sendto (data_fd v) bytes (remote_sa v))) (\<lambda>r.
       mbind (gets errno) (\<lambda>e.
       if retval r = int pkt_len then
         mbind (vde_connection_call_write E conn pkt) (\<lambda>rv.
         mbind (if rv \<noteq> 0 then gets errno else ret cb_errno) (\<lambda>cb_errno.
         if cb_errno = EPIPE then ret Err_close
         else vde2_send_loop n E arg cb_errno))
       else if retval r < 0 \<and> e \<noteq> EAGAIN then
         mbind (vde_connection_call_error E conn (Some pkt) CONN_WRITE_CLOSED) (\<lambda>rv.
         mbind (if rv \<noteq> 0 then gets errno else ret cb_errno) (\<lambda>cb_errno.
         if cb_errno = EPIPE then ret Err_close else ret Given_up))
       else
         let p = p\<lparr>numtries := numtries p + 1\<rparr> in
         mbind (vde_connection_get_send_maxtries E conn) (\<lambda>maxtries.
         if maxtries < numtries p then
           mbind (vde_connection_call_error E conn (Some pkt) CONN_WRITE_DELAY) (\<lambda>rv.
           mbind (if rv \<noteq> 0 then gets errno else ret cb_errno) (\<lambda>cb_errno.
           if cb_errno = EPIPE then ret Err_close else ret Given_up))
         else
           mbind (upd_v2c arg (\<lambda>v. v\<lparr>pkt_queue := pkt_queue v @ [p]\<rparr>)) (\<lambda>_. ret Given_up))))))))"

definition vde2_conn_write_data_event :: "nat \<Rightarrow> env \<Rightarrow> ptr \<Rightarrow> unit prog" where
  "vde2_conn_write_data_event n E arg =
     mbind (deref w_v2c arg) (\<lambda>v.
     let conn = v2_conn v in
     mbind (vde2_send_loop n E arg 0) (\<lambda>outcome.
     case outcome of
       Err_close \<Rightarrow> close_conn E conn
     | Given_up \<Rightarrow> ret ()
     | Queue_empty \<Rightarrow>
         mbind (vde_connection_get_context E conn) (\<lambda>ctx.
         mbind (deref w_v2c arg) (\<lambda>v.
         mbind (vde_context_event_del E ctx (data_ev_wr v)) (\<lambda>_.
         upd_v2c arg (\<lambda>v. v\<lparr>data_ev_wr := NULL\<rparr>))))))"

definition vde2_conn_write :: "env \<Rightarrow> ptr \<Rightarrow> vde_pkt \<Rightarrow> int prog" where
  "vde2_conn_write E conn pkt =
     mbind (vde_connection_get_priv E conn) (\<lambda>v2.
     mbind (deref w_v2c v2) (\<lambda>v.
     if MAXQLEN \<le> length (pkt_queue v) then fail_errno EAGAIN
     else if PKT_DATA_SZ < unat (data_size pkt) then fail_errno EBADMSG
     else mbind (malloc_fails E) (\<lambda>nomem.
     if nomem then fail_errno ENOMEM
     else
       mbind (lift (vde_pkt_compact_cpy blank_pkt pkt)) (\<lambda>copy.
       mbind (upd_v2c v2 (\<lambda>v. v\<lparr>pkt_queue := \<lparr>numtries = 0, v2_pkt = copy\<rparr> # pkt_queue v\<rparr>)) (\<lambda>_.
       mbind (if data_ev_wr v = NULL then
                mbind (vde_connection_get_context E conn) (\<lambda>ctx.
                mbind (vde_connection_get_send_maxtimeout E conn) (\<lambda>timeout.
                mbind (vde_context_event_add E ctx (data_fd v) (VDE_EV_WRITE + VDE_EV_PERSIST)
                  (Some timeout) Vde2_conn_write_data_event v2) (\<lambda>ev.
                upd_v2c v2 (\<lambda>v. v\<lparr>data_ev_wr := ev\<rparr>))))
              else ret ()) (\<lambda>_.
       ret 0))))))"

definition event_del_if :: "env \<Rightarrow> ptr \<Rightarrow> ptr \<Rightarrow> unit prog" where
  "event_del_if E ctx ev = (if ev \<noteq> NULL then vde_context_event_del E ctx ev else ret ())"

definition close_if :: "env \<Rightarrow> int \<Rightarrow> unit prog" where
  "close_if E fd = (if 0 \<le> fd then mbind (syscall E (Sys_close fd)) (\<lambda>_. ret ()) else ret ())"

text \<open>\<open>local_sa.sun_path\<close> is an array, so the test that it is not \<open>NULL\<close> always holds.\<close>

definition vde2_conn_close :: "env \<Rightarrow> ptr \<Rightarrow> unit prog" where
  "vde2_conn_close E conn =
     mbind (vde_connection_get_priv E conn) (\<lambda>v2.
     mbind (vde_connection_get_context E conn) (\<lambda>ctx.
     mbind (deref w_v2c v2) (\<lambda>v.
     mbind (close_if E (data_fd v)) (\<lambda>_.
     mbind (event_del_if E ctx (data_ev_rd v)) (\<lambda>_.
     mbind (event_del_if E ctx (data_ev_wr v)) (\<lambda>_.
     mbind (syscall E (Sys_unlink (sun_path (local_sa v)))) (\<lambda>_.
     mbind (close_if E (ctl_fd v)) (\<lambda>_.
     mbind (event_del_if E ctx (ctl_ev v)) (\<lambda>_.
     dealloc w_v2c w_v2c_update v2)))))))))"

section \<open>The handshake\<close>

definition vde2_remove_sock_if_unused :: "env \<Rightarrow> sockaddr_un \<Rightarrow> int prog" where
  "vde2_remove_sock_if_unused E sa =
     mbind (syscall E Sys_socket_stream) (\<lambda>test.
     if retval test < 0 then ret 1
     else mbind (syscall E (Sys_connect (retval test) sa)) (\<lambda>c.
       mbind (if retval c < 0 then
                mbind (gets errno) (\<lambda>e.
                if e = ECONNREFUSED
                then mbind (syscall E (Sys_unlink (sun_path sa))) (\<lambda>_. ret 0)
                else ret 1)
              else ret 1) (\<lambda>rv.
       mbind (syscall E (Sys_close (retval test))) (\<lambda>_. ret rv))))"

text \<open>The formats \<^verbatim>\<open>%04d\<close> and the truncation of \<open>snprintf\<close> to a path of 107 characters.\<close>

definition format_04d :: "int \<Rightarrow> string" where
  "format_04d i =
     (let ds = dec_digits (nat \<bar>i\<bar>); sign = (if i < 0 then ''-'' else [])
      in sign @ replicate (4 - length ds - length sign) (CHR ''0'') @ ds)"

definition unix_path :: "string \<Rightarrow> string \<Rightarrow> string" where
  "unix_path dir name = take (UNIX_PATH_MAX - 1) (dir @ ''/'' @ name)"

definition vde2_srv_send_request :: "env \<Rightarrow> ptr \<Rightarrow> unit prog" where
  "vde2_srv_send_request E arg =
     mbind (deref w_v2c arg) (\<lambda>v.
     mbind (vde_component_get_priv E (v2_transport v)) (\<lambda>tr.
     mbind (vde_component_get_context E (v2_transport v)) (\<lambda>ctx.
     mbind (vde_context_event_del E ctx (ctl_ev v)) (\<lambda>_.
     mbind (upd_v2c arg (\<lambda>v. v\<lparr>ctl_ev := NULL\<rparr>)) (\<lambda>_.
     let error = mbind (upd_tr tr (\<lambda>t. t\<lparr>tr_pending_conns := remove1 arg (tr_pending_conns t)\<rparr>)) (\<lambda>_.
                 close_conn E (v2_conn v)) in
     mbind (syscall E Sys_socket_dgram) (\<lambda>s.
     mbind (upd_v2c arg (\<lambda>v. v\<lparr>data_fd := retval s\<rparr>)) (\<lambda>_.
     if retval s < 0 then error
     else mbind (syscall E (Sys_fcntl_nonblock (retval s))) (\<lambda>f.
     if retval f < 0 then error
     else mbind (deref w_tr tr) (\<lambda>t.
     let sa = \<lparr>sun_family = AF_UNIX,
               sun_path = unix_path (vdesock_dir t) (format_04d (sint (connections t)))\<rparr> in
     mbind (upd_v2c arg (\<lambda>v. v\<lparr>local_sa := sa\<rparr>)) (\<lambda>_.
     mbind (syscall E (Sys_unlink (sun_path sa))) (\<lambda>u.
     mbind (gets errno) (\<lambda>e.
     if retval u < 0 \<and> e \<noteq> ENOENT then error
     else mbind (syscall E (Sys_bind (retval s) sa)) (\<lambda>b.
     if retval b < 0 then error
     else mbind (syscall E (Sys_write (ctl_fd v) sa)) (\<lambda>len.
     if retval len \<noteq> 110 then error
     else
       mbind (upd_tr tr (\<lambda>t. t\<lparr>connections := connections t + 1,
         tr_pending_conns := remove1 arg (tr_pending_conns t)\<rparr>)) (\<lambda>_.
       mbind (vde_context_event_add E ctx (ctl_fd v) (VDE_EV_READ + VDE_EV_PERSIST) None
         Vde2_conn_read_ctl_event arg) (\<lambda>ev1.
       mbind (upd_v2c arg (\<lambda>v. v\<lparr>ctl_ev := ev1\<rparr>)) (\<lambda>_.
       mbind (vde_context_event_add E ctx (retval s) (VDE_EV_READ + VDE_EV_PERSIST) None
         Vde2_conn_read_data_event arg) (\<lambda>ev2.
       mbind (upd_v2c arg (\<lambda>v. v\<lparr>data_ev_rd := ev2\<rparr>)) (\<lambda>_.
       vde_transport_call_cm_accept_cb E (v2_transport v) (v2_conn v))))))))))))))))))))"

text \<open>
  The request as it lies in memory (\<open>packed\<close>, little endian): magic, version and type of four
  bytes each, the address family of two, the path of 108.
\<close>

definition le_nat :: "char list \<Rightarrow> nat" where
  "le_nat bs = foldr (\<lambda>c n. of_char c + 256 * n) bs 0"

definition req_magic :: "char list \<Rightarrow> nat" where "req_magic buf = le_nat (take 4 buf)"

definition req_version :: "char list \<Rightarrow> nat" where "req_version buf = le_nat (take 4 (drop 4 buf))"

definition req_sock :: "char list \<Rightarrow> sockaddr_un" where
  "req_sock buf = \<lparr>sun_family = int (le_nat (take 2 (drop 12 buf))),
     sun_path = takeWhile (\<lambda>c. c \<noteq> CHR 0x00) (take UNIX_PATH_MAX (drop 14 buf))\<rparr>"

definition vde2_srv_get_request :: "env \<Rightarrow> ptr \<Rightarrow> unit prog" where
  "vde2_srv_get_request E arg =
     mbind (deref w_v2c arg) (\<lambda>v.
     mbind (vde_component_get_priv E (v2_transport v)) (\<lambda>tr.
     mbind (vde_component_get_context E (v2_transport v)) (\<lambda>ctx.
     mbind (vde_context_event_del E ctx (ctl_ev v)) (\<lambda>_.
     mbind (upd_v2c arg (\<lambda>v. v\<lparr>ctl_ev := NULL\<rparr>)) (\<lambda>_.
     let error = mbind (upd_tr tr (\<lambda>t. t\<lparr>tr_pending_conns := remove1 arg (tr_pending_conns t)\<rparr>)) (\<lambda>_.
                 close_conn E (v2_conn v)) in
     mbind (syscall E (Sys_read (ctl_fd v) REQBUFLEN)) (\<lambda>r.
     if retval r < 0 then mbind (gets errno) (\<lambda>e. if e \<noteq> EAGAIN then error else ret ())
     else if retval r = 0 then error
     else
       let len = nat (retval r);
           read_bytes = take len (retbytes r);
           buf = read_bytes @ map (stack_garbage E) [length read_bytes ..< REQBUFLEN + 1]
       in if req_magic buf \<noteq> SWITCH_MAGIC \<or> req_version buf \<noteq> 3 then error
          else
            let buf = buf[len := CHR 0x00] in
            if buf ! 14 = CHR 0x00 then error
            else mbind (lift (c_string buf 14)) (\<lambda>path.
              mbind (syscall E (Sys_access path)) (\<lambda>acc.
              if retval acc \<noteq> 0 then error
              else mbind (malloc_fails E) (\<lambda>nomem.
              if nomem then error
              else
                mbind (upd_v2c arg (\<lambda>v. v\<lparr>remote_request := Some (take len buf), remote_sa := req_sock buf\<rparr>)) (\<lambda>_.
                mbind (vde_context_event_add E ctx (ctl_fd v) VDE_EV_WRITE None Vde2_srv_send_request arg) (\<lambda>ev.
                upd_v2c arg (\<lambda>v. v\<lparr>ctl_ev := ev\<rparr>)))))))))))) "

definition vde2_accept :: "env \<Rightarrow> int \<Rightarrow> ptr \<Rightarrow> unit prog" where
  "vde2_accept E lfd component =
     mbind (vde_component_get_context E component) (\<lambda>ctx.
     mbind (vde_component_get_priv E component) (\<lambda>tr.
     mbind (syscall E (Sys_accept lfd)) (\<lambda>new.
     if retval new < 0 then ret ()
     else
       let error_close = mbind (syscall E (Sys_close (retval new))) (\<lambda>_. ret ()) in
       mbind (syscall E (Sys_fcntl_nonblock (retval new))) (\<lambda>f.
       if retval f < 0 then error_close
       else mbind (vde_connection_new E) (\<lambda>(rv, conn).
       if rv \<noteq> 0 then error_close
       else mbind (alloc w_v2c_update E zero_vde2_conn) (\<lambda>v2.
       if v2 = NULL then mbind (vde_connection_delete E conn) (\<lambda>_. error_close)
       else
         mbind (upd_v2c v2 (\<lambda>v. v\<lparr>ctl_fd := retval new, v2_conn := conn, v2_transport := component,
           pkt_queue := []\<rparr>)) (\<lambda>_.
         mbind (upd_tr tr (\<lambda>t. t\<lparr>tr_pending_conns := v2 # tr_pending_conns t\<rparr>)) (\<lambda>_.
         mbind (vde_connection_init E conn ctx (of_nat SIZEOF_ETH_FRAME) (Some Vde2_conn_write)
           (Some Vde2_conn_close) v2) (\<lambda>_.
         mbind (vde_context_event_add E ctx (retval new) VDE_EV_READ None Vde2_srv_get_request v2) (\<lambda>ev.
         upd_v2c v2 (\<lambda>v. v\<lparr>ctl_ev := ev\<rparr>)))))))))))"

definition vde2_listen :: "env \<Rightarrow> ptr \<Rightarrow> int prog" where
  "vde2_listen E component =
     mbind (vde_component_get_context E component) (\<lambda>ctx.
     mbind (vde_component_get_priv E component) (\<lambda>tr.
     mbind (syscall E Sys_socket_stream) (\<lambda>s.
     mbind (upd_tr tr (\<lambda>t. t\<lparr>listen_fd := retval s\<rparr>)) (\<lambda>_.
     mbind (deref w_tr tr) (\<lambda>t.
     let fd = retval s;
         sa = \<lparr>sun_family = AF_UNIX, sun_path = unix_path (vdesock_dir t) ''ctl''\<rparr>;
         error_close = (\<lambda>tmp_errno.
           mbind (syscall E (Sys_close fd)) (\<lambda>_.
           mbind (upd_tr tr (\<lambda>t. t\<lparr>listen_fd := - 1\<rparr>)) (\<lambda>_.
           fail_errno tmp_errno)));
         error_unlink = (\<lambda>tmp_errno.
           mbind (syscall E (Sys_unlink (sun_path sa))) (\<lambda>_.
           mbind (syscall E (Sys_rmdir (vdesock_dir t))) (\<lambda>_.
           error_close tmp_errno)))
     in
       if fd < 0 then mbind (gets errno) fail_errno
       else mbind (syscall E (Sys_setsockopt fd)) (\<lambda>o1.
       if retval o1 < 0 then mbind (gets errno) error_close
       else mbind (syscall E (Sys_fcntl_nonblock fd)) (\<lambda>f.
       if retval f < 0 then mbind (gets errno) error_close
       else mbind (syscall E (Sys_mkdir (vdesock_dir t))) (\<lambda>d.
       mbind (gets errno) (\<lambda>e.
       if retval d < 0 \<and> e \<noteq> EEXIST then error_close e
       else
         mbind (syscall E (Sys_bind fd sa)) (\<lambda>b.
         mbind (gets errno) (\<lambda>e.
         mbind (if retval b < 0 then
                  mbind (if e = EADDRINUSE then vde2_remove_sock_if_unused E sa else ret 0) (\<lambda>used.
                  if e = EADDRINUSE \<and> used \<noteq> 0 then mbind (gets errno) (\<lambda>e. ret (Some e))
                  else mbind (syscall E (Sys_bind fd sa)) (\<lambda>b.
                    if retval b < 0 then mbind (gets errno) (\<lambda>e. ret (Some e)) else ret None))
                else ret None) (\<lambda>bind_error.
         case bind_error of
           Some e \<Rightarrow> error_close e
         | None \<Rightarrow>
             mbind (syscall E (Sys_listen fd LISTEN_QUEUE)) (\<lambda>l.
             if retval l < 0 then mbind (gets errno) error_unlink
             else
               mbind (vde_context_event_add E ctx fd (VDE_EV_READ + VDE_EV_PERSIST) None
                 Vde2_accept component) (\<lambda>ev.
               mbind (upd_tr tr (\<lambda>t. t\<lparr>listen_event := ev\<rparr>)) (\<lambda>_.
               ret 0)))))))))))))))"

definition vde2_connect :: "env \<Rightarrow> ptr \<Rightarrow> ptr \<Rightarrow> int prog" where
  "vde2_connect E component conn = ret (- 1)"

definition transport_vde2_init :: "env \<Rightarrow> ptr \<Rightarrow> vde_sobj \<Rightarrow> int prog" where
  "transport_vde2_init E component params =
     mbind (vde_assert E (component \<noteq> NULL)) (\<lambda>_.
     if params = SNull \<or> \<not> sobj_is_hash params then fail_errno EINVAL
     else let path_sobj = sobj_hash_lookup params ''path'' in
     if path_sobj = SNull \<or> \<not> sobj_is_string path_sobj then fail_errno EINVAL
     else let path = sobj_get_string path_sobj in
     if UNIX_PATH_MAX - 4 < length path then fail_errno EINVAL
     else mbind (alloc w_tr_update E \<lparr>vdesock_dir = [], listen_fd = 0, listen_event = NULL,
         connections = 0, tr_pending_conns = []\<rparr>) (\<lambda>tr.
     if tr = NULL then fail_errno ENOMEM
     else mbind (malloc_fails E) (\<lambda>nomem.
     if nomem then mbind (dealloc w_tr w_tr_update tr) (\<lambda>_. fail_errno ENOMEM)
     else
       mbind (upd_tr tr (\<lambda>t. t\<lparr>vdesock_dir := path\<rparr>)) (\<lambda>_.
       mbind (vde_component_set_priv E component tr) (\<lambda>_.
       ret 0)))))"

definition transport_vde2_fini :: "env \<Rightarrow> ptr \<Rightarrow> unit prog" where
  "transport_vde2_fini E component = vde_assert E (component \<noteq> NULL)"

definition transport_vde2_module :: vde_module where
  "transport_vde2_module = \<lparr>m_kind = VDE_TRANSPORT, m_family = ''vde2'',
     m_cops = Some \<lparr>ops_init = Some Transport_vde2_init, ops_fini = Some Transport_vde2_fini\<rparr>,
     m_cm_connect = None, m_cm_listen = None, m_eng_new_conn = None,
     m_tr_connect = Some Vde2_connect, m_tr_listen = Some Vde2_listen, m_dlhandle = NULL\<rparr>"

section \<open>The queue of an established connection\<close>

text \<open>What the event handler's documentation promises: a token, and no call back into vde.\<close>

definition events_ok :: "env \<Rightarrow> bool" where
  "events_ok E \<longleftrightarrow>
     (\<forall>f fd ev to cb arg w. \<exists>p. p \<noteq> NULL \<and> call_event_add E f fd ev to cb arg w = Inr (p, w)) \<and>
     (\<forall>f ev w. call_event_del E f ev w = Inr ((), w))"

definition ctx_events :: "world \<Rightarrow> ptr \<Rightarrow> bool" where
  "ctx_events w ctx \<longleftrightarrow> ctx \<noteq> NULL \<and> (\<exists>x f g. w_ctx w ctx = Some x \<and> ctx_initialized x = 1 \<and>
     eh_event_add (event_handler x) = Some f \<and> eh_event_del (event_handler x) = Some g)"

lemma ctx_events_cong: "w_ctx w' = w_ctx w \<Longrightarrow> ctx_events w' = ctx_events w"
  by (simp add: fun_eq_iff ctx_events_def)

lemma ctx_events_frame [simp]:
  "ctx_events (errno_update f0 w) = ctx_events w"
  "ctx_events (brk_update f1 w) = ctx_events w"
  "ctx_events (interned_update f2 w) = ctx_events w"
  "ctx_events (trace_update f3 w) = ctx_events w"
  "ctx_events (w_conn_update f4 w) = ctx_events w"
  "ctx_events (w_lc_update f5 w) = ctx_events w"
  "ctx_events (w_signal_update f6 w) = ctx_events w"
  "ctx_events (w_module_update f7 w) = ctx_events w"
  "ctx_events (w_comp_update f8 w) = ctx_events w"
  "ctx_events (w_hub_update f9 w) = ctx_events w"
  "ctx_events (w_ctrl_update f10 w) = ctx_events w"
  "ctx_events (w_cc_update f11 w) = ctx_events w"
  "ctx_events (w_pc_update f12 w) = ctx_events w"
  "ctx_events (w_cm_update f13 w) = ctx_events w"
  "ctx_events (w_v2c_update f14 w) = ctx_events w"
  "ctx_events (w_tr_update f15 w) = ctx_events w"
  by (simp_all add: fun_eq_iff ctx_events_def)

lemma event_add_ok:
  "events_ok E \<Longrightarrow> ctx_events w ctx \<Longrightarrow>
    \<exists>p. p \<noteq> NULL \<and> vde_context_event_add E ctx fd ev to cb arg w = Inr (p, w)"
  by (auto simp: ctx_events_def vde_context_event_add_def events_ok_def mon)

lemma event_del_ok:
  "events_ok E \<Longrightarrow> ctx_events w ctx \<Longrightarrow> ev \<noteq> NULL \<Longrightarrow> vde_context_event_del E ctx ev w = Inr ((), w)"
  by (auto simp: ctx_events_def vde_context_event_del_def events_ok_def mon)

text \<open>A connection served by this transport, with its private record.\<close>

definition v2_at :: "world \<Rightarrow> ptr \<Rightarrow> vde_connection \<Rightarrow> vde2_conn \<Rightarrow> bool" where
  "v2_at w conn c v \<longleftrightarrow> conn \<noteq> NULL \<and> w_conn w conn = Some c \<and> be_write c = Some Vde2_conn_write \<and>
     be_close c = Some Vde2_conn_close \<and> w_v2c w (be_priv c) = Some v \<and> v2_conn v = conn \<and>
     be_priv c \<noteq> NULL \<and> ctx_events w (c_context c)"

definition v2_pkt_ok :: "vde_pkt \<Rightarrow> bool" where
  "v2_pkt_ok p \<longleftrightarrow> pkt_wf p \<and> unat (data_size p) \<le> PKT_DATA_SZ"

text \<open>
  The queue is within its bound, holds well-formed packets that fit its buffers, and has a
  write event registered while anything waits.
\<close>

definition v2_queue_ok :: "vde2_conn \<Rightarrow> bool" where
  "v2_queue_ok v \<longleftrightarrow> length (pkt_queue v) \<le> MAXQLEN \<and> (\<forall>p\<in>set (pkt_queue v). v2_pkt_ok (v2_pkt p)) \<and>
     (pkt_queue v \<noteq> [] \<longrightarrow> data_ev_wr v \<noteq> NULL)"

text \<open>
  What writing through \<open>be_write\<close> reaches: this transport's \<open>vde2_conn_write\<close>, with an event
  handler that keeps its promise and enough memory.
\<close>

definition v2_backend :: "env \<Rightarrow> bool" where
  "v2_backend E \<longleftrightarrow> (\<exists>X. call_be_write E Vde2_conn_write = vde2_conn_write X \<and> events_ok X \<and>
     (\<forall>n. \<not> malloc_null X n))"

definition v2_usable :: "env \<Rightarrow> world \<Rightarrow> ptr \<Rightarrow> bool" where
  "v2_usable E w conn \<longleftrightarrow> v2_backend E \<and> (\<exists>c v. v2_at w conn c v \<and> v2_queue_ok v)"

definition v2_rec :: "world \<Rightarrow> ptr \<Rightarrow> vde2_conn" where
  "v2_rec w conn = the (w_v2c w (be_priv (the (w_conn w conn))))"

definition v2_room :: "world \<Rightarrow> ptr \<Rightarrow> bool" where
  "v2_room w conn \<longleftrightarrow> length (pkt_queue (v2_rec w conn)) < MAXQLEN"

definition pkt_payload :: "vde_pkt \<Rightarrow> char list" where
  "pkt_payload p = (case pkt_bytes p of Inr bs \<Rightarrow> bs | Inl _ \<Rightarrow> [])"

text \<open>The payloads waiting to be sent, the next one first.\<close>

definition v2_waiting :: "world \<Rightarrow> ptr \<Rightarrow> char list list" where
  "v2_waiting w conn = map (\<lambda>p. pkt_payload (v2_pkt p)) (rev (pkt_queue (v2_rec w conn)))"

text \<open>The descriptor and the address packets go to.\<close>

definition v2_peer :: "world \<Rightarrow> ptr \<Rightarrow> int \<times> sockaddr_un" where
  "v2_peer w conn = (data_fd (v2_rec w conn), remote_sa (v2_rec w conn))"

lemma v2_rec_eq: "v2_at w conn c v \<Longrightarrow> v2_rec w conn = v"
  by (simp add: v2_rec_def v2_at_def)

lemma blank_pkt_length: "length (p_data blank_pkt) = PKT_DATA_SZ + 4"
  by (simp add: blank_pkt_def size_defs)

lemma v2_copy:
  assumes "v2_pkt_ok pkt"
  shows "\<exists>q. vde_pkt_compact_cpy blank_pkt pkt = Inr q \<and> v2_pkt_ok q \<and> pkt_bytes q = pkt_bytes pkt"
proof -
  obtain q where q: "vde_pkt_compact_cpy blank_pkt pkt = Inr q" "pkt_wf q" "pkt_bytes q = pkt_bytes pkt"
    using compact_cpy_ok [of pkt blank_pkt] assms by (auto simp: v2_pkt_ok_def blank_pkt_length)
  moreover have "data_size q = data_size pkt"
    using q(1) by (auto simp: vde_pkt_compact_cpy_def Let_def fbind_eq_Inr vde_pkt_init_def)
  ultimately show ?thesis using assms by (auto simp: v2_pkt_ok_def)
qed

text \<open>Writing, on every branch.\<close>

lemma v2_write_full:
  "v2_at w conn c v \<Longrightarrow> MAXQLEN \<le> length (pkt_queue v) \<Longrightarrow>
    vde2_conn_write E conn pkt w = Inr (- 1, w\<lparr>errno := EAGAIN\<rparr>)"
  by (auto simp: v2_at_def vde2_conn_write_def mon)

lemma v2_write_queues:
  assumes at: "v2_at w conn c v" and "length (pkt_queue v) < MAXQLEN" and "v2_pkt_ok pkt"
    and "\<not> malloc_null E (brk w)" and "events_ok E"
  shows "\<exists>q ev. vde_pkt_compact_cpy blank_pkt pkt = Inr q \<and> v2_pkt_ok q \<and> pkt_bytes q = pkt_bytes pkt \<and>
    ev \<noteq> NULL \<and> vde2_conn_write E conn pkt w = Inr (0, w\<lparr>brk := Suc (brk w),
      w_v2c := (w_v2c w)(be_priv c \<mapsto> v\<lparr>pkt_queue := \<lparr>numtries = 0, v2_pkt = q\<rparr> # pkt_queue v,
        data_ev_wr := ev\<rparr>)\<rparr>)"
proof -
  obtain q where q: "vde_pkt_compact_cpy blank_pkt pkt = Inr q" "v2_pkt_ok q" "pkt_bytes q = pkt_bytes pkt"
    using v2_copy [OF assms(3)] by blast
  have c: "conn \<noteq> NULL" "w_conn w conn = Some c" "w_v2c w (be_priv c) = Some v" "ctx_events w (c_context c)"
    using at by (simp_all add: v2_at_def)
  let ?v1 = "v\<lparr>pkt_queue := \<lparr>numtries = 0, v2_pkt = q\<rparr> # pkt_queue v\<rparr>"
  let ?w1 = "w\<lparr>brk := Suc (brk w), w_v2c := (w_v2c w)(be_priv c \<mapsto> ?v1)\<rparr>"
  have sz: "\<not> PKT_DATA_SZ < unat (data_size pkt)" using assms(3) by (simp add: v2_pkt_ok_def)
  show ?thesis
  proof (cases "data_ev_wr v = NULL")
    case True
    have "ctx_events ?w1 (c_context c)" using c(4) by (simp add: ctx_events_def)
    then obtain ev where ev: "ev \<noteq> NULL" "vde_context_event_add E (c_context c) (data_fd v)
        (VDE_EV_WRITE + VDE_EV_PERSIST) (Some (send_maxtimeout c)) Vde2_conn_write_data_event
        (be_priv c) ?w1 = Inr (ev, ?w1)"
      using event_add_ok [OF assms(5)] by blast
    have "vde2_conn_write E conn pkt w = Inr (0, ?w1\<lparr>w_v2c := (w_v2c w)(be_priv c \<mapsto> ?v1\<lparr>data_ev_wr := ev\<rparr>)\<rparr>)"
      using c True assms(2,4) q(1) sz ev(2) by (simp add: vde2_conn_write_def mon)
    with q ev(1) show ?thesis by auto
  next
    case False
    have "vde2_conn_write E conn pkt w = Inr (0, ?w1)"
      using c False assms(2,4) q(1) sz by (simp add: vde2_conn_write_def mon)
    moreover have "?v1 = ?v1\<lparr>data_ev_wr := data_ev_wr v\<rparr>" by simp
    ultimately show ?thesis using q False by metis
  qed
qed

lemma v2_at_unique: "v2_at w conn c v \<Longrightarrow> v2_at w d k x \<Longrightarrow> be_priv c = be_priv k \<Longrightarrow> conn = d"
  by (auto simp: v2_at_def)

lemma v2_at_queue_update:
  assumes "v2_at w conn c v" and "v2_conn v' = v2_conn v" and "v2_queue_ok v" and "v2_queue_ok v'"
  shows "(\<exists>k x. v2_at (w\<lparr>brk := n, w_v2c := (w_v2c w)(be_priv c \<mapsto> v')\<rparr>) d k x \<and> v2_queue_ok x) \<longleftrightarrow>
    (\<exists>k x. v2_at w d k x \<and> v2_queue_ok x)"
proof -
  let ?w = "w\<lparr>brk := n, w_v2c := (w_v2c w)(be_priv c \<mapsto> v')\<rparr>"
  have ctx: "ctx_events ?w = ctx_events w" by (simp add: fun_eq_iff ctx_events_def)
  have lower: "v2_at w d k (if be_priv k = be_priv c then v else x)" if "v2_at ?w d k x" for k x
    using that assms(1,2) by (simp add: v2_at_def ctx split: if_splits)
  have upper: "v2_at ?w d k (if be_priv k = be_priv c then v' else x)" if "v2_at w d k x" for k x
    using that assms(1,2) v2_at_unique [OF assms(1) that] by (auto simp: v2_at_def ctx split: if_splits)
  show ?thesis
  proof (intro iffI; elim exE conjE)
    fix k x assume "v2_at ?w d k x" "v2_queue_ok x"
    then have "v2_queue_ok (if be_priv k = be_priv c then v else x)" using assms(3) by simp
    with lower [OF \<open>v2_at ?w d k x\<close>] show "\<exists>k x. v2_at w d k x \<and> v2_queue_ok x" by blast
  next
    fix k x assume "v2_at w d k x" "v2_queue_ok x"
    then have "v2_queue_ok (if be_priv k = be_priv c then v' else x)" using assms(4) by simp
    with upper [OF \<open>v2_at w d k x\<close>] show "\<exists>k x. v2_at ?w d k x \<and> v2_queue_ok x" by blast
  qed
qed

lemma v2_put:
  assumes ok: "v2_pkt_ok pkt" and us: "v2_usable E w conn"
  shows "\<exists>r w'. vde_connection_write E conn pkt w = Inr (r, w') \<and> engine_frame w w' \<and>
    v2_usable E w' = v2_usable E w \<and>
    (\<forall>d. d \<noteq> conn \<longrightarrow> v2_usable E w d \<longrightarrow> v2_waiting w' d = v2_waiting w d \<and> v2_room w' d = v2_room w d \<and>
      v2_rec w' d = v2_rec w d) \<and>
    (if v2_room w conn then r = 0 \<and> v2_waiting w' conn = v2_waiting w conn @ [pkt_payload pkt]
     else r = - 1 \<and> v2_waiting w' conn = v2_waiting w conn) \<and>
    (\<forall>d. v2_usable E w d \<longrightarrow> v2_peer w' d = v2_peer w d)"
proof -
  obtain X c v where X: "call_be_write E Vde2_conn_write = vde2_conn_write X" "events_ok X"
    "\<And>n. \<not> malloc_null X n" and at: "v2_at w conn c v" and vok: "v2_queue_ok v"
    using us by (auto simp: v2_usable_def v2_backend_def)
  have disp: "vde_connection_write E conn pkt w = vde2_conn_write X conn pkt w"
    using at X(1) by (auto simp: v2_at_def mon)
  show ?thesis
  proof (cases "v2_room w conn")
    case False
    then have "vde_connection_write E conn pkt w = Inr (- 1, w\<lparr>errno := EAGAIN\<rparr>)"
      using v2_write_full [OF at] disp by (simp add: v2_room_def v2_rec_eq [OF at])
    moreover have "v2_at (w\<lparr>errno := EAGAIN\<rparr>) = v2_at w"
      by (intro ext) (simp add: v2_at_def ctx_events_def)
    then have "v2_usable E (w\<lparr>errno := EAGAIN\<rparr>) = v2_usable E w"
      by (intro ext) (simp add: v2_usable_def)
    ultimately show ?thesis using False
      by (simp add: v2_waiting_def v2_room_def v2_rec_def engine_frame_def v2_peer_def)
  next
    case True
    then have room: "length (pkt_queue v) < MAXQLEN" by (simp add: v2_room_def v2_rec_eq [OF at])
    from v2_write_queues [OF at room ok X(3,2)] obtain q ev where q: "pkt_bytes q = pkt_bytes pkt"
      "v2_pkt_ok q" "ev \<noteq> NULL" "vde2_conn_write X conn pkt w = Inr (0, w\<lparr>brk := Suc (brk w),
         w_v2c := (w_v2c w)(be_priv c \<mapsto> v\<lparr>pkt_queue := \<lparr>numtries = 0, v2_pkt = q\<rparr> # pkt_queue v,
           data_ev_wr := ev\<rparr>)\<rparr>)"
      by blast
    let ?v = "v\<lparr>pkt_queue := \<lparr>numtries = 0, v2_pkt = q\<rparr> # pkt_queue v, data_ev_wr := ev\<rparr>"
    let ?w = "w\<lparr>brk := Suc (brk w), w_v2c := (w_v2c w)(be_priv c \<mapsto> ?v)\<rparr>"
    have vok': "v2_queue_ok ?v" using vok q(2,3) room by (simp add: v2_queue_ok_def)
    have rec: "v2_rec ?w conn = ?v" using at by (simp add: v2_rec_def v2_at_def)
    then have "v2_waiting ?w conn = v2_waiting w conn @ [pkt_payload pkt]"
      using q(1) by (simp add: v2_waiting_def v2_rec_eq [OF at] pkt_payload_def)
    moreover have other: "v2_rec ?w d = v2_rec w d" if "d \<noteq> conn" "v2_usable E w d" for d
      using that v2_at_unique [OF at, of d] by (fastforce simp: v2_usable_def v2_rec_def v2_at_def)
    moreover have "v2_peer ?w d = v2_peer w d" if "v2_usable E w d" for d
      using other [OF _ that] rec v2_rec_eq [OF at] by (cases "d = conn") (simp_all add: v2_peer_def)
    moreover have "v2_usable E ?w = v2_usable E w"
      using v2_at_queue_update [OF at _ vok vok', of "Suc (brk w)"] by (intro ext) (simp add: v2_usable_def)
    moreover have "insert (be_priv c) (dom (w_v2c w)) = dom (w_v2c w)" using at by (auto simp: v2_at_def)
    ultimately show ?thesis using True q(4) disp
      by (simp add: v2_waiting_def v2_room_def engine_frame_def)
  qed
qed

interpretation v2q: conn_backend "vde_connection_write E" v2_pkt_ok "v2_usable E" v2_room v2_waiting
  pkt_payload v2_peer v2_rec for E
  by unfold_locales (rule v2_put)

end
