(* ===== verification/Vde2Flow.thy ===== *)
theory Vde2Flow
  imports Vde2
begin

text \<open>
  Traffic on an established vde2 connection: what \<open>vde2_conn_write\<close> answers on every branch,
  how the write event drains the queue, how often a packet is tried again, and what a read
  event hands to the engine.
\<close>

section \<open>Writing\<close>

lemma v2_pkt_ok_bytes:
  assumes "v2_pkt_ok p"
  obtains bs where "pkt_bytes p = Inr bs" "get_pkt_len p = Inr (length bs)" "pkt_payload p = bs"
proof -
  have "pkt_wf p" using assms by (simp add: v2_pkt_ok_def)
  then obtain n bs where "get_pkt_len p = Inr n" "pkt_bytes p = Inr bs" "length bs = n"
    by (rule pkt_wf_bytes)
  then show ?thesis by (intro that) (auto simp: pkt_payload_def)
qed

lemma v2_write_oversize:
  "v2_at w conn c v \<Longrightarrow> length (pkt_queue v) < MAXQLEN \<Longrightarrow> PKT_DATA_SZ < unat (data_size pkt) \<Longrightarrow>
    vde2_conn_write E conn pkt w = Inr (- 1, w\<lparr>errno := EBADMSG\<rparr>)"
  by (auto simp: v2_at_def vde2_conn_write_def mon)

lemma v2_write_nomem:
  "v2_at w conn c v \<Longrightarrow> length (pkt_queue v) < MAXQLEN \<Longrightarrow> unat (data_size pkt) \<le> PKT_DATA_SZ \<Longrightarrow>
    malloc_null E (brk w) \<Longrightarrow>
    vde2_conn_write E conn pkt w = Inr (- 1, w\<lparr>brk := Suc (brk w), errno := ENOMEM\<rparr>)"
  by (auto simp: v2_at_def vde2_conn_write_def mon)

text \<open>What writing on a vde2 connection answers. The packet is refused with \<open>EAGAIN\<close> when the queue
  holds 4192 packets, with \<open>EBADMSG\<close> when it is too large for the queue's buffers and with
  \<open>ENOMEM\<close> when there is no memory, and the queue is then unchanged; otherwise its payload joins
  the end of the waiting payloads and the write event is scheduled. The queue stays within its
  bound and holds well-formed packets only.\<close>

theorem vde2_conn_write_outcomes:
  assumes "v2_at w conn c v" and "v2_queue_ok v" and "pkt_wf pkt" and "events_ok E"
  shows "\<exists>r w'. vde2_conn_write E conn pkt w = Inr (r, w') \<and> v2_queue_ok (v2_rec w' conn) \<and>
    (if length (pkt_queue v) = MAXQLEN then r = - 1 \<and> errno w' = EAGAIN \<and> v2_rec w' conn = v
     else if PKT_DATA_SZ < unat (data_size pkt) then r = - 1 \<and> errno w' = EBADMSG \<and> v2_rec w' conn = v
     else if malloc_null E (brk w) then r = - 1 \<and> errno w' = ENOMEM \<and> v2_rec w' conn = v
     else r = 0 \<and> v2_waiting w' conn = v2_waiting w conn @ [pkt_payload pkt] \<and>
       data_ev_wr (v2_rec w' conn) \<noteq> NULL)"
proof -
  have [simp]: "w_conn w conn = Some c" "w_v2c w (be_priv c) = Some v"
    using assms(1) by (simp_all add: v2_at_def)
  have len: "length (pkt_queue v) \<le> MAXQLEN" using assms(2) by (simp add: v2_queue_ok_def)
  consider (full) "length (pkt_queue v) = MAXQLEN"
    | (big) "length (pkt_queue v) < MAXQLEN" "PKT_DATA_SZ < unat (data_size pkt)"
    | (nomem) "length (pkt_queue v) < MAXQLEN" "unat (data_size pkt) \<le> PKT_DATA_SZ" "malloc_null E (brk w)"
    | (ok) "length (pkt_queue v) < MAXQLEN" "unat (data_size pkt) \<le> PKT_DATA_SZ" "\<not> malloc_null E (brk w)"
    using len by linarith
  then show ?thesis
  proof cases
    case full
    with assms(1,2) show ?thesis by (simp add: v2_write_full v2_rec_def)
  next
    case big
    with assms(1,2) show ?thesis by (simp add: v2_write_oversize v2_rec_def)
  next
    case nomem
    with assms(1,2) show ?thesis by (simp add: v2_write_nomem v2_rec_def)
  next
    case ok
    from assms(3) ok(2) have "v2_pkt_ok pkt" by (simp add: v2_pkt_ok_def)
    from v2_write_queues [OF assms(1) ok(1) this ok(3) assms(4)] obtain q ev where
      q: "v2_pkt_ok q" "pkt_bytes q = pkt_bytes pkt" "ev \<noteq> NULL"
      "vde2_conn_write E conn pkt w = Inr (0, w\<lparr>brk := Suc (brk w),
        w_v2c := (w_v2c w)(be_priv c \<mapsto> v\<lparr>pkt_queue := \<lparr>numtries = 0, v2_pkt = q\<rparr> # pkt_queue v,
          data_ev_wr := ev\<rparr>)\<rparr>)"
      by blast
    with ok assms(2) show ?thesis
      by (simp add: v2_rec_def v2_queue_ok_def v2_waiting_def pkt_payload_def)
  qed
qed

section \<open>Draining the queue\<close>

lemma send_round:
  assumes "w_v2c w arg = Some v" and "w_conn w (v2_conn v) = Some c" and "v2_conn v \<noteq> NULL"
    and "write_cb c = None" and "pkt_queue v = qs @ [p]" and "v2_pkt_ok (v2_pkt p)" and "e \<noteq> EPIPE"
    and "retval (sys E (trace w) (Sys_sendto (data_fd v) (pkt_payload (v2_pkt p)) (remote_sa v)))
      = int (length (pkt_payload (v2_pkt p)))"
  shows "vde2_send_loop (Suc n) E arg e w = vde2_send_loop n E arg e
    (w\<lparr>w_v2c := (w_v2c w)(arg \<mapsto> v\<lparr>pkt_queue := qs\<rparr>),
       trace := trace w @ [Sys_sendto (data_fd v) (pkt_payload (v2_pkt p)) (remote_sa v)]\<rparr>)"
proof -
  obtain bs where bs: "pkt_bytes (v2_pkt p) = Inr bs" "get_pkt_len (v2_pkt p) = Inr (length bs)"
    "pkt_payload (v2_pkt p) = bs"
    using assms(6) by (rule v2_pkt_ok_bytes)
  with assms show ?thesis
    by (simp add: mon Let_def vde_connection_call_write_def)
qed

lemma send_loop_drains:
  assumes "w_v2c w arg = Some v" and "w_conn w (v2_conn v) = Some c" and "v2_conn v \<noteq> NULL"
    and "write_cb c = None" and "\<forall>p\<in>set (pkt_queue v). v2_pkt_ok (v2_pkt p)" and "e \<noteq> EPIPE"
    and "\<forall>tr fd bs sa. retval (sys E tr (Sys_sendto fd bs sa)) = int (length bs)"
    and "length (pkt_queue v) < n"
  shows "vde2_send_loop n E arg e w = Inr (Queue_empty,
    w\<lparr>w_v2c := (w_v2c w)(arg \<mapsto> v\<lparr>pkt_queue := []\<rparr>),
       trace := trace w @ map (\<lambda>p. Sys_sendto (data_fd v) (pkt_payload (v2_pkt p)) (remote_sa v))
         (rev (pkt_queue v))\<rparr>)"
  using assms
proof (induction "pkt_queue v" arbitrary: n w v rule: rev_induct)
  case Nil
  then obtain m where "n = Suc m" by (cases n) auto
  moreover have "v\<lparr>pkt_queue := []\<rparr> = v" using Nil(1) by simp
  ultimately show ?case using Nil by (simp add: mon fun_upd_idem)
next
  case (snoc p qs)
  then obtain m where n: "n = Suc m" by (cases n) auto
  let ?s = "Sys_sendto (data_fd v) (pkt_payload (v2_pkt p)) (remote_sa v)"
  let ?w = "w\<lparr>w_v2c := (w_v2c w)(arg \<mapsto> v\<lparr>pkt_queue := qs\<rparr>), trace := trace w @ [?s]\<rparr>"
  have "vde2_send_loop n E arg e w = vde2_send_loop m E arg e ?w"
    unfolding n by (rule send_round) (use snoc.prems snoc.hyps(2) [symmetric] in auto)
  also have "\<dots> = Inr (Queue_empty, ?w\<lparr>w_v2c := (w_v2c ?w)(arg \<mapsto> v\<lparr>pkt_queue := qs, pkt_queue := []\<rparr>),
       trace := trace ?w @ map (\<lambda>p. Sys_sendto (data_fd v) (pkt_payload (v2_pkt p)) (remote_sa v)) (rev qs)\<rparr>)"
    using snoc.hyps(1) [of "v\<lparr>pkt_queue := qs\<rparr>" ?w m] snoc.prems snoc.hyps(2) [symmetric] n by simp
  finally show ?case using snoc.hyps(2) [symmetric] by simp
qed

lemma write_event_drains:
  assumes "v2_at w conn c v" and "v2_queue_ok v" and "write_cb c = None" and "events_ok E"
    and "data_ev_wr v \<noteq> NULL" and "length (pkt_queue v) < n"
    and "\<forall>tr fd bs sa. retval (sys E tr (Sys_sendto fd bs sa)) = int (length bs)"
  shows "\<exists>w'. vde2_conn_write_data_event n E (be_priv c) w = Inr ((), w') \<and>
    trace w' = trace w @ map (\<lambda>bs. Sys_sendto (data_fd v) bs (remote_sa v)) (v2_waiting w conn) \<and>
    v2_waiting w' conn = [] \<and> data_ev_wr (v2_rec w' conn) = NULL"
proof -
  have c: "w_conn w conn = Some c" "conn \<noteq> NULL" "w_v2c w (be_priv c) = Some v" "v2_conn v = conn"
    "ctx_events w (c_context c)"
    using assms(1) by (simp_all add: v2_at_def)
  let ?w = "w\<lparr>w_v2c := (w_v2c w)(be_priv c \<mapsto> v\<lparr>pkt_queue := []\<rparr>),
    trace := trace w @ map (\<lambda>p. Sys_sendto (data_fd v) (pkt_payload (v2_pkt p)) (remote_sa v))
      (rev (pkt_queue v))\<rparr>"
  have "vde2_send_loop n E (be_priv c) 0 w = Inr (Queue_empty, ?w)"
    by (rule send_loop_drains) (use c assms in \<open>auto simp: v2_queue_ok_def\<close>)
  moreover have "ctx_events ?w (c_context c)" using c(5) by (simp add: ctx_events_def)
  ultimately show ?thesis using c assms(5) event_del_ok [OF assms(4)]
    by (simp add: vde2_conn_write_data_event_def mon v2_waiting_def v2_rec_def o_def)
qed

text \<open>C29: when the socket takes every datagram, one write event sends all waiting payloads, each
  once and in the order they were written, empties the queue and takes the event down; a bound
  of one round more than the queue is long is enough.\<close>

theorem vde2_write_event_drains:
  assumes "v2_at w conn c v" and "v2_queue_ok v" and "write_cb c = None" and "events_ok E"
    and "data_ev_wr v \<noteq> NULL" and "length (pkt_queue v) < n"
    and "\<forall>tr fd bs sa. retval (sys E tr (Sys_sendto fd bs sa)) = int (length bs)"
  shows "\<exists>w'. vde2_conn_write_data_event n E (be_priv c) w = Inr ((), w') \<and>
    trace w' = trace w @ map (\<lambda>bs. Sys_sendto (data_fd v) bs (remote_sa v)) (v2_waiting w conn) \<and>
    v2_waiting w' conn = [] \<and> data_ev_wr (v2_rec w' conn) = NULL"
  using write_event_drains [OF assms] .

text \<open>A connection with two packets waiting.\<close>

definition example_v2_env :: env where
  "example_v2_env = base_env\<lparr>
     sys := (\<lambda>tr c. \<lparr>retval = (case c of Sys_sendto fd bs sa \<Rightarrow> int (length bs) | _ \<Rightarrow> 0), reterrno = 0,
       retbytes = []\<rparr>),
     call_event_add := (\<lambda>f fd ev t cb arg. ret 77), call_event_del := (\<lambda>f ev. ret ())\<rparr>"

definition example_v2 :: vde2_conn where
  "example_v2 = zero_vde2_conn\<lparr>data_fd := 8, ctl_fd := 9, data_ev_wr := 77, v2_conn := 20,
     pkt_queue := [\<lparr>numtries = 0, v2_pkt = example_pkt\<rparr>, \<lparr>numtries = 2, v2_pkt = example_pkt\<rparr>]\<rparr>"

definition example_v2_connection :: vde_connection where
  "example_v2_connection = \<lparr>attributes = NULL, c_context = 3, max_pload = 1518, pkt_head_sz = 0,
     pkt_tail_sz = 0, send_maxtries = 2, send_maxtimeout = \<lparr>tv_sec = 5, tv_usec = 0\<rparr>,
     be_write = Some Vde2_conn_write, be_close = Some Vde2_conn_close, be_priv = 30,
     read_cb = Some Hub_engine_readcb, write_cb = None, error_cb = Some Hub_engine_errorcb, cb_priv = 40\<rparr>"

definition example_v2_world :: world where
  "example_v2_world = example_ctx_world\<lparr>brk := 100, w_conn := [20 \<mapsto> example_v2_connection],
     w_v2c := [30 \<mapsto> example_v2], w_hub := [40 \<mapsto> \<lparr>hub_component = 50, ports = [20]\<rparr>]\<rparr>"

lemma example_v2_facts:
  "v2_at example_v2_world 20 example_v2_connection example_v2" "v2_queue_ok example_v2"
  "events_ok example_v2_env" "v2_waiting example_v2_world 20 = [''ABC'', ''ABC'']"
  using example_pkt_wf
  by (simp_all add: v2_at_def example_v2_world_def example_v2_connection_def example_v2_def ctx_events_def
      example_ctx_world_def example_context_def v2_queue_ok_def v2_pkt_ok_def vde2_consts size_defs
      events_ok_def example_v2_env_def v2_waiting_def v2_rec_def pkt_payload_def)
    (simp add: example_pkt_def)

theorem vde2_conn_write_outcomes_witness:
  "\<exists>w'. vde2_conn_write example_v2_env 20 example_pkt example_v2_world = Inr (0, w') \<and>
    v2_waiting w' 20 = [''ABC'', ''ABC'', ''ABC'']"
proof -
  have "length (pkt_queue example_v2) \<noteq> MAXQLEN" "\<not> PKT_DATA_SZ < unat (data_size example_pkt)"
    "\<not> malloc_null example_v2_env n" for n
    by (simp_all add: example_v2_def vde2_consts example_pkt_def size_defs example_v2_env_def)
  with vde2_conn_write_outcomes [OF example_v2_facts(1,2) example_pkt_wf(1) example_v2_facts(3)]
  show ?thesis using example_v2_facts(4) example_pkt_wf(2) by (auto simp: pkt_payload_def)
qed

theorem vde2_write_event_drains_witness:
  "\<exists>w'. vde2_conn_write_data_event 3 example_v2_env 30 example_v2_world = Inr ((), w') \<and>
    trace w' = [Sys_sendto 8 ''ABC'' zero_sa, Sys_sendto 8 ''ABC'' zero_sa] \<and> v2_waiting w' 20 = []"
proof -
  have "write_cb example_v2_connection = None" "data_ev_wr example_v2 \<noteq> NULL"
    "length (pkt_queue example_v2) < 3" "be_priv example_v2_connection = 30"
    "\<forall>tr fd bs sa. retval (sys example_v2_env tr (Sys_sendto fd bs sa)) = int (length bs)"
    "trace example_v2_world = []" "data_fd example_v2 = 8" "remote_sa example_v2 = zero_sa"
    by (simp_all add: example_v2_def example_v2_connection_def example_v2_env_def example_v2_world_def
        example_ctx_world_def empty_world_def zero_vde2_conn_def)
  with vde2_write_event_drains [OF example_v2_facts(1,2) _ example_v2_facts(3)] show ?thesis
    using example_v2_facts(4) by fastforce
qed

section \<open>Trying again\<close>


definition example_blocked_env :: env where
  "example_blocked_env = example_v2_env\<lparr>
     sys := (\<lambda>tr c. \<lparr>retval = - 1, reterrno = EAGAIN, retbytes = []\<rparr>),
     call_error_cb := (\<lambda>f conn pkt err hub. ret 0)\<rparr>"


section \<open>Reading\<close>

definition read_buffer :: "vde_connection \<Rightarrow> vde_pkt" where
  "read_buffer c = vde_pkt_init blank_pkt (of_nat PKT_DATA_SZ) (pkt_head_sz c) (pkt_tail_sz c)"

lemma tail_size_zero: "t \<le> MAX_TAIL_SZ \<Longrightarrow> t = 0"
  by (simp add: MAX_TAIL_SZ_def)

lemma read_buffer_fields:
  assumes "pkt_head_sz c \<le> MAX_HEAD_SZ" and "pkt_tail_sz c \<le> MAX_TAIL_SZ"
  shows "p_head (read_buffer c) = 4" and "4 \<le> p_payload (read_buffer c)" and "p_payload (read_buffer c) \<le> 8"
    and "p_tail (read_buffer c) = 1526" and "data_size (read_buffer c) = 1526"
    and "length (p_data (read_buffer c)) = 1530"
  using assms(1) tail_size_zero [OF assms(2)]
  by (simp_all add: read_buffer_def vde_pkt_init_def vde2_consts size_defs blank_pkt_def word_le_def)

lemma read_packet:
  assumes "pkt_head_sz c \<le> MAX_HEAD_SZ" and "pkt_tail_sz c \<le> MAX_TAIL_SZ" and "length bs \<le> 1518"
  shows "\<exists>d pkt. mem_write (p_data (read_buffer c)) (p_payload (read_buffer c)) bs = Inr d \<and>
    set_pkt_len ((read_buffer c)\<lparr>p_data := d\<rparr>) (length bs) = Inr pkt \<and> v2_pkt_ok pkt \<and> pkt_bytes pkt = Inr bs"
proof -
  let ?b = "read_buffer c"
  note b = read_buffer_fields [OF assms(1,2)]
  have "nat (p_payload ?b) + length bs \<le> 1530" using b(2,3) assms(3) by linarith
  then obtain d where d: "mem_write (p_data ?b) (p_payload ?b) bs = Inr d"
    using mem_write_ok [of "p_payload ?b" bs "p_data ?b"] b by auto
  have len: "length d = 1530" using mem_write_length [OF d] b by simp
  then obtain pkt where pkt: "set_pkt_len (?b\<lparr>p_data := d\<rparr>) (length bs) = Inr pkt"
    using set_pkt_len_ok [of "?b\<lparr>p_data := d\<rparr>"] by auto
  have small: "length bs mod 65536 = length bs" using assms(3) by simp
  note p = set_pkt_len_bytes [OF pkt, unfolded small, simplified, OF b(2)]
  have "p_head pkt = 4" "p_payload pkt = p_payload ?b" "p_tail pkt = 1526" "data_size pkt = 1526"
    by (subst p(1), simp add: b)+
  then have "v2_pkt_ok pkt"
    using p(2,3) len b(2,3) assms(3) by (simp add: v2_pkt_ok_def pkt_wf_def size_defs vde2_consts)
  moreover have "pkt_bytes pkt = Inr bs" using p(4) mem_read_write_same [OF d] by simp
  ultimately show ?thesis using d pkt by blast
qed

text \<open>How the answer of the engine's \<open>read_cb\<close> is used.\<close>

definition deliver :: "env \<Rightarrow> conn_read_cb \<Rightarrow> ptr \<Rightarrow> vde_pkt \<Rightarrow> ptr \<Rightarrow> unit prog" where
  "deliver E f conn pkt arg = mbind (call_read_cb E f conn pkt arg) (\<lambda>rv.
     mbind (gets errno) (\<lambda>e. if rv \<noteq> 0 \<and> e = EPIPE then close_conn E conn else ret ()))"

lemma read_event_delivers:
  assumes "v2_at w conn c v" and "read_cb c = Some f"
    and "pkt_head_sz c \<le> MAX_HEAD_SZ" and "pkt_tail_sz c \<le> MAX_TAIL_SZ" and "length bs \<le> 1518"
    and "sys E (trace w) (Sys_recvfrom (data_fd v) 1518) = \<lparr>retval = int (length bs), reterrno = x, retbytes = bs\<rparr>"
  shows "\<exists>pkt. v2_pkt_ok pkt \<and> pkt_bytes pkt = Inr bs \<and>
    vde2_conn_read_data_event E (be_priv c) w =
      (if length bs < 14 then ret () else deliver E f conn pkt (cb_priv c))
        (w\<lparr>trace := trace w @ [Sys_recvfrom (data_fd v) 1518]\<rparr>)"
proof -
  have c: "w_conn w conn = Some c" "conn \<noteq> NULL" "w_v2c w (be_priv c) = Some v" "v2_conn v = conn"
    using assms(1) by (simp_all add: v2_at_def)
  obtain d pkt where d: "mem_write (p_data (read_buffer c)) (p_payload (read_buffer c)) bs = Inr d"
    "set_pkt_len ((read_buffer c)\<lparr>p_data := d\<rparr>) (length bs) = Inr pkt" "v2_pkt_ok pkt" "pkt_bytes pkt = Inr bs"
    using read_packet [OF assms(3-5)] by blast
  have u: "uint (word_of_int (int (length bs)) :: 64 word) = int (length bs)"
    unfolding uint_word_of_int using assms(5) by simp
  have n: "nat (int (length bs) mod 65536) = length bs" using assms(5) by simp
  have "vde2_conn_read_data_event E (be_priv c) w =
      (if length bs < 14 then ret () else deliver E f conn pkt (cb_priv c))
        (w\<lparr>trace := trace w @ [Sys_recvfrom (data_fd v) 1518]\<rparr>)"
    using c d(1,2) assms(2-6) u n
    by (auto simp: vde2_conn_read_data_event_def mon Let_def read_buffer_def [symmetric] deliver_def size_defs
        split: sum.splits)
  with d(3,4) show ?thesis by blast
qed

text \<open>C31: a frame of at least 14 bytes reaches the engine exactly once, as a well-formed packet whose
  payload is what the socket delivered; a shorter one is ignored. The connection is closed exactly
  when the engine answers with \<open>EPIPE\<close>.\<close>

theorem vde2_read_event_delivers:
  assumes "v2_at w conn c v" and "read_cb c = Some f"
    and "pkt_head_sz c \<le> MAX_HEAD_SZ" and "pkt_tail_sz c \<le> MAX_TAIL_SZ" and "length bs \<le> 1518"
    and "sys E (trace w) (Sys_recvfrom (data_fd v) 1518) = \<lparr>retval = int (length bs), reterrno = x, retbytes = bs\<rparr>"
  shows "\<exists>pkt. v2_pkt_ok pkt \<and> pkt_bytes pkt = Inr bs \<and>
    vde2_conn_read_data_event E (be_priv c) w =
      (if length bs < 14 then ret () else deliver E f conn pkt (cb_priv c))
        (w\<lparr>trace := trace w @ [Sys_recvfrom (data_fd v) 1518]\<rparr>)"
  using read_event_delivers [OF assms] .

definition example_read_env :: "int \<Rightarrow> string \<Rightarrow> env" where
  "example_read_env r bs = example_v2_env\<lparr>
     sys := (\<lambda>tr c. \<lparr>retval = r, reterrno = EAGAIN, retbytes = bs\<rparr>),
     call_read_cb := (\<lambda>f conn pkt hub. lift (fbind (pkt_bytes pkt) (\<lambda>bs. Inr (int (length bs)))))\<rparr>"

theorem vde2_read_event_delivers_witness:
  "vde2_conn_read_data_event (example_read_env 20 (replicate 20 CHR ''x'')) 30 example_v2_world =
    Inr ((), example_v2_world\<lparr>trace := [Sys_recvfrom 8 1518]\<rparr>)"
proof -
  let ?E = "example_read_env 20 (replicate 20 CHR ''x'')"
  have r: "read_cb example_v2_connection = Some Hub_engine_readcb"
    and h: "pkt_head_sz example_v2_connection \<le> MAX_HEAD_SZ"
    and t: "pkt_tail_sz example_v2_connection \<le> MAX_TAIL_SZ"
    and l: "length (replicate 20 CHR ''x'') \<le> 1518"
    and s: "sys ?E (trace example_v2_world) (Sys_recvfrom (data_fd example_v2) 1518) =
      \<lparr>retval = int (length (replicate 20 CHR ''x'')), reterrno = EAGAIN, retbytes = replicate 20 CHR ''x''\<rparr>"
    by (simp_all add: example_v2_connection_def vde2_consts example_read_env_def)
  from vde2_read_event_delivers [OF example_v2_facts(1) r h t l s] show ?thesis
    by (auto simp: deliver_def mon example_read_env_def example_v2_world_def example_ctx_world_def
        empty_world_def example_v2_connection_def example_v2_def)
qed

text \<open>A packet whose header claims more than its buffer holds cannot be copied.\<close>

lemma compact_cpy_overrun:
  assumes "get_pkt_len src = Inr n" and "length (p_data src) < n" and "4 \<le> length (p_data src)"
    and "4 \<le> length (p_data dst)"
  shows "pkt_bytes src = Inl Out_Of_Bounds" and "vde_pkt_compact_cpy dst src = Inl Out_Of_Bounds"
proof -
  have "mem_read (p_data src) (p_payload src) n = Inl Out_Of_Bounds"
    using assms(2) by (simp add: mem_read_def)
  then show "pkt_bytes src = Inl Out_Of_Bounds" and "vde_pkt_compact_cpy dst src = Inl Out_Of_Bounds"
    using assms(1,3,4)
    by (simp_all add: pkt_bytes_def vde_pkt_compact_cpy_def vde_pkt_init_def mem_read_def mem_write_def
        size_defs)
qed

text \<open>The result of \<open>recvfrom\<close> is compared with an unsigned size, so an error (\<open>- 1\<close>, for instance
  \<open>EAGAIN\<close>) passes for a long frame: the engine gets a packet that claims 65535 bytes in a buffer of
  1530, and queueing it on any vde2 connection with room reads out of bounds.\<close>

theorem vde2_read_error_overruns:
  assumes "v2_at w conn c v" and "read_cb c = Some f"
    and "pkt_head_sz c \<le> MAX_HEAD_SZ" and "pkt_tail_sz c \<le> MAX_TAIL_SZ"
    and "sys E (trace w) (Sys_recvfrom (data_fd v) 1518) = \<lparr>retval = - 1, reterrno = x, retbytes = bs\<rparr>"
  shows "\<exists>pkt. get_pkt_len pkt = Inr 65535 \<and> length (p_data pkt) = 1530 \<and>
    vde2_conn_read_data_event E (be_priv c) w = deliver E f conn pkt (cb_priv c)
      (w\<lparr>trace := trace w @ [Sys_recvfrom (data_fd v) 1518], errno := x\<rparr>) \<and>
    (\<forall>X d k u w1. v2_at w1 d k u \<longrightarrow> length (pkt_queue u) < MAXQLEN \<longrightarrow> \<not> malloc_null X (brk w1) \<longrightarrow>
      vde2_conn_write X d pkt w1 = Inl Out_Of_Bounds)"
proof -
  have c: "w_conn w conn = Some c" "conn \<noteq> NULL" "w_v2c w (be_priv c) = Some v" "v2_conn v = conn"
    using assms(1) by (simp_all add: v2_at_def)
  note b = read_buffer_fields [OF assms(3,4)]
  obtain pkt where pkt: "set_pkt_len (read_buffer c) 65535 = Inr pkt"
    using set_pkt_len_ok [of "read_buffer c"] b by auto
  note p = set_pkt_len_bytes [OF pkt b(2)]
  have sz: "data_size pkt = 1526" by (subst p(1)) (simp add: b)
  have big: "14 \<le> uint (- 1 :: 64 word)"
    by (simp add: unsigned_minus_1_eq_mask mask_eq_exp_minus_1)
  have ev: "vde2_conn_read_data_event E (be_priv c) w = deliver E f conn pkt (cb_priv c)
      (w\<lparr>trace := trace w @ [Sys_recvfrom (data_fd v) 1518], errno := x\<rparr>)"
    using c pkt assms(2-5) big
    by (auto simp: vde2_conn_read_data_event_def mon Let_def read_buffer_def [symmetric] deliver_def size_defs
        split: sum.splits)
  have "vde_pkt_compact_cpy blank_pkt pkt = Inl Out_Of_Bounds"
    by (rule compact_cpy_overrun [of _ 65535]) (use p(2,3) b(6) in \<open>simp_all add: blank_pkt_length\<close>)
  then have "vde2_conn_write X d pkt w1 = Inl Out_Of_Bounds"
    if "v2_at w1 d k u" "length (pkt_queue u) < MAXQLEN" "\<not> malloc_null X (brk w1)" for X d k u w1
    using that sz by (auto simp: v2_at_def vde2_conn_write_def mon vde2_consts size_defs)
  with p(2,3) b(6) ev show ?thesis by auto
qed

theorem vde2_read_error_overruns_witness:
  "vde2_conn_read_data_event (example_read_env (- 1) []) 30 example_v2_world = Inl Out_Of_Bounds"
proof -
  let ?E = "example_read_env (- 1) []"
  have r: "read_cb example_v2_connection = Some Hub_engine_readcb"
    and h: "pkt_head_sz example_v2_connection \<le> MAX_HEAD_SZ"
    and t: "pkt_tail_sz example_v2_connection \<le> MAX_TAIL_SZ"
    and s: "sys ?E (trace example_v2_world) (Sys_recvfrom (data_fd example_v2) 1518) =
      \<lparr>retval = - 1, reterrno = EAGAIN, retbytes = []\<rparr>"
    by (simp_all add: example_v2_connection_def vde2_consts example_read_env_def)
  from vde2_read_error_overruns [OF example_v2_facts(1) r h t s] obtain pkt where
    "get_pkt_len pkt = Inr 65535" "length (p_data pkt) = 1530"
    "vde2_conn_read_data_event ?E 30 example_v2_world = deliver ?E Hub_engine_readcb 20 pkt 40
      (example_v2_world\<lparr>trace := trace example_v2_world @ [Sys_recvfrom (data_fd example_v2) 1518], errno := EAGAIN\<rparr>)"
    by (auto simp: example_v2_connection_def)
  then show ?thesis
    using compact_cpy_overrun(1) [of pkt 65535 blank_pkt]
    by (simp add: deliver_def mon example_read_env_def blank_pkt_length)
qed

end
