(* ===== verification/Vde2Socket.thy ===== *)
theory Vde2Socket
  imports Vde2
begin

text \<open>
  The sockets of the vde2 transport: the paths they are bound to, what \<open>vde2_listen\<close> leaves
  behind on every error path, and what closing a connection during the handshake closes.
\<close>

section \<open>Paths\<close>

definition digit :: "nat \<Rightarrow> char" where "digit n = char_of (48 + n)"

lemma digit_inj: "m < 10 \<Longrightarrow> n < 10 \<Longrightarrow> digit m = digit n \<Longrightarrow> m = n"
  by (auto simp: digit_def dest!: arg_cong [where f = "of_char :: char \<Rightarrow> nat"])

lemma format_04d_small:
  assumes "n < 10000"
  shows "format_04d (int n) = [digit (n div 1000), digit (n div 100 mod 10), digit (n div 10 mod 10), digit (n mod 10)]"
proof -
  have d: "dec_digits k = (if k < 10 then [digit k] else dec_digits (k div 10) @ [digit (k mod 10)])" for k
    by (subst dec_digits.simps) (simp add: digit_def)
  have r: "replicate 2 x = [x, x]" "replicate 3 x = [x, x, x]" for x :: char
    by (simp_all add: numeral_eq_Suc)
  have z: "CHR ''0'' = digit 0" by code_simp
  consider "n < 10" | "10 \<le> n" "n < 100" | "100 \<le> n" "n < 1000" | "1000 \<le> n" by linarith
  then show ?thesis
  proof cases
    case 1
    then show ?thesis by (simp add: format_04d_def d [of n] z r)
  next
    case 2
    moreover from this have "n div 10 < 10" by auto
    ultimately show ?thesis by (simp add: format_04d_def d [of n] d [of "n div 10"] z r)
  next
    case 3
    then show ?thesis
      by (simp add: format_04d_def d [of n] d [of "n div 10"] d [of "n div 100"] z r div_mult2_eq [symmetric])
  next
    case 4
    with assms show ?thesis
      by (simp add: format_04d_def d [of n] d [of "n div 10"] d [of "n div 100"] d [of "n div 1000"]
          z r div_mult2_eq [symmetric])
  qed
qed

lemma format_04d_inj:
  assumes "m < 10000" and "n < 10000" and "format_04d (int m) = format_04d (int n)"
  shows "m = n"
proof -
  have a: "m div 1000 < 10" "n div 1000 < 10" using assms(1,2) by auto
  have e: "digit (m div 1000) = digit (n div 1000)" "digit (m div 100 mod 10) = digit (n div 100 mod 10)"
    "digit (m div 10 mod 10) = digit (n div 10 mod 10)" "digit (m mod 10) = digit (n mod 10)"
    using assms(3) by (simp_all add: format_04d_small assms(1,2))
  have "m div 1000 = n div 1000" by (rule digit_inj) (fact a e)+
  moreover have "m div 100 mod 10 = n div 100 mod 10" by (rule digit_inj) (simp_all add: e)
  moreover have "m div 10 mod 10 = n div 10 mod 10" by (rule digit_inj) (simp_all add: e)
  moreover have "m mod 10 = n mod 10" by (rule digit_inj) (simp_all add: e)
  moreover have "k = 10 * (10 * (10 * (k div 1000) + k div 100 mod 10) + k div 10 mod 10) + k mod 10" for k :: nat
    using mult_div_mod_eq [of 10 k] mult_div_mod_eq [of 10 "k div 10"] mult_div_mod_eq [of 10 "k div 100"]
    by (simp add: div_mult2_eq [symmetric])
  ultimately show ?thesis by metis
qed

text \<open>A socket directory of at most 102 characters gives every connection its own data socket: the
  paths of different connections below 10000 differ, differ from the control socket's and are not
  truncated.\<close>

theorem data_socket_paths_distinct:
  assumes "length dir \<le> 102" and "m < 10000" and "n < 10000"
  shows "unix_path dir (format_04d (int n)) = dir @ ''/'' @ format_04d (int n) \<and>
    unix_path dir (format_04d (int n)) \<noteq> unix_path dir ''ctl'' \<and>
    (unix_path dir (format_04d (int m)) = unix_path dir (format_04d (int n)) \<longleftrightarrow> m = n)"
proof -
  have l: "length (format_04d (int k)) = 4" if "k < 10000" for k
    using that by (simp add: format_04d_small)
  have p: "unix_path dir (format_04d (int k)) = dir @ ''/'' @ format_04d (int k)" if "k < 10000" for k
    using assms(1) l [OF that] by (simp add: unix_path_def vde2_consts)
  have ctl: "unix_path dir ''ctl'' = dir @ ''/ctl''"
    using assms(1) by (simp add: unix_path_def vde2_consts)
  have "unix_path dir (format_04d (int n)) \<noteq> unix_path dir ''ctl''"
    using l [OF assms(3)] by (auto simp: p [OF assms(3)] ctl dest: arg_cong [where f = length])
  then show ?thesis
    using format_04d_inj [OF assms(2,3)] by (auto simp: p assms(2,3))
qed

theorem data_socket_paths_distinct_witness:
  "unix_path ''/tmp/vde'' (format_04d 7) = ''/tmp/vde/0007'' \<and>
    unix_path ''/tmp/vde'' (format_04d 7) \<noteq> unix_path ''/tmp/vde'' (format_04d 12)"
proof -
  have f: "format_04d 7 = ''0007''" by code_simp
  have "length ''/tmp/vde'' \<le> 102" "(7 :: nat) < 10000" "(12 :: nat) < 10000" by simp_all
  from data_socket_paths_distinct [OF this(1,3,2)] show ?thesis by (auto simp: f)
qed

text \<open>\<open>transport_vde2_init\<close> accepts a directory of 104 characters, but not even \<open>/ctl\<close> fits behind
  it: the control socket's path is cut short, and the first hundred connections all get the same
  path for their data sockets.\<close>

theorem long_socket_dir_collides:
  assumes "length dir = 104" and "component \<noteq> NULL" and "w_comp w component = Some k"
    and "\<forall>p. \<not> malloc_null E p" and "0 < brk w" and "m < 100" and "n < 100"
  shows "(\<exists>w'. transport_vde2_init E component (SHash [(''path'', SString dir)]) w = Inr (0, w') \<and>
      map_option vdesock_dir (w_tr w' (brk w)) = Some dir) \<and>
    unix_path dir ''ctl'' = dir @ ''/ct'' \<and>
    unix_path dir (format_04d (int m)) = unix_path dir (format_04d (int n))"
proof -
  have "unix_path dir (format_04d (int j)) = dir @ ''/00''" if "j < 100" for j
  proof -
    have "j div 1000 = 0" "j div 100 mod 10 = 0" "digit 0 = CHR ''0''"
      using that by (simp_all, code_simp)
    with that assms(1) show ?thesis
      by (simp add: unix_path_def vde2_consts format_04d_small)
  qed
  moreover have "unix_path dir ''ctl'' = dir @ ''/ct''"
    using assms(1) by (simp add: unix_path_def vde2_consts)
  ultimately show ?thesis
    using assms by (simp add: transport_vde2_init_def mon vde2_consts vde_component_set_priv_def)
qed

definition example_tr_component :: vde_component where
  "example_tr_component = zero_component\<lparr>comp_ctx := 3, comp_kind := VDE_TRANSPORT, comp_family := ''vde2'',
     comp_priv := 60, initialized := True\<rparr>"

definition example_tr_world :: world where
  "example_tr_world = example_ctx_world\<lparr>brk := 100, w_comp := [50 \<mapsto> example_tr_component],
     w_tr := [60 \<mapsto> \<lparr>vdesock_dir = ''/tmp/vde'', listen_fd = 0, listen_event = NULL, connections = 0,
       tr_pending_conns = []\<rparr>]\<rparr>"

theorem long_socket_dir_collides_witness:
  "unix_path (replicate 104 CHR ''d'') (format_04d 0) = unix_path (replicate 104 CHR ''d'') (format_04d 99)"
proof -
  have "length (replicate 104 CHR ''d'') = 104" "(50 :: nat) \<noteq> NULL"
    "w_comp example_tr_world 50 = Some example_tr_component" "\<forall>p. \<not> malloc_null base_env p"
    "0 < brk example_tr_world" "(0 :: nat) < 100" "(99 :: nat) < 100"
    by (simp_all add: example_tr_world_def)
  from long_socket_dir_collides [OF this] show ?thesis by auto
qed

section \<open>Listening\<close>

text \<open>
  \<open>vde2_listen\<close> is followed by rules that forget what the calls answer, but for the socket's
  descriptor. \<open>quiet w w'\<close>: the two states differ in the trace and \<open>errno\<close> at most.
\<close>

definition quiet :: "world \<Rightarrow> world \<Rightarrow> bool" where
  "quiet w w' \<longleftrightarrow> w'\<lparr>trace := [], errno := 0\<rparr> = w\<lparr>trace := [], errno := 0\<rparr>"

lemma quiet_simps [simp]:
  "quiet w w" "quiet w (w1\<lparr>trace := tr, errno := e\<rparr>) \<longleftrightarrow> quiet w w1" "quiet w (w1\<lparr>errno := e\<rparr>) \<longleftrightarrow> quiet w w1"
  "quiet w (w1\<lparr>trace := tr\<rparr>) \<longleftrightarrow> quiet w w1"
  by (simp_all add: quiet_def)

lemma quiet_fields:
  assumes "quiet w w1"
  shows "w_tr w1 = w_tr w" and "w_ctx w1 = w_ctx w"
  using arg_cong [OF assms [unfolded quiet_def], of w_tr] arg_cong [OF assms [unfolded quiet_def], of w_ctx]
  by simp_all

lemma wp_quiet_syscall:
  assumes "quiet w0 w" and "\<And>w'. quiet w0 w' \<Longrightarrow> last (trace w') = c \<Longrightarrow> Q (sys E (trace w) c) w'"
  shows "wp (syscall E c) Q w"
  using assms(1) by (intro wp_syscall assms(2)) simp_all

lemma wp_remove_sock:
  assumes "quiet w0 w" and "\<And>used w'. quiet w0 w' \<Longrightarrow> Q used w'"
  shows "wp (vde2_remove_sock_if_unused E sa) Q w"
  unfolding vde2_remove_sock_if_unused_def
  using assms(1) by (intro wpI wp_quiet_syscall [where ?w0.0 = w0] assms(2)) auto

text \<open>The end of \<open>vde2_listen\<close>: with a listening socket, or after the label \<open>error_close\<close>.\<close>

definition listen_done :: "ptr \<Rightarrow> int \<Rightarrow> int \<Rightarrow> world \<Rightarrow> bool" where
  "listen_done tr fd r w' \<longleftrightarrow> (\<exists>t'. w_tr w' tr = Some t' \<and>
     ((r = 0 \<and> 0 \<le> fd \<and> listen_fd t' = fd \<and> listen_event t' \<noteq> NULL \<and> last (trace w') = Sys_listen fd 15) \<or>
      (r = - 1 \<and> listen_fd t' < 0 \<and> (0 \<le> fd \<longrightarrow> last (trace w') = Sys_close fd))))"

lemma wp_error_close:
  assumes "quiet w1 w" and "last (trace w) = Sys_close fd" and "w_tr w1 tr = Some t"
  shows "wp (upd_tr tr (\<lambda>t. t\<lparr>listen_fd := - 1\<rparr>)) (\<lambda>_. wp (fail_errno e) (listen_done tr fd)) w"
  using assms quiet_fields(1) [OF assms(1)]
  by (auto simp: wp_def listen_done_def)

lemma wp_listen_ok:
  assumes "quiet w1 w" and "w_tr w1 tr = Some t" and "listen_fd t = fd" and "0 \<le> fd"
    and "ctx_events w1 ctx" and "events_ok E" and "last (trace w) = Sys_listen fd LISTEN_QUEUE"
  shows "wp (vde_context_event_add E ctx fd evs to cb arg) (\<lambda>ev.
      wp (mbind (upd_tr tr (\<lambda>t. t\<lparr>listen_event := ev\<rparr>)) (\<lambda>_. ret 0)) (listen_done tr fd)) w"
proof -
  have "ctx_events w ctx" using assms(5) quiet_fields(2) [OF assms(1)] by (simp add: ctx_events_def)
  then obtain ev where "ev \<noteq> NULL" "vde_context_event_add E ctx fd evs to cb arg w = Inr (ev, w)"
    using event_add_ok [OF assms(6)] by blast
  then show ?thesis
    using assms(2-4,7) quiet_fields(1) [OF assms(1)]
    by (auto simp: wp_def mon listen_done_def vde2_consts)
qed

text \<open>C32: \<open>vde2_listen\<close> either succeeds, with the descriptor of the new socket stored, listening and
  watched, or returns \<open>- 1\<close> with no descriptor stored and the socket, if there was one, closed
  again as its last action.\<close>

theorem vde2_listen_no_leak:
  assumes "w_comp w component = Some k" and "component \<noteq> NULL" and "w_tr w (comp_priv k) = Some t"
    and "ctx_events w (comp_ctx k)" and "events_ok E"
  shows "\<exists>r w' t'. vde2_listen E component w = Inr (r, w') \<and> w_tr w' (comp_priv k) = Some t' \<and>
    (let fd = retval (sys E (trace w) Sys_socket_stream)
     in (r = 0 \<and> 0 \<le> fd \<and> listen_fd t' = fd \<and> listen_event t' \<noteq> NULL \<and> last (trace w') = Sys_listen fd 15) \<or>
        (r = - 1 \<and> listen_fd t' < 0 \<and> (0 \<le> fd \<longrightarrow> last (trace w') = Sys_close fd)))"
proof -
  let ?fd = "retval (sys E (trace w) Sys_socket_stream)" and ?tr = "comp_priv k"
  define w1 where "w1 = w\<lparr>trace := trace w @ [Sys_socket_stream],
    errno := (if ?fd < 0 then reterrno (sys E (trace w) Sys_socket_stream) else errno w),
    w_tr := (w_tr w)(?tr \<mapsto> t\<lparr>listen_fd := ?fd\<rparr>)\<rparr>"
  have tr1: "w_tr w1 ?tr = Some (t\<lparr>listen_fd := ?fd\<rparr>)" and ctx1: "ctx_events w1 (comp_ctx k)"
    using assms(4) by (simp_all add: w1_def ctx_events_def)
  have head: "mbind (vde_component_get_context E component) (\<lambda>ctx.
      mbind (vde_component_get_priv E component) (\<lambda>tr.
      mbind (syscall E Sys_socket_stream) (\<lambda>s.
      mbind (upd_tr tr (\<lambda>t. t\<lparr>listen_fd := retval s\<rparr>)) (\<lambda>_.
      mbind (deref w_tr tr) (F ctx tr s))))) w = F (comp_ctx k) ?tr (sys E (trace w) Sys_socket_stream) (t\<lparr>listen_fd := ?fd\<rparr>) w1" for F
    using assms(1-3) by (simp add: mon w1_def)
  have "wp (vde2_listen E component) (listen_done ?tr ?fd) w"
    unfolding vde2_listen_def wp_def head Let_def
    unfolding wp_def [symmetric]
    by (intro wp_mbind wp_if wp_case_option wp_gets wp_ret wp_quiet_syscall [where ?w0.0 = w1]
          wp_remove_sock [where ?w0.0 = w1])
      (assumption | rule wp_error_close [OF _ _ tr1] wp_listen_ok [OF _ tr1 _ _ ctx1 assms(5)]
        | simp add: wp_def listen_done_def tr1)+
  then show ?thesis by (auto simp: wp_def listen_done_def)
qed

definition example_listen_env :: env where
  "example_listen_env = base_env\<lparr>
     sys := (\<lambda>tr c. \<lparr>retval = (if c = Sys_socket_stream then 5 else 0), reterrno = 0, retbytes = []\<rparr>),
     call_event_add := (\<lambda>f fd ev t cb arg. ret 77), call_event_del := (\<lambda>f ev. ret ())\<rparr>"

lemma example_listen_events: "events_ok example_listen_env" "ctx_events example_tr_world 3"
  by (simp_all add: events_ok_def example_listen_env_def ctx_events_def example_tr_world_def
      example_ctx_world_def example_context_def)

theorem vde2_listen_no_leak_witness:
  "\<exists>r w' t'. vde2_listen example_listen_env 50 example_tr_world = Inr (r, w') \<and> w_tr w' 60 = Some t' \<and>
    ((r = 0 \<and> listen_fd t' = 5 \<and> last (trace w') = Sys_listen 5 15) \<or>
     (r = - 1 \<and> listen_fd t' < 0 \<and> last (trace w') = Sys_close 5))"
proof -
  have c: "w_comp example_tr_world 50 = Some example_tr_component" "(50 :: nat) \<noteq> NULL"
    and t: "w_tr example_tr_world (comp_priv example_tr_component) = Some \<lparr>vdesock_dir = ''/tmp/vde'',
      listen_fd = 0, listen_event = NULL, connections = 0, tr_pending_conns = []\<rparr>"
    and x: "ctx_events example_tr_world (comp_ctx example_tr_component)"
    using example_listen_events(2) by (simp_all add: example_tr_world_def example_tr_component_def)
  have "retval (sys example_listen_env tr Sys_socket_stream) = 5" for tr
    by (simp add: example_listen_env_def)
  with vde2_listen_no_leak [OF c t x example_listen_events(1)] show ?thesis
    by (fastforce simp: Let_def example_tr_component_def)
qed

section \<open>Closing\<close>

text \<open>The system calls \<open>vde2_conn_close\<close> makes.\<close>

definition close_calls :: "vde2_conn \<Rightarrow> syscall list" where
  "close_calls v = (if 0 \<le> data_fd v then [Sys_close (data_fd v)] else []) @
     [Sys_unlink (sun_path (local_sa v))] @ (if 0 \<le> ctl_fd v then [Sys_close (ctl_fd v)] else [])"

lemma close_if_eval:
  "\<exists>e. close_if E fd w = Inr ((), w\<lparr>trace := trace w @ (if 0 \<le> fd then [Sys_close fd] else []), errno := e\<rparr>)"
proof (cases "0 \<le> fd")
  case True
  then have "close_if E fd w = Inr ((), w\<lparr>trace := trace w @ [Sys_close fd], errno :=
      (if retval (sys E (trace w) (Sys_close fd)) < 0 then reterrno (sys E (trace w) (Sys_close fd)) else errno w)\<rparr>)"
    by (simp add: close_if_def syscall_apply mbind_apply)
  then show ?thesis unfolding if_P [OF True] by blast
next
  case False
  then have "close_if E fd w = Inr ((), w\<lparr>trace := trace w @ [], errno := errno w\<rparr>)" by (simp add: close_if_def)
  then show ?thesis unfolding if_not_P [OF False] by blast
qed

lemma event_del_if_eval: "events_ok E \<Longrightarrow> ctx_events w ctx \<Longrightarrow> event_del_if E ctx ev w = Inr ((), w)"
  by (simp add: event_del_if_def event_del_ok)

lemma conn_close_eval:
  assumes "v2_at w conn c v" and "events_ok E"
  shows "\<exists>e. vde2_conn_close E conn w = Inr ((), w\<lparr>trace := trace w @ close_calls v, errno := e,
    w_v2c := (w_v2c w)(be_priv c := None)\<rparr>)"
proof -
  have c: "w_conn w conn = Some c" "conn \<noteq> NULL" "w_v2c w (be_priv c) = Some v" "be_priv c \<noteq> NULL"
    "ctx_events w (c_context c)"
    using assms(1) by (simp_all add: v2_at_def)
  let ?t1 = "if 0 \<le> data_fd v then [Sys_close (data_fd v)] else []"
  obtain e1 where 1: "close_if E (data_fd v) w = Inr ((), w\<lparr>trace := trace w @ ?t1, errno := e1\<rparr>)" (is "_ = Inr ((), ?w1)")
    using close_if_eval by blast
  obtain r e2 where 2: "syscall E (Sys_unlink (sun_path (local_sa v))) ?w1 =
      Inr (r, ?w1\<lparr>trace := trace ?w1 @ [Sys_unlink (sun_path (local_sa v))], errno := e2\<rparr>)" (is "_ = Inr (_, ?w2)")
    by (auto simp: syscall_apply)
  obtain e3 where 3: "close_if E (ctl_fd v) ?w2 = Inr ((), ?w2\<lparr>trace := trace ?w2 @
      (if 0 \<le> ctl_fd v then [Sys_close (ctl_fd v)] else []), errno := e3\<rparr>)" (is "_ = Inr ((), ?w3)")
    using close_if_eval by blast
  have "ctx_events ?w1 (c_context c)" "ctx_events ?w3 (c_context c)" using c(5) by (simp_all add: ctx_events_def)
  then have d: "event_del_if E (c_context c) ev ?w1 = Inr ((), ?w1)"
    "event_del_if E (c_context c) ev ?w3 = Inr ((), ?w3)" for ev
    using event_del_if_eval [OF assms(2)] by blast+
  have "vde2_conn_close E conn w = dealloc w_v2c w_v2c_update (be_priv c) ?w3"
    unfolding vde2_conn_close_def
    by (simp only: mbind_Inr conn_getters [OF c(1,2)] deref_Some [where h = w_v2c, OF c(3)] 1 2 3 d)
  then show ?thesis using c(3,4) by (auto simp: dealloc_apply close_calls_def)
qed

lemma close_conn_eval:
  assumes "v2_at w conn c v" and "call_be_close E Vde2_conn_close = vde2_conn_close X" and "events_ok X"
  shows "\<exists>e. close_conn E conn w = Inr ((), w\<lparr>trace := trace w @ close_calls v, errno := e,
    w_v2c := (w_v2c w)(be_priv c := None), w_conn := (w_conn w)(conn := None)\<rparr>)"
proof -
  obtain e where "vde2_conn_close X conn w = Inr ((), w\<lparr>trace := trace w @ close_calls v, errno := e,
      w_v2c := (w_v2c w)(be_priv c := None)\<rparr>)"
    using conn_close_eval [OF assms(1,3)] by blast
  with assms(1,2) show ?thesis by (auto simp: v2_at_def close_conn_def mon)
qed

text \<open>The private record \<open>vde2_accept\<close> prepares: only the control descriptor is known.\<close>

definition half_open :: "int \<Rightarrow> ptr \<Rightarrow> ptr \<Rightarrow> ptr \<Rightarrow> vde2_conn" where
  "half_open fd conn component ev =
     zero_vde2_conn\<lparr>ctl_fd := fd, v2_conn := conn, v2_transport := component, pkt_queue := [], ctl_ev := ev\<rparr>"

text \<open>A peer that hangs up before it has sent its request makes the transport drop the connection: the
  record, the connection and the pending entry go, the control descriptor is closed; but since
  \<open>data_fd\<close> is still the 0 of \<open>calloc\<close>, descriptor 0 (standard input) is closed with it.\<close>

theorem vde2_hangup_closes_descriptor_0:
  assumes "v2_at w conn c (half_open fd conn component ev)" and "ev \<noteq> NULL" and "0 \<le> fd"
    and "w_comp w component = Some k" and "component \<noteq> NULL" and "w_tr w (comp_priv k) = Some t"
    and "ctx_events w (comp_ctx k)" and "events_ok E" and "distinct (tr_pending_conns t)"
    and "retval (sys E (trace w) (Sys_read fd 256)) = 0"
    and "call_be_close E Vde2_conn_close = vde2_conn_close X" and "events_ok X"
  shows "\<exists>w' t'. vde2_srv_get_request E (be_priv c) w = Inr ((), w') \<and>
    trace w' = trace w @ [Sys_read fd 256, Sys_close 0, Sys_unlink [], Sys_close fd] \<and>
    w_conn w' conn = None \<and> w_v2c w' (be_priv c) = None \<and> w_tr w' (comp_priv k) = Some t' \<and>
    be_priv c \<notin> set (tr_pending_conns t')"
proof -
  let ?h = "half_open fd conn component ev" and ?p = "be_priv c"
  let ?h1 = "?h\<lparr>ctl_ev := NULL\<rparr>" and ?t1 = "t\<lparr>tr_pending_conns := remove1 (be_priv c) (tr_pending_conns t)\<rparr>"
  let ?w1 = "w\<lparr>w_v2c := (w_v2c w)(?p \<mapsto> ?h1), trace := trace w @ [Sys_read fd 256],
    w_tr := (w_tr w)(comp_priv k \<mapsto> ?t1)\<rparr>"
  have c: "w_conn w conn = Some c" "conn \<noteq> NULL" "w_v2c w ?p = Some ?h"
    using assms(1) by (simp_all add: v2_at_def)
  have f: "v2_conn ?h = conn" "v2_transport ?h = component" "ctl_fd ?h = fd" "ctl_ev ?h = ev"
    by (simp_all add: half_open_def)
  have run: "vde2_srv_get_request E ?p w = close_conn E conn ?w1"
    using c f assms(2-8,10)
    by (simp add: vde2_srv_get_request_def mon event_del_ok [OF assms(8,7,2)] REQBUFLEN_def Let_def)
  have at1: "v2_at ?w1 conn c ?h1"
    using assms(1) by (auto simp: v2_at_def ctx_events_def half_open_def)
  have calls: "close_calls ?h1 = [Sys_close 0, Sys_unlink [], Sys_close fd]"
    using assms(3) by (simp add: close_calls_def half_open_def zero_vde2_conn_def zero_sa_def)
  obtain e where "close_conn E conn ?w1 = Inr ((), ?w1\<lparr>trace := trace ?w1 @ close_calls ?h1, errno := e,
      w_v2c := (w_v2c ?w1)(?p := None), w_conn := (w_conn ?w1)(conn := None)\<rparr>)"
    using close_conn_eval [OF at1 assms(11,12)] by blast
  with run calls assms(9) show ?thesis by simp
qed

definition example_hangup_env :: env where
  "example_hangup_env = example_listen_env\<lparr>call_be_close := (\<lambda>f. vde2_conn_close example_listen_env)\<rparr>"

definition example_hangup_conn :: vde_connection where
  "example_hangup_conn = \<lparr>attributes = NULL, c_context = 3, max_pload = 1518, pkt_head_sz = 0,
     pkt_tail_sz = 0, send_maxtries = 0, send_maxtimeout = \<lparr>tv_sec = 0, tv_usec = 0\<rparr>,
     be_write = Some Vde2_conn_write, be_close = Some Vde2_conn_close, be_priv = 30,
     read_cb = None, write_cb = None, error_cb = None, cb_priv = NULL\<rparr>"

definition example_hangup_world :: world where
  "example_hangup_world = example_tr_world\<lparr>w_conn := [20 \<mapsto> example_hangup_conn],
     w_v2c := [30 \<mapsto> half_open 9 20 50 77],
     w_tr := [60 \<mapsto> \<lparr>vdesock_dir = ''/tmp/vde'', listen_fd = 5, listen_event = 77, connections = 0,
       tr_pending_conns = [30]\<rparr>]\<rparr>"

theorem vde2_hangup_closes_descriptor_0_witness:
  "\<exists>w'. vde2_srv_get_request example_hangup_env 30 example_hangup_world = Inr ((), w') \<and>
    trace w' = [Sys_read 9 256, Sys_close 0, Sys_unlink [], Sys_close 9] \<and> w_conn w' 20 = None"
proof -
  let ?t = "\<lparr>vdesock_dir = ''/tmp/vde'', listen_fd = 5, listen_event = 77, connections = 0, tr_pending_conns = [30]\<rparr>"
  have ctx: "ctx_events example_hangup_world 3"
    using example_listen_events(2) by (simp add: ctx_events_def example_hangup_world_def)
  have at: "v2_at example_hangup_world 20 example_hangup_conn (half_open 9 20 50 77)"
    using ctx by (simp add: v2_at_def example_hangup_world_def example_hangup_conn_def half_open_def)
  have c: "w_comp example_hangup_world 50 = Some example_tr_component"
    "w_tr example_hangup_world (comp_priv example_tr_component) = Some ?t"
    "ctx_events example_hangup_world (comp_ctx example_tr_component)"
    using ctx by (simp_all add: example_hangup_world_def example_tr_world_def example_tr_component_def)
  have e: "events_ok example_hangup_env"
    using example_listen_events(1) by (simp add: events_ok_def example_hangup_env_def)
  have s: "retval (sys example_hangup_env (trace example_hangup_world) (Sys_read 9 256)) = 0"
    "call_be_close example_hangup_env Vde2_conn_close = vde2_conn_close example_listen_env"
    by (simp_all add: example_hangup_env_def example_listen_env_def)
  have "trace example_hangup_world = []" "be_priv example_hangup_conn = 30"
    by (simp_all add: example_hangup_world_def example_tr_world_def example_ctx_world_def empty_world_def
        example_hangup_conn_def)
  with vde2_hangup_closes_descriptor_0 [OF at _ _ c(1) _ c(2,3) e _ s example_listen_events(1)]
  show ?thesis by auto
qed

end
