(* ===== verification/Ctrl.thy ===== *)
theory Ctrl
  imports Context Sobj
begin

text \<open>
  The control engine, \<^verbatim>\<open>src/engine_ctrl.c\<close>: JSON-RPC calls arrive as zero-terminated strings
  over a connection, are looked up as commands of the context's components and answered;
  signals a client has asked for are sent to it as notices. Outgoing text is cut into packets
  that wait in \<open>out_queue\<close>, pushed at the head and popped at the tail.

  The loops that empty the queue call the connection's backend, which may run the peer's
  callbacks; they carry a bound on their number of rounds. The argument-checking wrappers of
  the two commands, and the array that names them, are generated by the build.
\<close>

section \<open>Constants and layout\<close>

definition MAX_INBUF_SZ :: nat where "MAX_INBUF_SZ = 8192"

definition SEP_CHAR :: char where "SEP_CHAR = CHR ''.''"

abbreviation upd_cc :: "ptr \<Rightarrow> (ctrl_conn \<Rightarrow> ctrl_conn) \<Rightarrow> unit prog" where
  "upd_cc \<equiv> store w_cc w_cc_update"

abbreviation upd_ctrl :: "ptr \<Rightarrow> (ctrl_engine \<Rightarrow> ctrl_engine) \<Rightarrow> unit prog" where
  "upd_ctrl \<equiv> store w_ctrl w_ctrl_update"

definition vde_command_get_name :: "vde_command \<Rightarrow> string option" where
  "vde_command_get_name command = cmd_name command"

definition vde_command_get_func :: "vde_command \<Rightarrow> command_func" where
  "vde_command_get_func command = cmd_func command"

definition builtin_commands :: "string list" where
  "builtin_commands = [''notify_add'', ''notify_del'']"

text \<open>\<open>strncmp(s, t, strlen(t)) == 0\<close>: \<open>t\<close> is a prefix of \<open>s\<close>.\<close>

definition has_prefix :: "string \<Rightarrow> string \<Rightarrow> bool" where
  "has_prefix s t \<longleftrightarrow> take (length t) s = t"

definition is_builtin :: "vde_command \<Rightarrow> bool prog" where
  "is_builtin command = (case vde_command_get_name command of
       None \<Rightarrow> mfail Null_Deref
     | Some name \<Rightarrow> ret (\<exists>b\<in>set builtin_commands. has_prefix name b))"

section \<open>Sending\<close>

text \<open>
  \<^verbatim>\<open>while (pkt = pop_tail(out_queue)) { if (write(pkt)) { push_tail(pkt); break; } free(pkt); }\<close>
\<close>

fun ctrl_flush :: "nat \<Rightarrow> env \<Rightarrow> ptr \<Rightarrow> unit prog" where
  "ctrl_flush 0 E cc = mfail Out_Of_Fuel"
| "ctrl_flush (Suc n) E cc =
     mbind (deref w_cc cc) (\<lambda>c.
     if out_queue c = [] then ret ()
     else
       let pkt = last (out_queue c) in
       mbind (upd_cc cc (\<lambda>c. c\<lparr>out_queue := butlast (out_queue c)\<rparr>)) (\<lambda>_.
       mbind (vde_connection_write E (cc_conn c) pkt) (\<lambda>rv.
       if rv \<noteq> 0 then upd_cc cc (\<lambda>c. c\<lparr>out_queue := out_queue c @ [pkt]\<rparr>)
       else ctrl_flush n E cc)))"

text \<open>One packet with \<open>bs\<close> as its payload, pushed at the head of the queue.\<close>

definition ctrl_push_chunk :: "env \<Rightarrow> ptr \<Rightarrow> char list \<Rightarrow> unit prog" where
  "ctrl_push_chunk E cc bs =
     mbind (malloc_fails E) (\<lambda>nomem.
     mbind (lift (vde_pkt_new nomem (of_nat (length bs)) 0 0)) (\<lambda>new_pkt.
     case new_pkt of
       None \<Rightarrow> mfail Null_Deref
     | Some pkt \<Rightarrow>
         mbind (lift (set_pkt_len pkt (length bs))) (\<lambda>pkt.
         mbind (lift (mem_write (p_data pkt) (p_payload pkt) bs)) (\<lambda>d.
         upd_cc cc (\<lambda>c. c\<lparr>out_queue := pkt\<lparr>p_data := d\<rparr> # out_queue c\<rparr>)))))"

text \<open>The chunks number \<open>sent_chunks\<close> to \<open>num_chunks - 1\<close> of the text.\<close>

definition chunk_list :: "nat \<Rightarrow> char list \<Rightarrow> char list list" where
  "chunk_list payload_sz out =
     (let out_len = length out;
          last_chunk_sz = out_len mod payload_sz;
          num_chunks = out_len div payload_sz + (if last_chunk_sz \<noteq> 0 then 1 else 0)
      in map (\<lambda>sent_chunks.
           let cpy_sz = if num_chunks = sent_chunks + 1 \<and> last_chunk_sz \<noteq> 0 then last_chunk_sz
                        else payload_sz
           in take cpy_sz (drop (sent_chunks * payload_sz) out)) [0 ..< num_chunks])"

text \<open>\<open>out_str\<close> with its terminating zero byte; dividing by a payload size of 0 is undefined.\<close>

definition ctrl_engine_conn_write :: "nat \<Rightarrow> env \<Rightarrow> ptr \<Rightarrow> vde_sobj \<Rightarrow> int prog" where
  "ctrl_engine_conn_write n E cc out_obj =
     (case sobj_print E out_obj of
        None \<Rightarrow> ret (- 1)
      | Some out_str \<Rightarrow>
          mbind (deref w_cc cc) (\<lambda>c.
          mbind (vde_connection_max_payload E (cc_conn c)) (\<lambda>payload_sz.
          if payload_sz = 0 then mfail Div_By_Zero
          else
            mbind (mapM (ctrl_push_chunk E cc) (chunk_list (unat payload_sz) (out_str @ [CHR 0x00]))) (\<lambda>_.
            mbind (ctrl_flush n E cc) (\<lambda>_. ret 0)))))"

section \<open>JSON-RPC\<close>

definition rpc_10_build_reply :: "env \<Rightarrow> vde_sobj \<Rightarrow> vde_sobj \<Rightarrow> vde_sobj \<Rightarrow> vde_sobj prog" where
  "rpc_10_build_reply E mesg_id result error =
     mbind (vde_assert E ((result \<noteq> SNull) \<noteq> (error \<noteq> SNull))) (\<lambda>_.
     mbind (vde_assert E (if mesg_id = SNull then True else sobj_is_int mesg_id)) (\<lambda>_.
     ret (SHash [(''id'', mesg_id), (''result'', result), (''error'', error)])))"

definition rpc_XX_build_error_reply_sobj :: "env \<Rightarrow> vde_sobj \<Rightarrow> vde_sobj \<Rightarrow> vde_sobj \<Rightarrow> vde_sobj prog" where
  "rpc_XX_build_error_reply_sobj E mesg_id code msg =
     rpc_10_build_reply E mesg_id SNull (SHash [(''code'', code), (''message'', msg)])"

definition rpc_XX_build_error_reply :: "env \<Rightarrow> vde_sobj \<Rightarrow> int \<Rightarrow> string \<Rightarrow> vde_sobj prog" where
  "rpc_XX_build_error_reply E mesg_id code msg =
     rpc_XX_build_error_reply_sobj E mesg_id (SInt code) (SString msg)"

definition rpc_10_build_notice :: "env \<Rightarrow> vde_sobj \<Rightarrow> vde_sobj \<Rightarrow> vde_sobj prog" where
  "rpc_10_build_notice E meth params =
     mbind (vde_assert E (meth \<noteq> SNull)) (\<lambda>_.
     mbind (vde_assert E (params \<noteq> SNull)) (\<lambda>_.
     mbind (vde_assert E (sobj_is_string meth)) (\<lambda>_.
     mbind (vde_assert E (sobj_is_array params)) (\<lambda>_.
     ret (SHash [(''id'', SNull), (''method'', meth), (''params'', params)])))))"

definition rpc_10_sobj_validate_call :: "vde_sobj \<Rightarrow> int" where
  "rpc_10_sobj_validate_call sobj =
     (if \<not> sobj_is_hash sobj then - 1
      else let meth = sobj_hash_lookup sobj ''method'' in
        if meth = SNull \<or> \<not> sobj_is_string meth then - 1
        else let params = sobj_hash_lookup sobj ''params'' in
          if params = SNull \<or> \<not> sobj_is_array params then - 1
          else let mesg_id = sobj_hash_lookup sobj ''id'' in
            if mesg_id = SNull \<or> \<not> sobj_is_int mesg_id then - 1
            else if sobj_get_int mesg_id < 0 then - 1
            else 0)"

section \<open>Paths\<close>

text \<open>
  \<open>None\<close> stands for the result \<open>- 1\<close>; otherwise the strings stored through the two
  references. \<open>strlen\<close> of \<open>NULL\<close> is a fault.
\<close>

definition check_split_path :: "env \<Rightarrow> string option \<Rightarrow> (string \<times> string) option prog" where
  "check_split_path E full_path =
     mbind (vde_assert E (full_path \<noteq> None)) (\<lambda>_.
     case full_path of
       None \<Rightarrow> mfail Null_Deref
     | Some s \<Rightarrow>
         let name = takeWhile (\<lambda>ch. ch \<noteq> SEP_CHAR) s; sep = length name;
             einval = mbind (set_errno EINVAL) (\<lambda>_. ret None);
             enomem = mbind (set_errno ENOMEM) (\<lambda>_. ret None)
         in if sep = length s then einval
            else if sep = 0 \<or> sep = length s - 1 then einval
            else mbind (malloc_fails E) (\<lambda>nomem.
              if nomem then enomem
              else mbind (malloc_fails E) (\<lambda>nomem.
                if nomem then enomem
                else ret (Some (name, drop (sep + 1) s)))))"

definition build_signal_path :: "env \<Rightarrow> ptr \<Rightarrow> string option \<Rightarrow> string prog" where
  "build_signal_path E component signal_path =
     mbind (vde_component_get_name E component) (\<lambda>component_name.
     case (component_name, signal_path) of
       (Some name, Some s) \<Rightarrow>
         mbind (malloc_fails E) (\<lambda>nomem.
         if nomem then mfail Null_Deref else ret (name @ [SEP_CHAR] @ s))
     | _ \<Rightarrow> mfail Null_Deref)"

text \<open>The first registered path that is a prefix of \<open>full_path\<close>, as \<open>strncmp\<close> compares.\<close>

fun find_registered :: "string option list \<Rightarrow> string \<Rightarrow> fault + string option" where
  "find_registered [] full_path = Inr None"
| "find_registered (None # regs) full_path = Inl Null_Deref"
| "find_registered (Some reg # regs) full_path =
     (if has_prefix full_path reg then Inr (Some reg) else find_registered regs full_path)"

section \<open>Notices\<close>

definition signal_callback :: "nat \<Rightarrow> env \<Rightarrow> ptr \<Rightarrow> string option \<Rightarrow> vde_sobj \<Rightarrow> ptr \<Rightarrow> unit prog" where
  "signal_callback n E component signal_path info cc =
     mbind (build_signal_path E component signal_path) (\<lambda>full_path.
     mbind (rpc_10_build_notice E (SString full_path) info) (\<lambda>notice.
     mbind (ctrl_engine_conn_write n E cc notice) (\<lambda>_. ret ())))"

definition signal_destroy_callback :: "env \<Rightarrow> ptr \<Rightarrow> string option \<Rightarrow> ptr \<Rightarrow> unit prog" where
  "signal_destroy_callback E component signal_path cc =
     mbind (build_signal_path E component signal_path) (\<lambda>full_path.
     mbind (deref w_cc cc) (\<lambda>c.
     mbind (lift (find_registered (reg_signals c) full_path)) (\<lambda>found.
     case found of
       None \<Rightarrow> ret ()
     | Some reg \<Rightarrow> upd_cc cc (\<lambda>c. c\<lparr>reg_signals := remove1 (Some reg) (reg_signals c)\<rparr>))))"

text \<open>The connection's context, through which components are found.\<close>

definition cc_context :: "env \<Rightarrow> ptr \<Rightarrow> ptr prog" where
  "cc_context E cc = mbind (deref w_cc cc) (\<lambda>c. vde_connection_get_context E (cc_conn c))"

text \<open>The label \<open>out\<close>: \<open>errno\<close> is set on every return, and the object goes out through \<open>out\<close>.\<close>

definition notify_out :: "int \<Rightarrow> int \<Rightarrow> string \<Rightarrow> (int \<times> vde_sobj) prog" where
  "notify_out rv tmp_errno msg = mbind (set_errno tmp_errno) (\<lambda>_. ret (rv, SString msg))"

definition engine_ctrl_notify_add :: "env \<Rightarrow> ptr \<Rightarrow> string \<Rightarrow> (int \<times> vde_sobj) prog" where
  "engine_ctrl_notify_add E cc full_path =
     mbind (check_split_path E (Some full_path)) (\<lambda>split.
     case split of
       None \<Rightarrow> notify_out (- 1) EINVAL ''Signal path not well-formed''
     | Some (s_component_name, signal_name) \<Rightarrow>
         mbind (cc_context E cc) (\<lambda>ctx.
         mbind (vde_context_get_component E ctx (Some s_component_name)) (\<lambda>s_component.
         if s_component = NULL then notify_out (- 1) ENOENT ''Component not found''
         else
           mbind (vde_component_signal_attach E s_component (Some signal_name) (Some Signal_callback)
             (Some Signal_destroy_callback) cc) (\<lambda>rv.
           if rv \<noteq> 0 then
             mbind (gets errno) (\<lambda>e. notify_out rv e ''Failed to attach to signal'')
           else
             mbind (malloc_fails E) (\<lambda>nomem.
             mbind (upd_cc cc (\<lambda>c. c\<lparr>reg_signals := (if nomem then None else Some full_path) # reg_signals c\<rparr>)) (\<lambda>_.
             notify_out rv 0 ''Signal attached''))))))"

definition engine_ctrl_notify_del :: "env \<Rightarrow> ptr \<Rightarrow> string \<Rightarrow> (int \<times> vde_sobj) prog" where
  "engine_ctrl_notify_del E cc full_path =
     mbind (deref w_cc cc) (\<lambda>c.
     mbind (lift (find_registered (reg_signals c) full_path)) (\<lambda>found.
     case found of
       None \<Rightarrow> notify_out (- 1) ENOENT ''Signal not registered in connection''
     | Some reg_full_path \<Rightarrow>
         mbind (check_split_path E (Some full_path)) (\<lambda>split.
         case split of
           None \<Rightarrow> notify_out (- 1) EINVAL ''Signal path not well-formed''
         | Some (s_component_name, signal_name) \<Rightarrow>
             mbind (cc_context E cc) (\<lambda>ctx.
             mbind (vde_context_get_component E ctx (Some s_component_name)) (\<lambda>s_component.
             if s_component = NULL then notify_out (- 1) ENOENT ''Component not found''
             else
               mbind (vde_component_signal_detach E s_component (Some signal_name) (Some Signal_callback)
                 (Some Signal_destroy_callback) cc) (\<lambda>rv.
               if rv \<noteq> 0 then
                 mbind (gets errno) (\<lambda>e. notify_out rv e ''Failed to detach from signal'')
               else
                 mbind (upd_cc cc (\<lambda>c. c\<lparr>reg_signals := remove1 (Some reg_full_path) (reg_signals c)\<rparr>)) (\<lambda>_.
                 notify_out rv 0 ''Signal detached'')))))))"

section \<open>Calls\<close>

text \<open>\<open>str\<close> is the memory from the start of the string on.\<close>

definition ctrl_engine_deserialize_string :: "nat \<Rightarrow> env \<Rightarrow> char list \<Rightarrow> ptr \<Rightarrow> unit prog" where
  "ctrl_engine_deserialize_string n E str cc =
     (let send = (\<lambda>reply. mbind (ctrl_engine_conn_write n E cc reply) (\<lambda>_. ret ()));
          err = (\<lambda>mesg_id code msg. mbind (rpc_XX_build_error_reply E mesg_id code msg) send)
      in
      mbind (vde_sobj_from_string E str) (\<lambda>in_sobj.
      if in_sobj = SNull then err SNull EINVAL ''Cannot deserialize command''
      else if rpc_10_sobj_validate_call in_sobj \<noteq> 0 then err SNull EINVAL ''Invalid method call received''
      else
        let mesg_id = sobj_hash_lookup in_sobj ''id'';
            method_name = sobj_get_string (sobj_hash_lookup in_sobj ''method'')
        in
        mbind (check_split_path E (Some method_name)) (\<lambda>split.
        case split of
          None \<Rightarrow> err mesg_id EINVAL ''Method name not well-formed''
        | Some (component_name, command_name) \<Rightarrow>
            mbind (cc_context E cc) (\<lambda>ctx.
            mbind (vde_context_get_component E ctx (Some component_name)) (\<lambda>component.
            if component = NULL then err mesg_id ENOENT ''Component not found''
            else mbind (vde_component_command_get E component (Some command_name)) (\<lambda>command.
              case command of
                None \<Rightarrow> err mesg_id ENOENT ''Command not found''
              | Some command \<Rightarrow>
                  mbind (deref w_cc cc) (\<lambda>c.
                  mbind (deref w_ctrl (cc_engine c)) (\<lambda>ctrl.
                  mbind (if component = ctrl_component ctrl then is_builtin command else ret False) (\<lambda>builtin.
                  mbind (call_command E (vde_command_get_func command) (if builtin then cc else component)
                    (sobj_hash_lookup in_sobj ''params'')) (\<lambda>(rv, out_sobj).
                  if rv \<noteq> 0 then
                    mbind (gets errno) (\<lambda>e.
                    mbind (rpc_XX_build_error_reply_sobj E mesg_id (SInt e) out_sobj) send)
                  else mbind (rpc_10_build_reply E mesg_id out_sobj SNull) send))))))))))"

section \<open>Receiving\<close>

text \<open>
  \<open>bytes\<close> are the \<open>remaining\<close> bytes of the payload from \<open>buf\<close> on and \<open>slack\<close> what follows
  them in the packet's block; \<open>func\<close> gets the memory from the start of the string on. A string
  begun by an earlier packet is joined in a block of its own that holds exactly its characters.
\<close>

function ctrl_split_loop ::
  "env \<Rightarrow> nat \<Rightarrow> (char list \<Rightarrow> unit prog) \<Rightarrow> ptr \<Rightarrow> char list \<Rightarrow> char list \<Rightarrow> int prog" where
  "ctrl_split_loop E inbuf_sz func cc slack bytes =
     (if CHR 0x00 \<in> set bytes then
        let tok = takeWhile (\<lambda>ch. ch \<noteq> CHR 0x00) bytes; rest = drop (length tok + 1) bytes in
        mbind (deref w_cc cc) (\<lambda>c.
        if inbuf c \<noteq> [] then
          mbind (malloc_fails E) (\<lambda>nomem.
          if nomem then fail_errno ENOMEM
          else
            mbind (upd_cc cc (\<lambda>c. c\<lparr>inbuf := []\<rparr>)) (\<lambda>_.
            mbind (func (inbuf c @ tok)) (\<lambda>_.
            ctrl_split_loop E inbuf_sz func cc slack rest)))
        else
          mbind (func (bytes @ slack)) (\<lambda>_.
          ctrl_split_loop E inbuf_sz func cc slack rest))
      else if bytes \<noteq> [] then
        mbind (deref w_cc cc) (\<lambda>c.
        if inbuf_sz < length bytes + length (inbuf c) then
          mbind (upd_cc cc (\<lambda>c. c\<lparr>inbuf := []\<rparr>)) (\<lambda>_. fail_errno ENOSPC)
        else
          mbind (upd_cc cc (\<lambda>c. c\<lparr>inbuf := inbuf c @ bytes\<rparr>)) (\<lambda>_. ret 0))
      else ret 0)"
  by auto
termination
proof (relation "measure (\<lambda>(E, sz, func, cc, slack, bytes). length bytes)", goal_cases)
  case 1
  then show ?case by simp
qed (auto dest: length_pos_if_in_set)

declare ctrl_split_loop.simps [simp del]

definition ctrl_split_payload :: "env \<Rightarrow> nat \<Rightarrow> (char list \<Rightarrow> unit prog) \<Rightarrow> ptr \<Rightarrow> vde_pkt \<Rightarrow> int prog" where
  "ctrl_split_payload E inbuf_sz func cc pkt =
     mbind (lift (pkt_bytes pkt)) (\<lambda>bytes.
     ctrl_split_loop E inbuf_sz func cc (drop (nat (p_payload pkt) + length bytes) (p_data pkt)) bytes)"

section \<open>Connections\<close>

text \<open>
  Detaching runs no callback, so the list of registered signals is not disturbed by the loop
  over it. The name \<open>NULL\<close> of a lost registration stops the program in \<open>check_split_path\<close>.
\<close>

definition ctrl_conn_fini_noengine :: "env \<Rightarrow> ptr \<Rightarrow> unit prog" where
  "ctrl_conn_fini_noengine E cc =
     mbind (upd_cc cc (\<lambda>c. c\<lparr>out_queue := []\<rparr>)) (\<lambda>_.
     mbind (cc_context E cc) (\<lambda>ctx.
     mbind (deref w_cc cc) (\<lambda>c.
     mbind (mapM (\<lambda>sig_full_path.
       mbind (check_split_path E sig_full_path) (\<lambda>split.
       case split of
         None \<Rightarrow> ret ()
       | Some (component_name, sig_path) \<Rightarrow>
           mbind (vde_context_get_component E ctx (Some component_name)) (\<lambda>component.
           if component = NULL then ret ()
           else mbind (vde_component_signal_detach E component (Some sig_path) (Some Signal_callback)
             (Some Signal_destroy_callback) cc) (\<lambda>rv. ret ())))) (reg_signals c)) (\<lambda>_.
     dealloc w_cc w_cc_update cc))))"

definition ctrl_conn_fini :: "env \<Rightarrow> ptr \<Rightarrow> unit prog" where
  "ctrl_conn_fini E cc =
     mbind (deref w_cc cc) (\<lambda>c.
     mbind (upd_ctrl (cc_engine c) (\<lambda>e. e\<lparr>ctrl_conns := remove1 cc (ctrl_conns e)\<rparr>)) (\<lambda>_.
     ctrl_conn_fini_noengine E cc))"

definition ctrl_engine_readcb :: "nat \<Rightarrow> env \<Rightarrow> ptr \<Rightarrow> vde_pkt \<Rightarrow> ptr \<Rightarrow> int prog" where
  "ctrl_engine_readcb n E conn pkt cc =
     mbind (ctrl_split_payload E MAX_INBUF_SZ (\<lambda>str. ctrl_engine_deserialize_string n E str cc) cc pkt) (\<lambda>rv.
     if rv \<noteq> 0 then mbind (ctrl_conn_fini E cc) (\<lambda>_. fail_errno EPIPE)
     else ret 0)"

definition ctrl_engine_writecb :: "nat \<Rightarrow> env \<Rightarrow> ptr \<Rightarrow> vde_pkt \<Rightarrow> ptr \<Rightarrow> int prog" where
  "ctrl_engine_writecb n E conn pkt cc = mbind (ctrl_flush n E cc) (\<lambda>_. ret 0)"

definition ctrl_engine_errorcb :: "env \<Rightarrow> ptr \<Rightarrow> vde_pkt option \<Rightarrow> vde_conn_error \<Rightarrow> ptr \<Rightarrow> int prog" where
  "ctrl_engine_errorcb E conn pkt err cc =
     (if err = CONN_WRITE_DELAY then ret 0
      else mbind (ctrl_conn_fini E cc) (\<lambda>_. fail_errno EPIPE))"

definition ctrl_engine_newconn :: "env \<Rightarrow> ptr \<Rightarrow> ptr \<Rightarrow> ptr \<Rightarrow> int prog" where
  "ctrl_engine_newconn E component conn req =
     mbind (vde_component_get_priv E component) (\<lambda>ctrl.
     mbind (alloc w_cc_update E \<lparr>cc_conn = NULL, inbuf = [], out_queue = [], reg_signals = [], cc_engine = NULL\<rparr>) (\<lambda>cc.
     if cc = NULL then fail_errno ENOMEM
     else
       mbind (upd_cc cc (\<lambda>c. c\<lparr>cc_conn := conn, out_queue := [], cc_engine := ctrl, reg_signals := []\<rparr>)) (\<lambda>_.
       mbind (upd_ctrl ctrl (\<lambda>e. e\<lparr>ctrl_conns := cc # ctrl_conns e\<rparr>)) (\<lambda>_.
       mbind (vde_connection_set_callbacks E conn (Some Ctrl_engine_readcb) (Some Ctrl_engine_writecb)
         (Some Ctrl_engine_errorcb) cc) (\<lambda>_.
       mbind (vde_connection_set_pkt_properties E conn 0 0) (\<lambda>_.
       ret 0))))))"

section \<open>The engine\<close>

definition engine_ctrl_init :: "env \<Rightarrow> ptr \<Rightarrow> vde_sobj \<Rightarrow> int prog" where
  "engine_ctrl_init E component params =
     mbind (vde_assert E (component \<noteq> NULL)) (\<lambda>_.
     mbind (alloc w_ctrl_update E \<lparr>ctrl_conns = [], ctrl_component = NULL\<rparr>) (\<lambda>ctrl.
     if ctrl = NULL then fail_errno ENOMEM
     else
       mbind (upd_ctrl ctrl (\<lambda>e. e\<lparr>ctrl_component := component\<rparr>)) (\<lambda>_.
       mbind (vde_component_commands_register E component (engine_ctrl_commands E)) (\<lambda>r.
       if r \<noteq> 0 then
         mbind (gets errno) (\<lambda>tmp_errno.
         mbind (dealloc w_ctrl w_ctrl_update ctrl) (\<lambda>_. fail_errno tmp_errno))
       else mbind (vde_component_set_priv E component ctrl) (\<lambda>_. ret 0)))))"

definition engine_ctrl_fini :: "env \<Rightarrow> ptr \<Rightarrow> unit prog" where
  "engine_ctrl_fini E component =
     mbind (vde_component_get_priv E component) (\<lambda>ctrl.
     let get = mbind (deref w_ctrl ctrl) (\<lambda>e. ret (ctrl_conns e)) in
     mbind get (\<lambda>ccs.
     mbind (foreach get
       (\<lambda>cc. mbind (deref w_cc cc) (\<lambda>c.
          mbind (vde_connection_fini E (cc_conn c)) (\<lambda>_.
          mbind (deref w_cc cc) (\<lambda>c.
          mbind (vde_connection_delete E (cc_conn c)) (\<lambda>_.
          ctrl_conn_fini_noengine E cc)))))
       ccs) (\<lambda>_.
     dealloc w_ctrl w_ctrl_update ctrl)))"

definition engine_ctrl_module :: vde_module where
  "engine_ctrl_module = \<lparr>m_kind = VDE_ENGINE, m_family = ''ctrl'',
     m_cops = Some \<lparr>ops_init = Some Engine_ctrl_init, ops_fini = Some Engine_ctrl_fini\<rparr>,
     m_cm_connect = None, m_cm_listen = None, m_eng_new_conn = Some Ctrl_engine_newconn,
     m_tr_connect = None, m_tr_listen = None, m_dlhandle = NULL\<rparr>"

end
