(* ===== verification/CtrlFlow.thy ===== *)
theory CtrlFlow
  imports Ctrl Vde2
begin

text \<open>
  The control engine's text streams: cutting outgoing text into packets and handing them to the
  transport in order, and finding the strings in incoming packets.
\<close>

section \<open>Cutting text into packets\<close>

lemma concat_chunks: "concat (map (\<lambda>i. take k (drop (i * k) xs)) [0 ..< m]) = take (m * k) xs"
proof (induction m)
  case (Suc m)
  have "take (Suc m * k) xs = take (m * k) xs @ take k (drop (m * k) xs)"
    using take_add [of "m * k" k xs] by (simp add: add.commute)
  with Suc show ?case by simp
qed simp

text \<open>The size computed for the last chunk is just what is left.\<close>

lemma chunk_list_plain:
  fixes out :: "char list"
  assumes "0 < k"
  defines "m \<equiv> length out div k + (if length out mod k \<noteq> 0 then 1 else 0)"
  shows "chunk_list k out = map (\<lambda>i. take k (drop (i * k) out)) [0 ..< m]"
    and "length out \<le> m * k" and "\<And>i. i < m \<Longrightarrow> i * k < length out"
proof -
  let ?q = "length out div k" and ?r = "length out mod k"
  have n: "length out = ?q * k + ?r" by simp
  have r: "?r < k" using assms(1) by simp
  have "a \<le> (q + (if r \<noteq> 0 then 1 else 0)) * k" if "a = q * k + r" "r < k" for a q r
    using that by (cases "r = 0") auto
  from this [OF n r] show "length out \<le> m * k" by (simp only: m_def)
  show "i * k < length out" if "i < m" for i
  proof (cases "i = ?q")
    case True
    with that have "?r \<noteq> 0" by (simp add: m_def split: if_splits)
    then show ?thesis using n unfolding True by linarith
  next
    case False
    with that have "i + 1 \<le> ?q" by (simp add: m_def split: if_splits)
    then have "(i + 1) * k \<le> ?q * k" by (rule mult_le_mono1)
    then have "i * k + k \<le> ?q * k" by simp
    then show ?thesis using n assms(1) by linarith
  qed
  have "take (if m = i + 1 \<and> ?r \<noteq> 0 then ?r else k) (drop (i * k) out) = take k (drop (i * k) out)" for i
  proof (cases "m = i + 1 \<and> ?r \<noteq> 0")
    case True
    then have "i = ?q" by (auto simp: m_def)
    then have "length (drop (i * k) out) = ?r" by (simp add: minus_div_mult_eq_mod)
    with r True show ?thesis by simp
  next
    case False
    then show ?thesis by (simp only: if_False)
  qed
  then show "chunk_list k out = map (\<lambda>i. take k (drop (i * k) out)) [0 ..< m]"
    by (simp only: chunk_list_def Let_def m_def)
qed

lemma chunk_list_ok:
  assumes "0 < k"
  shows "concat (chunk_list k out) = out" and "\<forall>c\<in>set (chunk_list k out). c \<noteq> [] \<and> length c \<le> k"
proof -
  obtain m where m: "chunk_list k out = map (\<lambda>i. take k (drop (i * k) out)) [0 ..< m]" "length out \<le> m * k"
    "\<And>i. i < m \<Longrightarrow> i * k < length out"
    using chunk_list_plain [OF assms, where out = out] by blast
  from m(1,2) show "concat (chunk_list k out) = out" by (simp add: concat_chunks)
  from m(1,3) assms show "\<forall>c\<in>set (chunk_list k out). c \<noteq> [] \<and> length c \<le> k" by (force simp: not_le)
qed

text \<open>A chunk becomes a well-formed packet.\<close>

lemma pkt_new_small:
  assumes "n \<le> 1518"
  shows "\<exists>p. vde_pkt_new False (of_nat n) 0 0 = Inr (Some p) \<and> p_head p = 4 \<and> p_payload p = 4 \<and>
    p_tail p = 4 + int n \<and> unat (data_size p) = 4 + n \<and> length (p_data p) = 8 + n"
proof -
  define dsz :: "32 word" where "dsz = of_nat (4 + n)"
  have d: "unat dsz = 4 + n" "uint dsz = 4 + int n"
    using assms unfolding dsz_def by (simp_all add: unat_of_nat take_bit_nat_eq_self unsigned_of_nat
        del: of_nat_add)
  have s: "unat (of_nat SIZEOF_VDE_PKT + dsz) = 44 + n"
    using assms d(1) by (simp add: size_defs unat_word_ariths)
  then have nz: "of_nat SIZEOF_VDE_PKT + dsz \<noteq> 0" by (metis add_is_0 unat_0 zero_neq_numeral)
  have e: "of_nat SIZEOF_VDE_HDR + 0 + of_nat n + 0 = dsz" by (simp add: dsz_def size_defs)
  show ?thesis
    using s nz d unfolding vde_pkt_new_def Let_def e by (simp add: vde_pkt_init_def size_defs)
qed

lemma push_chunk_eval:
  assumes "w_cc w cc = Some c" and "\<not> malloc_null E (brk w)" and "length bs \<le> 1518"
  shows "\<exists>pkt. v2_pkt_ok pkt \<and> pkt_payload pkt = bs \<and> ctrl_push_chunk E cc bs w =
    Inr ((), w\<lparr>brk := Suc (brk w), w_cc := (w_cc w)(cc \<mapsto> c\<lparr>out_queue := pkt # out_queue c\<rparr>)\<rparr>)"
proof -
  obtain p where p: "vde_pkt_new False (of_nat (length bs)) 0 0 = Inr (Some p)" "p_head p = 4" "p_payload p = 4"
    "p_tail p = 4 + int (length bs)" "unat (data_size p) = 4 + length bs" "length (p_data p) = 8 + length bs"
    using pkt_new_small [OF assms(3)] by blast
  obtain q where q: "set_pkt_len p (length bs) = Inr q"
    using set_pkt_len_ok [of p] p(6) by auto
  note f = set_pkt_len_bytes [OF q, unfolded p(3), simplified]
  have small: "length bs mod 65536 = length bs" using assms(3) by simp
  have g: "p_head q = 4" "p_payload q = 4" "p_tail q = 4 + int (length bs)" "data_size q = data_size p"
    by (subst f(1), simp add: p)+
  obtain d where d: "mem_write (p_data q) 4 bs = Inr d"
    using mem_write_ok [of 4 bs "p_data q"] f(2) p(6) by auto
  have ld: "length d = 8 + length bs" using mem_write_length [OF d] f(2) p(6) by simp
  let ?r = "q\<lparr>p_data := d\<rparr>"
  have "take 4 d = take 4 (p_data q)"
    using mem_read_write_before [OF d, of 0 4] ld f(2) p(6) by (simp add: mem_read_def)
  then have len: "get_pkt_len ?r = Inr (length bs)"
    using get_pkt_len_prefix [of ?r q] ld f(2,3) p(6) small by simp
  have bytes: "pkt_bytes ?r = Inr bs"
    using len g(2) mem_read_write_same [OF d] by (simp add: pkt_bytes_def)
  have u: "uint (data_size p) = 4 + int (length bs)" using arg_cong [OF p(5), of int] by simp
  have "v2_pkt_ok ?r"
    using g len ld p(5) u assms(3) by (simp add: v2_pkt_ok_def pkt_wf_def size_defs vde2_consts)
  moreover have "pkt_payload ?r = bs" using bytes by (simp add: pkt_payload_def)
  moreover have "ctrl_push_chunk E cc bs w =
      Inr ((), w\<lparr>brk := Suc (brk w), w_cc := (w_cc w)(cc \<mapsto> c\<lparr>out_queue := ?r # out_queue c\<rparr>)\<rparr>)"
    using assms(1,2) p(1) q d g(2) by (simp add: ctrl_push_chunk_def mon)
  ultimately show ?thesis by blast
qed

text \<open>The payloads waiting in a control connection, the next one first.\<close>

definition cc_pending :: "world \<Rightarrow> ptr \<Rightarrow> char list list" where
  "cc_pending w cc = map pkt_payload (rev (out_queue (the (w_cc w cc))))"

definition cc_queue_ok :: "world \<Rightarrow> ptr \<Rightarrow> bool" where
  "cc_queue_ok w cc \<longleftrightarrow> (\<exists>c. w_cc w cc = Some c \<and> (\<forall>p\<in>set (out_queue c). v2_pkt_ok p))"

text \<open>What the queues of the backend do not depend on.\<close>

definition same_v2 :: "world \<Rightarrow> world \<Rightarrow> bool" where
  "same_v2 w w' \<longleftrightarrow> w_conn w' = w_conn w \<and> w_v2c w' = w_v2c w \<and> w_ctx w' = w_ctx w"

lemma same_v2_facts:
  assumes "same_v2 w w'"
  shows "v2_usable E w' = v2_usable E w" and "v2_waiting w' = v2_waiting w" and "v2_room w' = v2_room w"
proof -
  have "v2_at w' = v2_at w" using assms by (intro ext) (simp add: same_v2_def v2_at_def ctx_events_def)
  then show "v2_usable E w' = v2_usable E w" by (intro ext) (simp add: v2_usable_def)
  have "v2_rec w' = v2_rec w" using assms by (intro ext) (simp add: same_v2_def v2_rec_def)
  then show "v2_waiting w' = v2_waiting w" "v2_room w' = v2_room w"
    by (simp_all add: fun_eq_iff v2_waiting_def v2_room_def)
qed

lemma push_chunks:
  assumes "cc_queue_ok w cc" and "\<forall>p. \<not> malloc_null E p" and "\<forall>bs\<in>set chunks. length bs \<le> 1518"
  shows "\<exists>w' c'. mapM (ctrl_push_chunk E cc) chunks w = Inr ((), w') \<and> same_v2 w w' \<and> cc_queue_ok w' cc \<and>
    cc_pending w' cc = cc_pending w cc @ chunks \<and> w_cc w' cc = Some c' \<and>
    cc_conn c' = cc_conn (the (w_cc w cc)) \<and>
    length (out_queue c') = length (out_queue (the (w_cc w cc))) + length chunks"
  using assms
proof (induction chunks arbitrary: w)
  case Nil
  then show ?case by (auto simp: same_v2_def cc_queue_ok_def)
next
  case (Cons bs chunks)
  then obtain c where c: "w_cc w cc = Some c" "\<forall>p\<in>set (out_queue c). v2_pkt_ok p"
    by (auto simp: cc_queue_ok_def)
  obtain pkt where pkt: "v2_pkt_ok pkt" "pkt_payload pkt = bs" "ctrl_push_chunk E cc bs w =
      Inr ((), w\<lparr>brk := Suc (brk w), w_cc := (w_cc w)(cc \<mapsto> c\<lparr>out_queue := pkt # out_queue c\<rparr>)\<rparr>)"
    (is "_ = Inr ((), ?w1)")
    using push_chunk_eval [OF c(1), of E bs] Cons.prems(2,3) by auto
  have "cc_queue_ok ?w1 cc" using c(2) pkt(1) by (simp add: cc_queue_ok_def)
  from Cons.IH [OF this Cons.prems(2)] Cons.prems(3) obtain w' c' where
    "mapM (ctrl_push_chunk E cc) chunks ?w1 = Inr ((), w')" "same_v2 ?w1 w'" "cc_queue_ok w' cc"
    "cc_pending w' cc = cc_pending ?w1 cc @ chunks" "w_cc w' cc = Some c'"
    "cc_conn c' = cc_conn c" "length (out_queue c') = Suc (length (out_queue c)) + length chunks"
    by auto
  with pkt(2,3) c(1) show ?case by (simp add: same_v2_def cc_pending_def)
qed

text \<open>Emptying the queue: a prefix of it moves to the backend, the rest stays.\<close>

lemma flush_moves:
  assumes "w_cc w cc = Some c" and "\<forall>p\<in>set (out_queue c). v2_pkt_ok p" and "v2_usable E w (cc_conn c)"
    and "length (out_queue c) < n"
  shows "\<exists>w' k. ctrl_flush n E cc w = Inr ((), w') \<and> k \<le> length (out_queue c) \<and>
    v2_waiting w' (cc_conn c) = v2_waiting w (cc_conn c) @ take k (cc_pending w cc) \<and>
    cc_pending w' cc = drop k (cc_pending w cc)"
  using assms
proof (induction "out_queue c" arbitrary: w c n rule: rev_induct)
  case Nil
  then obtain m where "n = Suc m" by (cases n) auto
  with Nil show ?case by (intro exI [of _ w] exI [of _ 0]) (simp add: mon cc_pending_def)
next
  case (snoc p qs)
  then obtain m where n: "n = Suc m" by (cases n) auto
  let ?c1 = "c\<lparr>out_queue := qs\<rparr>" and ?conn = "cc_conn c"
  let ?w1 = "w\<lparr>w_cc := (w_cc w)(cc \<mapsto> ?c1)\<rparr>"
  note q = snoc.hyps(2) [symmetric]
  have same: "same_v2 w ?w1" by (simp add: same_v2_def)
  have us: "v2_usable E ?w1 ?conn" using snoc.prems(3) same_v2_facts(1) [OF same] by metis
  have ok: "v2_pkt_ok p" using snoc.prems(2) q by simp
  obtain r w2 where w2: "vde_connection_write E ?conn p ?w1 = Inr (r, w2)" "w_cc w2 = w_cc ?w1"
    "v2_usable E w2 = v2_usable E ?w1"
    "if v2_room ?w1 ?conn then r = 0 \<and> v2_waiting w2 ?conn = v2_waiting ?w1 ?conn @ [pkt_payload p]
     else r = - 1 \<and> v2_waiting w2 ?conn = v2_waiting ?w1 ?conn"
    using v2q.put_law [OF ok us] unfolding engine_frame_def by blast
  have wait1: "v2_waiting ?w1 ?conn = v2_waiting w ?conn" using same_v2_facts(2) [OF same] by simp
  have pend: "cc_pending w cc = pkt_payload p # map pkt_payload (rev qs)"
    using snoc.prems(1) q by (simp add: cc_pending_def)
  show ?case
  proof (cases "r = 0")
    case True
    have "\<exists>w' k. ctrl_flush m E cc w2 = Inr ((), w') \<and> k \<le> length qs \<and>
        v2_waiting w' ?conn = v2_waiting w2 ?conn @ take k (cc_pending w2 cc) \<and>
        cc_pending w' cc = drop k (cc_pending w2 cc)"
      using snoc.hyps(1) [of ?c1 w2 m] w2 us snoc.prems(2,4) q n by simp
    then obtain w' k where w': "ctrl_flush m E cc w2 = Inr ((), w')" "k \<le> length qs"
      "v2_waiting w' ?conn = v2_waiting w2 ?conn @ take k (cc_pending w2 cc)"
      "cc_pending w' cc = drop k (cc_pending w2 cc)" by blast
    have "cc_pending w2 cc = map pkt_payload (rev qs)" using w2(2) by (simp add: cc_pending_def)
    moreover have "ctrl_flush n E cc w = Inr ((), w')"
      using w'(1) w2(1) True snoc.prems(1) q by (simp add: n mon)
    ultimately show ?thesis using w' w2(4) True wait1 pend q
      by (intro exI [of _ w'] exI [of _ "Suc k"]) (simp split: if_splits)
  next
    case False
    then have "v2_waiting w2 ?conn = v2_waiting w ?conn" using w2(4) wait1 by (simp split: if_splits)
    moreover have "ctrl_flush n E cc w = Inr ((), w2\<lparr>w_cc := (w_cc w2)(cc \<mapsto> c)\<rparr>)" (is "_ = Inr ((), ?w3)")
      using w2(1,2) False snoc.prems(1) q by (simp add: n mon) (simp flip: q)
    moreover have "v2_waiting ?w3 = v2_waiting w2" by (rule same_v2_facts(2)) (simp add: same_v2_def)
    ultimately show ?thesis using pend snoc.prems(1)
      by (intro exI [of _ ?w3] exI [of _ 0]) (simp add: cc_pending_def)
  qed
qed

section \<open>Messages on a vde2 connection\<close>

text \<open>C34: text sent to a control client over a vde2 connection is cut into payloads of at most the
  connection's limit that joined give the text and its terminating zero byte. They queue behind what
  was waiting already, and a prefix of the whole is handed to the transport at once: nothing is lost,
  repeated or reordered, and the rest stays in the control connection. One round more than there are
  packets is a sufficient bound.\<close>

theorem ctrl_message_in_order:
  assumes "w_cc w cc = Some c" and "\<forall>p\<in>set (out_queue c). v2_pkt_ok p" and "v2_usable E w (cc_conn c)"
    and "w_conn w (cc_conn c) = Some k" and "0 < unat (max_pload k)" and "unat (max_pload k) \<le> 1518"
    and "sobj_print E msg = Some text" and "\<forall>p. \<not> malloc_null E p"
    and "length (out_queue c) + length (chunk_list (unat (max_pload k)) (text @ [CHR 0x00])) < n"
  shows "\<exists>w' chunks j. ctrl_engine_conn_write n E cc msg w = Inr (0, w') \<and>
    concat chunks = text @ [CHR 0x00] \<and> (\<forall>bs\<in>set chunks. bs \<noteq> [] \<and> length bs \<le> unat (max_pload k)) \<and>
    v2_waiting w' (cc_conn c) = v2_waiting w (cc_conn c) @ take j (cc_pending w cc @ chunks) \<and>
    cc_pending w' cc = drop j (cc_pending w cc @ chunks)"
proof -
  let ?m = "unat (max_pload k)" and ?conn = "cc_conn c"
  let ?chunks = "chunk_list ?m (text @ [CHR 0x00])"
  note ch = chunk_list_ok [OF assms(5), of "text @ [CHR 0x00]"]
  have conn: "?conn \<noteq> NULL" using assms(3) by (auto simp: v2_usable_def v2_at_def)
  have "cc_queue_ok w cc" using assms(1,2) by (simp add: cc_queue_ok_def)
  from push_chunks [OF this assms(8), of ?chunks] ch(2) assms(1,6) obtain w1 c1 where
    w1: "mapM (ctrl_push_chunk E cc) ?chunks w = Inr ((), w1)" "same_v2 w w1" "cc_queue_ok w1 cc"
    "cc_pending w1 cc = cc_pending w cc @ ?chunks" "w_cc w1 cc = Some c1" "cc_conn c1 = ?conn"
    "length (out_queue c1) = length (out_queue c) + length ?chunks"
    by fastforce
  have "\<forall>p\<in>set (out_queue c1). v2_pkt_ok p" using w1(3,5) by (simp add: cc_queue_ok_def)
  moreover have "v2_usable E w1 (cc_conn c1)" using assms(3) w1(6) same_v2_facts(1) [OF w1(2)] by simp
  moreover have "length (out_queue c1) < n" using assms(9) w1(7) by simp
  ultimately obtain w2 j where w2: "ctrl_flush n E cc w1 = Inr ((), w2)"
    "v2_waiting w2 ?conn = v2_waiting w1 ?conn @ take j (cc_pending w1 cc)"
    "cc_pending w2 cc = drop j (cc_pending w1 cc)"
    using flush_moves [OF w1(5)] w1(6) by metis
  have "max_pload k \<noteq> 0" using assms(5) by auto
  then have "ctrl_engine_conn_write n E cc msg w = Inr (0, w2)"
    using assms(1,4,7) conn w1(1) w2(1) by (simp add: ctrl_engine_conn_write_def mon)
  then show ?thesis using ch w1(4) w2(2,3) same_v2_facts(2) [OF w1(2)] by metis
qed

definition example_flow_conn :: vde_connection where
  "example_flow_conn = \<lparr>attributes = NULL, c_context = 3, max_pload = 2, pkt_head_sz = 0,
     pkt_tail_sz = 0, send_maxtries = 2, send_maxtimeout = \<lparr>tv_sec = 5, tv_usec = 0\<rparr>,
     be_write = Some Vde2_conn_write, be_close = Some Vde2_conn_close, be_priv = 30,
     read_cb = None, write_cb = None, error_cb = None, cb_priv = 70\<rparr>"

definition example_flow_cc :: ctrl_conn where
  "example_flow_cc = \<lparr>cc_conn = 20, inbuf = [], out_queue = [], reg_signals = [], cc_engine = 80\<rparr>"

definition example_flow_world :: world where
  "example_flow_world = example_ctx_world\<lparr>brk := 100, w_conn := [20 \<mapsto> example_flow_conn],
     w_v2c := [30 \<mapsto> zero_vde2_conn\<lparr>v2_conn := 20\<rparr>], w_cc := [70 \<mapsto> example_flow_cc]\<rparr>"

definition example_event_env :: env where
  "example_event_env = base_env\<lparr>call_event_add := (\<lambda>f fd ev t cb arg. ret 77), call_event_del := (\<lambda>f ev. ret ())\<rparr>"

definition example_flow_env :: env where
  "example_flow_env = example_event_env\<lparr>sobj_print := (\<lambda>x. Some ''{ }''),
     call_be_write := (\<lambda>f. vde2_conn_write example_event_env)\<rparr>"

lemma example_flow_usable: "v2_usable example_flow_env example_flow_world 20"
proof -
  have "call_be_write example_flow_env Vde2_conn_write = vde2_conn_write example_event_env"
    "events_ok example_event_env" "\<forall>n. \<not> malloc_null example_event_env n"
    by (simp_all add: example_flow_env_def events_ok_def example_event_env_def)
  moreover have "v2_at example_flow_world 20 example_flow_conn (zero_vde2_conn\<lparr>v2_conn := 20\<rparr>)"
    by (simp add: v2_at_def ctx_events_def example_flow_world_def example_ctx_world_def example_context_def
        example_flow_conn_def)
  moreover have "v2_queue_ok (zero_vde2_conn\<lparr>v2_conn := 20\<rparr>)"
    by (simp add: v2_queue_ok_def zero_vde2_conn_def)
  ultimately show ?thesis unfolding v2_usable_def v2_backend_def by blast
qed

theorem ctrl_message_in_order_witness:
  "\<exists>w' chunks j. ctrl_engine_conn_write 5 example_flow_env 70 SNull example_flow_world = Inr (0, w') \<and>
    concat chunks = ''{ }'' @ [CHR 0x00] \<and> v2_waiting w' 20 = take j chunks \<and> cc_pending w' 70 = drop j chunks"
proof -
  have "chunk_list 2 (''{ }'' @ [CHR 0x00]) = [''{ '', [CHR ''}'', CHR 0x00]]"
    by (simp add: chunk_list_def Let_def upt_rec)
  moreover have "v2_waiting example_flow_world 20 = []" "cc_pending example_flow_world 70 = []"
    by (simp_all add: v2_waiting_def v2_rec_def example_flow_world_def example_flow_conn_def zero_vde2_conn_def
        cc_pending_def example_flow_cc_def)
  ultimately show ?thesis
    using ctrl_message_in_order [of example_flow_world 70 example_flow_cc example_flow_env example_flow_conn SNull "''{ }''" 5]
      example_flow_usable
    by (simp add: example_flow_world_def example_flow_cc_def example_flow_conn_def example_flow_env_def
        example_event_env_def) blast
qed

section \<open>Strings from packets\<close>

text \<open>The strings a stream of bytes completes, and what is left over.\<close>

function split_zero :: "char list \<Rightarrow> char list list \<times> char list" where
  "split_zero bytes =
     (if CHR 0x00 \<in> set bytes then
        let tok = takeWhile (\<lambda>ch. ch \<noteq> CHR 0x00) bytes;
            (toks, rest) = split_zero (drop (length tok + 1) bytes)
        in (tok # toks, rest)
      else ([], bytes))"
  by auto
termination by (relation "measure length") (auto dest: length_pos_if_in_set)

declare split_zero.simps [simp del]

lemma first_zero:
  assumes "CHR 0x00 \<in> set bytes"
  obtains tok rest where "bytes = tok @ CHR 0x00 # rest" "CHR 0x00 \<notin> set tok"
    "takeWhile (\<lambda>ch. ch \<noteq> CHR 0x00) bytes = tok" "drop (length tok + 1) bytes = rest"
proof -
  obtain tok rest where *: "bytes = tok @ CHR 0x00 # rest" "CHR 0x00 \<notin> set tok"
    using split_list_first [OF assms] by blast
  moreover have "takeWhile (\<lambda>ch. ch \<noteq> CHR 0x00) bytes = tok" using * by (simp add: takeWhile_append)
  ultimately show ?thesis by (intro that) auto
qed

lemma split_zero_simps [simp]:
  "CHR 0x00 \<notin> set bytes \<Longrightarrow> split_zero bytes = ([], bytes)"
  "CHR 0x00 \<notin> set tok \<Longrightarrow> split_zero (tok @ CHR 0x00 # rest) =
    (tok # fst (split_zero rest), snd (split_zero rest))"
  by (simp_all add: split_zero.simps [of bytes] split_zero.simps [of "tok @ _"] takeWhile_append
      case_prod_unfold Let_def)

text \<open>Nothing of the stream is lost: the strings, each with its zero byte, and the rest make it up.\<close>

lemma split_zero_join:
  "concat (map (\<lambda>tok. tok @ [CHR 0x00]) (fst (split_zero bytes))) @ snd (split_zero bytes) = bytes"
proof (induction bytes rule: split_zero.induct)
  case (1 bytes)
  show ?case
  proof (cases "CHR 0x00 \<in> set bytes")
    case True
    then obtain tok rest where "bytes = tok @ CHR 0x00 # rest" "CHR 0x00 \<notin> set tok"
      "takeWhile (\<lambda>ch. ch \<noteq> CHR 0x00) bytes = tok" "drop (length tok + 1) bytes = rest"
      by (rule first_zero)
    with 1 [OF True] show ?thesis by simp
  qed simp
qed

text \<open>How the loop ends: the rest waits for the next packet, if it fits.\<close>

definition keep_rest :: "nat \<Rightarrow> ptr \<Rightarrow> char list \<Rightarrow> int prog" where
  "keep_rest inbuf_sz cc rest =
     (if rest = [] then ret 0
      else if inbuf_sz < length rest then fail_errno ENOSPC
      else mbind (upd_cc cc (\<lambda>c. c\<lparr>inbuf := rest\<rparr>)) (\<lambda>_. ret 0))"

definition idle_inbuf :: "ptr \<Rightarrow> world \<Rightarrow> bool" where
  "idle_inbuf cc w \<longleftrightarrow> (\<exists>c. w_cc w cc = Some c \<and> inbuf c = [])"

lemma split_loop_strings:
  assumes "idle_inbuf cc w" and "\<forall>m s. c_string m 0 = Inr s \<longrightarrow> func m = g s"
    and "\<forall>s. keeps (idle_inbuf cc) (g s)"
  shows "ctrl_split_loop E sz func cc slack bytes w =
    mbind (mapM g (fst (split_zero bytes))) (\<lambda>_. keep_rest sz cc (snd (split_zero bytes))) w"
  using assms(1)
proof (induction bytes arbitrary: w rule: split_zero.induct)
  case (1 bytes)
  then obtain c where c: "w_cc w cc = Some c" "inbuf c = []" by (auto simp: idle_inbuf_def)
  show ?case
  proof (cases "CHR 0x00 \<in> set bytes")
    case True
    then obtain tok rest where t: "bytes = tok @ CHR 0x00 # rest" "CHR 0x00 \<notin> set tok"
      "takeWhile (\<lambda>ch. ch \<noteq> CHR 0x00) bytes = tok" "drop (length tok + 1) bytes = rest"
      by (rule first_zero)
    have "func (bytes @ slack) = g tok"
      using assms(2) c_string_token [OF t(2)] by (simp add: t(1))
    then have loop: "ctrl_split_loop E sz func cc slack bytes w =
        mbind (g tok) (\<lambda>_. ctrl_split_loop E sz func cc slack rest) w"
      using True c t(3,4) by (subst ctrl_split_loop.simps) (simp add: mon Let_def)
    show ?thesis
    proof (cases "g tok w")
      case (Inl f)
      then show ?thesis using loop t(1,2) by simp
    next
      case (Inr r)
      obtain w1 where r: "r = ((), w1)" by (cases r) simp
      with Inr 1(2) assms(3) have "idle_inbuf cc w1" by (auto dest: keepsD)
      with 1(1) [OF True refl, of w1] t(3,4)
      have "ctrl_split_loop E sz func cc slack rest w1 =
          mbind (mapM g (fst (split_zero rest))) (\<lambda>_. keep_rest sz cc (snd (split_zero rest))) w1"
        by simp
      with loop Inr r t(1,2) show ?thesis by (simp add: mbind_apply)
    qed
  next
    case False
    have "c\<lparr>inbuf := []\<rparr> = c" using c(2) by simp
    with False c show ?thesis
      by (subst ctrl_split_loop.simps) (simp add: mon keep_rest_def fun_upd_idem)
  qed
qed



end
