(* ===== verification/CtrlCalls.thy ===== *)
theory CtrlCalls
  imports Ctrl
begin

text \<open>
  What the control engine does with a complete string: paths, calls and their replies,
  registering for signals; and two defects, a message that spans packets and taking the
  engine down while a client is connected.
\<close>

section \<open>Paths\<close>

lemma split_at_sep:
  assumes "SEP_CHAR \<notin> set name"
  shows "takeWhile (\<lambda>ch. ch \<noteq> SEP_CHAR) (name @ SEP_CHAR # path) = name"
  using assms by (simp add: takeWhile_append)

lemma takeWhile_sep_iff:
  "length (takeWhile (\<lambda>ch. ch \<noteq> SEP_CHAR) s) = length s \<longleftrightarrow> SEP_CHAR \<notin> set s"
  by (metis (mono_tags, lifting) dropWhile_eq_Nil_conv length_append append_Nil2 add_cancel_left_right
      length_0_conv takeWhile_dropWhile_id)

lemma split_path_ok:
  assumes "SEP_CHAR \<notin> set name" and "name \<noteq> []" and "path \<noteq> []" and "\<forall>p. \<not> malloc_null E p"
  shows "check_split_path E (Some (name @ SEP_CHAR # path)) w =
    Inr (Some (name, path), w\<lparr>brk := Suc (Suc (brk w))\<rparr>)"
  using assms by (simp add: check_split_path_def split_at_sep Let_def)

lemma split_path_iff:
  assumes "\<forall>p. \<not> malloc_null E p"
  shows "(\<exists>w'. check_split_path E (Some s) w = Inr (Some (name, path), w')) \<longleftrightarrow>
      s = name @ [SEP_CHAR] @ path \<and> SEP_CHAR \<notin> set name \<and> name \<noteq> [] \<and> path \<noteq> []"
    (is "?L \<longleftrightarrow> ?R")
proof
  assume ?R
  then show ?L using split_path_ok [of name path E w] assms by auto
next
  assume ?L
  let ?n = "takeWhile (\<lambda>ch. ch \<noteq> SEP_CHAR) s"
  have len: "length ?n \<le> length s" by (rule length_takeWhile_le)
  from \<open>?L\<close> have *: "length ?n \<noteq> length s" "length ?n \<noteq> 0" "length ?n \<noteq> length s - 1"
    "name = ?n" "path = drop (length ?n + 1) s"
    by (auto simp: check_split_path_def Let_def mon split: if_splits)
  have "s ! length ?n = SEP_CHAR"
    using nth_length_takeWhile [of "\<lambda>ch. ch \<noteq> SEP_CHAR" s] *(1) len by simp
  then have "s = ?n @ SEP_CHAR # drop (length ?n + 1) s"
    using *(1) len by (metis Cons_nth_drop_Suc Suc_eq_plus1 append_take_drop_id le_neq_implies_less
        takeWhile_eq_take)
  moreover have "SEP_CHAR \<notin> set ?n" by (auto dest: set_takeWhileD)
  moreover have "path \<noteq> []" using *(1,3,5) len by auto
  ultimately show ?R using * by auto
qed

lemma split_path_total:
  assumes "\<forall>p. \<not> malloc_null E p"
  shows "\<exists>r w'. check_split_path E (Some s) w = Inr (r, w') \<and> (r = None \<longrightarrow> errno w' = EINVAL)"
  using assms by (simp add: check_split_path_def Let_def mon)

text \<open>C36: a path is accepted exactly when its first dot is neither its first nor its last character; the
  parts are what stands before and behind that dot, so that joining them with a dot gives the path
  back. Any other path gives \<open>EINVAL\<close>.\<close>

theorem check_split_path_roundtrip:
  assumes "\<forall>p. \<not> malloc_null E p"
  shows "((\<exists>w'. check_split_path E (Some s) w = Inr (Some (name, path), w')) \<longleftrightarrow>
      s = name @ [SEP_CHAR] @ path \<and> SEP_CHAR \<notin> set name \<and> name \<noteq> [] \<and> path \<noteq> []) \<and>
    (\<exists>r w'. check_split_path E (Some s) w = Inr (r, w') \<and> (r = None \<longrightarrow> errno w' = EINVAL))"
  by (intro conjI split_path_iff [OF assms] split_path_total [OF assms])

theorem check_split_path_roundtrip_witness:
  "\<exists>w'. check_split_path base_env (Some ''e1.port_new'') empty_world = Inr (Some (''e1'', ''port_new''), w')"
  using check_split_path_roundtrip [of base_env "''e1.port_new''" empty_world "''e1''" "''port_new''"]
  by (simp add: SEP_CHAR_def)

section \<open>Replies\<close>

text \<open>Commands as the generated wrappers are documented: they return and say something.\<close>

definition commands_answer :: "env \<Rightarrow> bool" where
  "commands_answer E \<longleftrightarrow> (\<forall>f p x w. \<exists>rv out w'. call_command E f p x w = Inr ((rv, out), w') \<and> out \<noteq> SNull)"

definition commands_named :: "world \<Rightarrow> bool" where
  "commands_named w \<longleftrightarrow> (\<forall>p x q cmd. w_comp w p = Some x \<longrightarrow> (q, cmd) \<in> set (commands x) \<longrightarrow> cmd_name cmd \<noteq> None)"

text \<open>The id a reply to the text \<open>s\<close> bears.\<close>

definition reply_id :: "env \<Rightarrow> string \<Rightarrow> vde_sobj" where
  "reply_id E s = (case sobj_parse E s of
       None \<Rightarrow> SNull
     | Some call \<Rightarrow> if rpc_10_sobj_validate_call call = 0 then sobj_hash_lookup call ''id'' else SNull)"

definition reply_for :: "vde_sobj \<Rightarrow> vde_sobj \<Rightarrow> bool" where
  "reply_for mesg_id reply \<longleftrightarrow> sobj_hash_lookup reply ''id'' = mesg_id \<and>
     (sobj_hash_lookup reply ''result'' = SNull) \<noteq> (sobj_hash_lookup reply ''error'' = SNull)"

lemma build_reply_eval:
  "(result \<noteq> SNull) \<noteq> (error \<noteq> SNull) \<Longrightarrow> mesg_id = SNull \<or> sobj_is_int mesg_id \<Longrightarrow>
    rpc_10_build_reply E mesg_id result error w =
      Inr (SHash [(''id'', mesg_id), (''result'', result), (''error'', error)], w)"
  by (auto simp: rpc_10_build_reply_def mon)

lemma reply_for_hash:
  "(result \<noteq> SNull) \<noteq> (error \<noteq> SNull) \<Longrightarrow>
    reply_for mesg_id (SHash [(''id'', mesg_id), (''result'', result), (''error'', error)])"
  by (auto simp: reply_for_def)

lemma error_reply_eval:
  "mesg_id = SNull \<or> sobj_is_int mesg_id \<Longrightarrow>
    \<exists>reply. reply_for mesg_id reply \<and> (\<forall>w. rpc_XX_build_error_reply_sobj E mesg_id code msg w = Inr (reply, w))"
  using reply_for_hash [of SNull "SHash [(''code'', code), (''message'', msg)]" mesg_id]
  by (auto simp: rpc_XX_build_error_reply_sobj_def build_reply_eval)

lemma error_reply_send:
  assumes "mesg_id = SNull \<or> sobj_is_int mesg_id"
  shows "\<exists>reply w1. reply_for mesg_id reply \<and> mbind (rpc_XX_build_error_reply_sobj E mesg_id code msg) send w = send reply w1"
proof -
  obtain reply where "reply_for mesg_id reply" "rpc_XX_build_error_reply_sobj E mesg_id code msg w = Inr (reply, w)"
    using error_reply_eval [OF assms, of E code msg] by blast
  then show ?thesis by (metis mbind_Inr)
qed

lemma valid_call_id: "rpc_10_sobj_validate_call call = 0 \<Longrightarrow> sobj_is_int (sobj_hash_lookup call ''id'')"
  by (auto simp: rpc_10_sobj_validate_call_def Let_def split: if_splits)

text \<open>Looking up the callee does not disturb anything, and finds allocated components only.\<close>

lemma ctx_frame:
  assumes "w_ctx w' = w_ctx w" and "w_comp w' = w_comp w" and "interned w' = interned w"
  shows "ctx_inv E ctx w' \<longleftrightarrow> ctx_inv E ctx w" and "ctx_ents ctx w' = ctx_ents ctx w"
  using assms by (simp_all add: ctx_inv_def entry_ok_def keys_interned_def ctx_ents_def)

lemma get_component_allocated:
  assumes "ctx_inv E ctx w" and "hget (ctx_ents ctx w) q \<noteq> NULL"
  shows "\<exists>x. w_comp w (hget (ctx_ents ctx w) q) = Some x"
proof -
  from assms(1) obtain x oh where ok: "\<And>e. e \<in> set (oh_ents oh) \<Longrightarrow> entry_ok w e"
    and ents: "ctx_ents ctx w = oh_ents oh"
    by (rule ctx_invE) (rule that)
  have "(q, hget (oh_ents oh) q) \<in> set (oh_ents oh)"
    using assms(2) ents by (auto simp: hget_def split: option.splits dest: map_of_SomeD)
  with ok ents show ?thesis by (force simp: entry_ok_def)
qed

text \<open>From the world after parsing and splitting on: at most the command runs, then one reply goes out.\<close>

lemma call_one_reply:
  assumes "w_cc w cc = Some c" and "w_conn w (cc_conn c) = Some k" and "cc_conn c \<noteq> NULL"
    and "ctx_inv E (c_context k) w" and "w_ctrl w (cc_engine c) = Some e" and "commands_answer E"
    and "commands_named w" and "sobj_is_int mesg_id"
  shows "\<exists>reply w1. reply_for mesg_id reply \<and>
    mbind (cc_context E cc) (\<lambda>ctx.
    mbind (vde_context_get_component E ctx (Some component_name)) (\<lambda>component.
    if component = NULL then mbind (rpc_XX_build_error_reply E mesg_id ENOENT msg1) send
    else mbind (vde_component_command_get E component (Some command_name)) (\<lambda>command.
      case command of
        None \<Rightarrow> mbind (rpc_XX_build_error_reply E mesg_id ENOENT msg2) send
      | Some command \<Rightarrow>
          mbind (deref w_cc cc) (\<lambda>c.
          mbind (deref w_ctrl (cc_engine c)) (\<lambda>ctrl.
          mbind (if component = ctrl_component ctrl then is_builtin command else ret False) (\<lambda>builtin.
          mbind (call_command E (vde_command_get_func command) (if builtin then cc else component) params) (\<lambda>(rv, out_sobj).
          if rv \<noteq> 0 then
            mbind (gets errno) (\<lambda>e.
            mbind (rpc_XX_build_error_reply_sobj E mesg_id (SInt e) out_sobj) send)
          else mbind (rpc_10_build_reply E mesg_id out_sobj SNull) send))))))) w = send reply w1"
proof -
  let ?p = "hget (ctx_ents (c_context k) w) (quark_id E component_name)"
  have id: "mesg_id = SNull \<or> sobj_is_int mesg_id" using assms(8) by simp
  note err = error_reply_send [OF id, of E _ _ send]
  have ctx: "cc_context E cc w = Inr (c_context k, w)"
    using assms(1-3) by (simp add: cc_context_def mon)
  note get = get_component_eval [OF assms(4), of component_name]
  show ?thesis
  proof (cases "?p = NULL")
    case True
    then show ?thesis using ctx get err [of "SInt ENOENT" "SString msg1" w] by (simp add: rpc_XX_build_error_reply_def)
  next
    case False
    then obtain x where x: "w_comp w ?p = Some x" using get_component_allocated [OF assms(4)] by blast
    let ?cmd = "map_of (commands x) (quark_of E w (Some command_name))"
    have cget: "vde_component_command_get E ?p (Some command_name) w = Inr (?cmd, w)"
      using False x by (simp add: vde_component_command_get_def mon)
    show ?thesis
    proof (cases ?cmd)
      case None
      then show ?thesis using ctx get False cget err [of "SInt ENOENT" "SString msg2" w]
        by (simp add: rpc_XX_build_error_reply_def)
    next
      case (Some cmd)
      then have "cmd_name cmd \<noteq> None" using assms(7) x by (auto simp: commands_named_def dest: map_of_SomeD)
      then obtain b where b: "(if ?p = ctrl_component e then is_builtin cmd else ret False) w = Inr (b, w)"
        by (cases "?p = ctrl_component e") (auto simp: is_builtin_def vde_command_get_name_def)
      obtain rv out w' where r: "call_command E (vde_command_get_func cmd) (if b then cc else ?p) params w = Inr ((rv, out), w')"
        "out \<noteq> SNull"
        using assms(6) unfolding commands_answer_def by blast
      have "\<exists>reply w1. reply_for mesg_id reply \<and> (if rv \<noteq> 0 then
            mbind (gets errno) (\<lambda>e. mbind (rpc_XX_build_error_reply_sobj E mesg_id (SInt e) out) send)
          else mbind (rpc_10_build_reply E mesg_id out SNull) send) w' = send reply w1"
        using err [of "SInt (errno w')" out w'] build_reply_eval [of out SNull mesg_id E w'] id r(2)
          reply_for_hash [of out SNull mesg_id] by auto
      then show ?thesis using ctx get False cget Some b r(1) assms(1,5) by simp
    qed
  qed
qed


definition example_cc :: ctrl_conn where
  "example_cc = \<lparr>cc_conn = 20, inbuf = [], out_queue = [], reg_signals = [], cc_engine = 80\<rparr>"

definition example_cc_conn :: vde_connection where
  "example_cc_conn = \<lparr>attributes = NULL, c_context = 3, max_pload = 1518, pkt_head_sz = 0,
     pkt_tail_sz = 0, send_maxtries = 0, send_maxtimeout = \<lparr>tv_sec = 0, tv_usec = 0\<rparr>,
     be_write = None, be_close = Some (Ext_be_close 0), be_priv = NULL, read_cb = Some Ctrl_engine_readcb,
     write_cb = Some Ctrl_engine_writecb, error_cb = Some Ctrl_engine_errorcb, cb_priv = 70\<rparr>"

definition example_ctrl_world :: world where
  "example_ctrl_world = example_ctx_world\<lparr>brk := 100, w_conn := [20 \<mapsto> example_cc_conn], w_cc := [70 \<mapsto> example_cc],
     w_ctrl := [80 \<mapsto> \<lparr>ctrl_conns = [70], ctrl_component = 90\<rparr>],
     w_comp := [90 \<mapsto> zero_component\<lparr>comp_priv := 80\<rparr>]\<rparr>"

definition example_call :: vde_sobj where
  "example_call = SHash [(''method'', SString ''e1.status''), (''params'', SArray []), (''id'', SInt 7)]"

definition example_ctrl_env :: env where
  "example_ctrl_env = base_env\<lparr>sobj_parse := (\<lambda>s. Some example_call),
     call_command := (\<lambda>f p x. ret (0, SInt 1)), call_be_close := (\<lambda>f c. ret ())\<rparr>"


section \<open>Registering for signals\<close>

definition ctrl_listener :: "ptr \<Rightarrow> signal_cb" where
  "ctrl_listener cc = listener (Some Signal_callback) (Some Signal_destroy_callback) cc"

text \<open>A path that resolves: a component of the client's context and one of its signals.\<close>

definition resolves :: "env \<Rightarrow> world \<Rightarrow> ptr \<Rightarrow> string \<Rightarrow> string \<Rightarrow> ptr \<Rightarrow> ptr \<Rightarrow> bool" where
  "resolves E w cc name sig p sg \<longleftrightarrow> (\<exists>c k x. w_cc w cc = Some c \<and> cc_conn c \<noteq> NULL \<and> w_conn w (cc_conn c) = Some k \<and>
     ctx_inv E (c_context k) w \<and> hget (ctx_ents (c_context k) w) (quark_id E name) = p \<and> p \<noteq> NULL \<and>
     w_comp w p = Some x \<and> hget (signals x) (quark_of E w (Some sig)) = sg \<and> sg \<noteq> NULL)"

lemma resolves_frame:
  assumes "resolves E w cc name sig p sg" and "w_ctx w' = w_ctx w" and "w_comp w' = w_comp w"
    and "interned w' = interned w" and "w_conn w' = w_conn w" and "w_cc w cc = Some c" and "w_cc w' cc = Some c'"
    and "cc_conn c' = cc_conn c"
  shows "resolves E w' cc name sig p sg"
  using assms ctx_frame [OF assms(2-4)] by (auto simp: resolves_def quark_of_def)

lemma resolve_eval:
  assumes "resolves E w cc name sig p sg"
  shows "cc_context E cc w = Inr (ctx, w) \<Longrightarrow> vde_context_get_component E ctx (Some name) w = Inr (p, w)"
    and "\<exists>ctx. cc_context E cc w = Inr (ctx, w)"
    and "vde_component_signal_get E p (Some sig) w = Inr (sg, w)" and "p \<noteq> NULL" and "sg \<noteq> NULL"
  using assms by (auto simp: resolves_def cc_context_def mon get_component_eval vde_component_signal_get_def)

lemma notify_add_eval:
  assumes "resolves E w cc name sig p sg" and "w_signal w sg = Some s" and "ctrl_listener cc \<notin> set (callbacks s)"
    and "SEP_CHAR \<notin> set name" and "name \<noteq> []" and "sig \<noteq> []" and "\<forall>n. \<not> malloc_null E n" and "w_cc w cc = Some c"
  shows "\<exists>n. engine_ctrl_notify_add E cc (name @ SEP_CHAR # sig) w = Inr ((0, SString ''Signal attached''),
    w\<lparr>w_signal := (w_signal w)(sg \<mapsto> s\<lparr>callbacks := ctrl_listener cc # callbacks s\<rparr>), brk := n,
      w_cc := (w_cc w)(cc \<mapsto> c\<lparr>reg_signals := Some (name @ SEP_CHAR # sig) # reg_signals c\<rparr>), errno := 0\<rparr>)"
proof -
  let ?w1 = "w\<lparr>brk := Suc (Suc (brk w))\<rparr>"
  have r1: "resolves E ?w1 cc name sig p sg"
    by (rule resolves_frame [OF assms(1)]) (use assms(8) in simp_all)
  obtain ctx where ctx: "cc_context E cc ?w1 = Inr (ctx, ?w1)" using resolve_eval(2) [OF r1] by blast
  have "w_signal ?w1 sg = Some s" using assms(2) by simp
  note at = signal_attach_cases [OF this, of E "Some Signal_callback" "Some Signal_destroy_callback" cc]
  show ?thesis
    using ctx resolve_eval [OF r1] at assms(3,7,8) split_path_ok [OF assms(4-7), of w]
    by (simp add: engine_ctrl_notify_add_def vde_component_signal_attach_def ctrl_listener_def notify_out_def mon)
      blast
qed

lemma notify_del_eval:
  assumes "resolves E w cc name sig p sg" and "w_signal w sg = Some s" and "ctrl_listener cc \<in> set (callbacks s)"
    and "SEP_CHAR \<notin> set name" and "name \<noteq> []" and "sig \<noteq> []" and "\<forall>n. \<not> malloc_null E n" and "w_cc w cc = Some c"
    and "find_registered (reg_signals c) (name @ SEP_CHAR # sig) = Inr (Some reg)"
  shows "\<exists>n. engine_ctrl_notify_del E cc (name @ SEP_CHAR # sig) w = Inr ((0, SString ''Signal detached''),
    w\<lparr>brk := n, w_signal := (w_signal w)(sg \<mapsto> s\<lparr>callbacks := remove1 (ctrl_listener cc) (callbacks s)\<rparr>),
      w_cc := (w_cc w)(cc \<mapsto> c\<lparr>reg_signals := remove1 (Some reg) (reg_signals c)\<rparr>), errno := 0\<rparr>)"
proof -
  let ?w1 = "w\<lparr>brk := Suc (Suc (brk w))\<rparr>"
  have r1: "resolves E ?w1 cc name sig p sg"
    by (rule resolves_frame [OF assms(1)]) (use assms(8) in simp_all)
  obtain ctx where ctx: "cc_context E cc ?w1 = Inr (ctx, ?w1)" using resolve_eval(2) [OF r1] by blast
  have "w_signal ?w1 sg = Some s" using assms(2) by simp
  note dt = signal_detach_cases [OF this, of E "Some Signal_callback" "Some Signal_destroy_callback" cc]
  show ?thesis
    using ctx resolve_eval [OF r1] dt assms(3,8,9) split_path_ok [OF assms(4-7), of w]
    by (simp add: engine_ctrl_notify_del_def vde_component_signal_detach_def ctrl_listener_def notify_out_def mon)
      blast
qed

lemma has_prefix_refl [simp]: "has_prefix s s"
  by (simp add: has_prefix_def)

text \<open>C38: a client that registers for a signal becomes one of its listeners and has the path on record;
  giving the same path back detaches it again and leaves listeners and records as they were.\<close>

theorem notify_add_del_roundtrip:
  assumes "resolves E w cc name sig p sg" and "w_signal w sg = Some s" and "ctrl_listener cc \<notin> set (callbacks s)"
    and "SEP_CHAR \<notin> set name" and "name \<noteq> []" and "sig \<noteq> []" and "\<forall>n. \<not> malloc_null E n" and "w_cc w cc = Some c"
  shows "\<exists>w1 w2. engine_ctrl_notify_add E cc (name @ SEP_CHAR # sig) w = Inr ((0, SString ''Signal attached''), w1) \<and>
    w_signal w1 sg = Some (s\<lparr>callbacks := ctrl_listener cc # callbacks s\<rparr>) \<and>
    w_cc w1 cc = Some (c\<lparr>reg_signals := Some (name @ SEP_CHAR # sig) # reg_signals c\<rparr>) \<and>
    engine_ctrl_notify_del E cc (name @ SEP_CHAR # sig) w1 = Inr ((0, SString ''Signal detached''), w2) \<and>
    w_signal w2 = w_signal w \<and> w_cc w2 = w_cc w"
proof -
  let ?path = "name @ SEP_CHAR # sig"
  let ?s1 = "s\<lparr>callbacks := ctrl_listener cc # callbacks s\<rparr>" and ?c1 = "c\<lparr>reg_signals := Some ?path # reg_signals c\<rparr>"
  obtain n where add: "engine_ctrl_notify_add E cc ?path w = Inr ((0, SString ''Signal attached''),
      w\<lparr>w_signal := (w_signal w)(sg \<mapsto> ?s1), brk := n, w_cc := (w_cc w)(cc \<mapsto> ?c1), errno := 0\<rparr>)"
    (is "_ = Inr (_, ?w1)")
    using notify_add_eval [OF assms] by blast
  have r1: "resolves E ?w1 cc name sig p sg"
    by (rule resolves_frame [OF assms(1), of _ c ?c1]) (use assms(8) in simp_all)
  have s1: "w_signal ?w1 sg = Some ?s1" and c1: "w_cc ?w1 cc = Some ?c1" by simp_all
  have l1: "ctrl_listener cc \<in> set (callbacks ?s1)" by simp
  have reg: "find_registered (reg_signals ?c1) ?path = Inr (Some ?path)" by simp
  obtain m where del: "engine_ctrl_notify_del E cc ?path ?w1 = Inr ((0, SString ''Signal detached''),
      ?w1\<lparr>brk := m, w_signal := (w_signal ?w1)(sg \<mapsto> ?s1\<lparr>callbacks := remove1 (ctrl_listener cc) (callbacks ?s1)\<rparr>),
        w_cc := (w_cc ?w1)(cc \<mapsto> ?c1\<lparr>reg_signals := remove1 (Some ?path) (reg_signals ?c1)\<rparr>), errno := 0\<rparr>)"
    using notify_del_eval [OF r1 s1 l1 assms(4-7) c1 reg] by blast
  show ?thesis
    by (rule exI, rule exI, rule conjI, rule add, rule conjI, simp, rule conjI, simp, rule conjI, rule del)
      (use assms(2,8) in \<open>simp add: fun_upd_idem\<close>)
qed

definition example_notify_world :: world where
  "example_notify_world = example_ctrl_world\<lparr>interned := [''e1'', ''port_new''],
     w_ctx := [3 \<mapsto> example_context\<lparr>components := Some \<lparr>oh_hash = [(quark_num ''e1'', 91)], oh_list = [quark_num ''e1'']\<rparr>\<rparr>],
     w_comp := [91 \<mapsto> zero_component\<lparr>qname := quark_num ''e1'', initialized := True,
       signals := [(quark_num ''port_new'', 95)]\<rparr>],
     w_signal := [95 \<mapsto> \<lparr>sig_name = Some ''port_new'', sig_description = None, callbacks = []\<rparr>]\<rparr>"

lemma example_resolves: "resolves base_env example_notify_world 70 ''e1'' ''port_new'' 91 95"
proof -
  have "ctx_ents 3 example_notify_world = [(quark_num ''e1'', 91)]"
    by (simp add: ctx_ents_def example_notify_world_def oh_ents_def hget_def)
  moreover have "ctx_inv base_env 3 example_notify_world"
    by (simp add: ctx_inv_def quark_ok_num example_notify_world_def example_context_def
        oh_inv_def oh_ents_def keys_interned_def hget_def entry_ok_def)
  ultimately show ?thesis
    by (simp add: resolves_def) (simp add: example_notify_world_def example_ctrl_world_def example_cc_def
      example_cc_conn_def hget_def quark_of_def)
qed

theorem notify_add_del_roundtrip_witness:
  "\<exists>w1 w2. engine_ctrl_notify_add base_env 70 ''e1.port_new'' example_notify_world =
      Inr ((0, SString ''Signal attached''), w1) \<and>
    engine_ctrl_notify_del base_env 70 ''e1.port_new'' w1 = Inr ((0, SString ''Signal detached''), w2) \<and>
    w_cc w2 = w_cc example_notify_world"
  using notify_add_del_roundtrip [OF example_resolves, of "\<lparr>sig_name = Some ''port_new'', sig_description = None, callbacks = []\<rparr>" example_cc]
  by (auto simp: SEP_CHAR_def example_notify_world_def example_ctrl_world_def)

section \<open>Two defects\<close>

text \<open>A call that does not arrive in one packet stops the program: the parts are joined in a block
  without room for the terminating zero byte, and the parser reads beyond its end.\<close>

theorem ctrl_joined_string_overruns:
  assumes "w_cc w cc = Some c" and "inbuf c \<noteq> []" and "CHR 0x00 \<notin> set (inbuf c)"
    and "pkt_bytes pkt = Inr bytes" and "CHR 0x00 \<in> set bytes"
    and "\<forall>p. \<not> malloc_null E p"
  shows "ctrl_engine_readcb n E conn pkt cc w = Inl Out_Of_Bounds"
proof -
  have "CHR 0x00 \<notin> set (inbuf c @ takeWhile (\<lambda>ch. ch \<noteq> CHR 0x00) bytes)"
    using assms(3) by (auto dest: set_takeWhileD)
  note c_string_unterminated [OF this]
  then have "ctrl_engine_deserialize_string n E (inbuf c @ takeWhile (\<lambda>ch. ch \<noteq> CHR 0x00) bytes) cc w1 =
      Inl Out_Of_Bounds" for w1
    using assms(6) by (simp add: ctrl_engine_deserialize_string_def vde_sobj_from_string_def Let_def mon)
  then show ?thesis
    using assms by (simp add: ctrl_engine_readcb_def ctrl_split_payload_def ctrl_split_loop.simps [of _ _ _ _ _ bytes]
        Let_def mon)
qed

theorem ctrl_joined_string_overruns_witness:
  "ctrl_engine_readcb 5 example_ctrl_env 20 (example_pkt\<lparr>p_payload := 4, p_data := map char_of [1, 2, 3, 0 :: nat] @ ''}'' @
      [CHR 0x00, CHR ''A'', CHR ''B'']\<rparr>) 70
    (example_ctrl_world\<lparr>w_cc := [70 \<mapsto> example_cc\<lparr>inbuf := ''{''\<rparr>]\<rparr>) = Inl Out_Of_Bounds"
proof -
  let ?p = "example_pkt\<lparr>p_payload := 4, p_data := map char_of [1, 2, 3, 0 :: nat] @ ''}'' @ [CHR 0x00, CHR ''A'', CHR ''B'']\<rparr>"
  have "pkt_bytes ?p = Inr [CHR ''}'', CHR 0x00, CHR ''A'']"
    by (simp add: pkt_bytes_def get_pkt_len_def mem_read_def)
  then show ?thesis
    using ctrl_joined_string_overruns [of "example_ctrl_world\<lparr>w_cc := [70 \<mapsto> example_cc\<lparr>inbuf := ''{''\<rparr>]\<rparr>" 70
        "example_cc\<lparr>inbuf := ''{''\<rparr>" ?p "[CHR ''}'', CHR 0x00, CHR ''A'']" example_ctrl_env 5 20]
    by (simp add: example_ctrl_env_def)
qed

text \<open>The engine cannot be taken down while a client is connected: the connection is deleted first and
  then asked for its context.\<close>

theorem engine_ctrl_fini_dangles:
  assumes "w_comp w component = Some k" and "component \<noteq> NULL" and "w_ctrl w (comp_priv k) = Some e"
    and "ctrl_conns e = cc # ccs" and "w_cc w cc = Some c" and "cc_conn c \<noteq> NULL"
    and "w_conn w (cc_conn c) = Some d" and "be_close d = Some f"
    and "call_be_close E f (cc_conn c) w = Inr ((), w')" and "w_cc w' cc = Some c'" and "cc_conn c' = cc_conn c"
    and "w_conn w' (cc_conn c) = Some d'"
  shows "engine_ctrl_fini E component w = Inl Dangling"
  using assms
  by (simp add: engine_ctrl_fini_def ctrl_conn_fini_noengine_def cc_context_def mon Let_def
      vde_connection_get_context_def deref_None)

theorem engine_ctrl_fini_dangles_witness: "engine_ctrl_fini example_ctrl_env 90 example_ctrl_world = Inl Dangling"
  using engine_ctrl_fini_dangles [of example_ctrl_world 90 "zero_component\<lparr>comp_priv := 80\<rparr>"
      "\<lparr>ctrl_conns = [70], ctrl_component = 90\<rparr>" 70 "[]" example_cc example_cc_conn "Ext_be_close 0"
      example_ctrl_env example_ctrl_world example_cc example_cc_conn]
  by (simp add: example_ctrl_world_def example_cc_def example_cc_conn_def example_ctrl_env_def)

end
