(* ===== verification/Libevent.thy ===== *)
theory Libevent
  imports Vde2
begin

text \<open>
  The event handler on top of libevent, \<^verbatim>\<open>src/libevent_handler.c\<close>, which the programs of the
  repository hand to \<open>vde_context_init\<close>. Its memory is a heap of its own: the structures it
  allocates for libevent, and the record of a timeout. What it asks of libevent is a log of
  calls; every call reads the event structure, so a call on freed memory is a fault.

  \<open>pending\<close> says what libevent's documentation promises about such a log. The locale
  \<open>event_handler\<close> is the contract of \<^verbatim>\<open>struct vde_event_handler\<close>, and the interpretation shows
  that this handler keeps it.
\<close>

section \<open>State\<close>

datatype le_cb = User_cb event_cb | Rtimeout_cb

datatype le_call =
    Event_set ptr int nat le_cb ptr
  | Event_add ptr "timeval option"
  | Event_del ptr
  | Timeout_set ptr le_cb ptr
  | Timeout_add ptr timeval

record rtimeout =
  rt_ev :: ptr
  rt_timeout :: ptr
  rt_cb :: "event_cb option"
  rt_arg :: ptr

datatype le_block = Ev_block | Rt_block rtimeout | Tv_block timeval

record le_state =
  le_errno :: int
  le_brk :: ptr
  le_heap :: "ptr \<rightharpoonup> le_block"
  le_log :: "le_call list"

type_synonym 'a leprog = "(le_state, 'a) M"

definition le_malloc :: "(nat \<Rightarrow> bool) \<Rightarrow> le_block \<Rightarrow> ptr leprog" where
  "le_malloc oom b =
     mbind (gets le_brk) (\<lambda>p.
     mbind (modify (\<lambda>s. s\<lparr>le_brk := Suc p\<rparr>)) (\<lambda>_.
     if oom p then ret NULL
     else mbind (modify (\<lambda>s. s\<lparr>le_heap := (le_heap s)(p \<mapsto> b)\<rparr>)) (\<lambda>_. ret p)))"

definition le_free :: "ptr \<Rightarrow> unit leprog" where
  "le_free p = (if p = NULL then ret ()
     else mbind (gets le_heap) (\<lambda>h.
       if h p = None then mfail Double_Free else modify (\<lambda>s. s\<lparr>le_heap := (le_heap s)(p := None)\<rparr>)))"

definition le_read :: "ptr \<Rightarrow> le_block leprog" where
  "le_read p = mbind (gets le_heap) (\<lambda>h. case h p of
       None \<Rightarrow> mfail (if p = NULL then Null_Deref else Dangling) | Some b \<Rightarrow> ret b)"

definition rt_read :: "ptr \<Rightarrow> rtimeout leprog" where
  "rt_read p = mbind (le_read p) (\<lambda>b. case b of Rt_block r \<Rightarrow> ret r | _ \<Rightarrow> mfail Dangling)"

definition le_write :: "ptr \<Rightarrow> le_block \<Rightarrow> unit leprog" where
  "le_write p b = mbind (le_read p) (\<lambda>_. modify (\<lambda>s. s\<lparr>le_heap := (le_heap s)(p \<mapsto> b)\<rparr>))"

text \<open>A call of libevent on the structure at \<open>ev\<close>.\<close>

definition libevent :: "ptr \<Rightarrow> le_call \<Rightarrow> unit leprog" where
  "libevent ev c = mbind (le_read ev) (\<lambda>_. modify (\<lambda>s. s\<lparr>le_log := le_log s @ [c]\<rparr>))"

definition le_enomem :: "ptr leprog" where
  "le_enomem = mbind (modify (\<lambda>s. s\<lparr>le_errno := ENOMEM\<rparr>)) (\<lambda>_. ret NULL)"

section \<open>The handler\<close>

definition libevent_event_add ::
  "(nat \<Rightarrow> bool) \<Rightarrow> int \<Rightarrow> nat \<Rightarrow> timeval option \<Rightarrow> event_cb \<Rightarrow> ptr \<Rightarrow> ptr leprog" where
  "libevent_event_add oom fd events timeout cb arg =
     mbind (le_malloc oom Ev_block) (\<lambda>ev.
     if ev = NULL then le_enomem
     else
       mbind (libevent ev (Event_set ev fd events (User_cb cb) arg)) (\<lambda>_.
       mbind (libevent ev (Event_add ev timeout)) (\<lambda>_.
       ret ev)))"

definition libevent_event_del :: "ptr \<Rightarrow> unit leprog" where
  "libevent_event_del event =
     mbind (libevent event (Event_del event)) (\<lambda>_.
     le_free event)"

text \<open>\<^verbatim>\<open>events & VDE_EV_PERSIST\<close>\<close>

definition persistent :: "nat \<Rightarrow> bool" where
  "persistent events \<longleftrightarrow> (events div VDE_EV_PERSIST) mod 2 = 1"

definition libevent_timeout_add :: "(nat \<Rightarrow> bool) \<Rightarrow> timeval \<Rightarrow> nat \<Rightarrow> event_cb \<Rightarrow> ptr \<Rightarrow> ptr leprog" where
  "libevent_timeout_add oom timeout events cb arg =
     mbind (le_malloc oom Ev_block) (\<lambda>ev.
     if ev = NULL then le_enomem
     else mbind (le_malloc oom (Rt_block \<lparr>rt_ev = NULL, rt_timeout = NULL, rt_cb = None, rt_arg = NULL\<rparr>)) (\<lambda>rt.
     if rt = NULL then mbind (le_free ev) (\<lambda>_. le_enomem)
     else
       mbind (le_write rt (Rt_block \<lparr>rt_ev = ev, rt_timeout = NULL, rt_cb = None, rt_arg = NULL\<rparr>)) (\<lambda>_.
       if persistent events then
         mbind (le_malloc oom (Tv_block timeout)) (\<lambda>tv.
         mbind (le_write tv (Tv_block timeout)) (\<lambda>_.
         mbind (le_write rt (Rt_block \<lparr>rt_ev = ev, rt_timeout = tv, rt_cb = Some cb, rt_arg = arg\<rparr>)) (\<lambda>_.
         mbind (libevent ev (Timeout_set ev Rtimeout_cb rt)) (\<lambda>_.
         mbind (libevent ev (Timeout_add ev timeout)) (\<lambda>_.
         ret rt)))))
       else
         mbind (libevent ev (Timeout_set ev (User_cb cb) arg)) (\<lambda>_.
         mbind (libevent ev (Timeout_add ev timeout)) (\<lambda>_.
         ret rt)))))"

definition libevent_timeout_del :: "ptr \<Rightarrow> unit leprog" where
  "libevent_timeout_del timeout =
     mbind (rt_read timeout) (\<lambda>rt.
     mbind (libevent (rt_ev rt) (Event_del (rt_ev rt))) (\<lambda>_.
     mbind (le_free (rt_ev rt)) (\<lambda>_.
     mbind (if rt_timeout rt \<noteq> NULL then le_free (rt_timeout rt) else ret ()) (\<lambda>_.
     le_free timeout))))"

text \<open>\<open>call\<close> runs the application's callback.\<close>

definition rtimeout_cb :: "(event_cb \<Rightarrow> int \<Rightarrow> nat \<Rightarrow> ptr \<Rightarrow> unit leprog) \<Rightarrow> int \<Rightarrow> nat \<Rightarrow> ptr \<Rightarrow> unit leprog" where
  "rtimeout_cb call fd events arg =
     mbind (rt_read arg) (\<lambda>rt.
     mbind (case rt_cb rt of None \<Rightarrow> mfail Null_Call | Some cb \<Rightarrow> call cb fd events (rt_arg rt)) (\<lambda>_.
     mbind (rt_read arg) (\<lambda>rt.
     mbind (le_read (rt_timeout rt)) (\<lambda>tv. case tv of
       Tv_block t \<Rightarrow> libevent (rt_ev rt) (Timeout_add (rt_ev rt) t)
     | _ \<Rightarrow> mfail Dangling))))"

lemma le_ops [mon]:
  "le_malloc oom b s = (if oom (le_brk s) then Inr (NULL, s\<lparr>le_brk := Suc (le_brk s)\<rparr>)
    else Inr (le_brk s, s\<lparr>le_brk := Suc (le_brk s), le_heap := (le_heap s)(le_brk s \<mapsto> b)\<rparr>))"
  "le_heap s p = Some b \<Longrightarrow> le_read p s = Inr (b, s)"
  "le_heap s p = Some (Rt_block r) \<Longrightarrow> rt_read p s = Inr (r, s)"
  "le_heap s p = Some b \<Longrightarrow> le_write p b' s = Inr ((), s\<lparr>le_heap := (le_heap s)(p \<mapsto> b')\<rparr>)"
  "le_heap s p = Some b \<Longrightarrow> libevent p c s = Inr ((), s\<lparr>le_log := le_log s @ [c]\<rparr>)"
  "le_heap s p = Some b \<Longrightarrow> p \<noteq> NULL \<Longrightarrow> le_free p s = Inr ((), s\<lparr>le_heap := (le_heap s)(p := None)\<rparr>)"
  "le_enomem s = Inr (NULL, s\<lparr>le_errno := ENOMEM\<rparr>)"
  by (simp_all add: le_malloc_def le_read_def rt_read_def le_write_def libevent_def le_free_def le_enomem_def mbind_apply)

section \<open>What libevent makes of a log\<close>

type_synonym watch = "int \<times> nat \<times> le_cb \<times> ptr"

text \<open>
  \<open>event_set\<close> prepares a structure, \<open>event_add\<close> makes it pending as prepared, \<open>event_del\<close>
  ends that; \<open>timeout_set\<close> and \<open>timeout_add\<close> are the same for a structure without descriptor.
\<close>

fun le_effect :: "le_call \<Rightarrow> (ptr \<rightharpoonup> watch) \<times> (ptr \<rightharpoonup> watch) \<Rightarrow> (ptr \<rightharpoonup> watch) \<times> (ptr \<rightharpoonup> watch)" where
  "le_effect (Event_set ev fd events cb arg) (prep, pend) = (prep(ev \<mapsto> (fd, events, cb, arg)), pend)"
| "le_effect (Event_add ev timeout) (prep, pend) = (prep, pend(ev := prep ev))"
| "le_effect (Event_del ev) (prep, pend) = (prep, pend(ev := None))"
| "le_effect (Timeout_set ev cb arg) (prep, pend) = (prep(ev \<mapsto> (- 1, 0, cb, arg)), pend)"
| "le_effect (Timeout_add ev timeout) (prep, pend) = (prep, pend(ev := prep ev))"

definition le_replay :: "le_call list \<Rightarrow> (ptr \<rightharpoonup> watch) \<times> (ptr \<rightharpoonup> watch)" where
  "le_replay log = fold le_effect log (Map.empty, Map.empty)"

definition pending :: "le_state \<Rightarrow> ptr \<rightharpoonup> watch" where
  "pending s = snd (le_replay (le_log s))"

lemma le_replay_append [simp]: "le_replay (log @ cs) = fold le_effect cs (le_replay log)"
  by (simp add: le_replay_def)

lemma pending_event:
  "pending (s\<lparr>le_log := le_log s @ [Event_set ev fd events cb arg, Event_add ev t]\<rparr>) =
    (pending s)(ev \<mapsto> (fd, events, cb, arg))"
  "pending (s\<lparr>le_log := le_log s @ [Timeout_set ev cb arg, Timeout_add ev t']\<rparr>) =
    (pending s)(ev \<mapsto> (- 1, 0, cb, arg))"
  "pending (s\<lparr>le_log := le_log s @ [Event_del ev]\<rparr>) = (pending s)(ev := None)"
proof -
  obtain prep pend where "le_replay (le_log s) = (prep, pend)" by (cases "le_replay (le_log s)")
  then show
    "pending (s\<lparr>le_log := le_log s @ [Event_set ev fd events cb arg, Event_add ev t]\<rparr>) =
      (pending s)(ev \<mapsto> (fd, events, cb, arg))"
    "pending (s\<lparr>le_log := le_log s @ [Timeout_set ev cb arg, Timeout_add ev t']\<rparr>) =
      (pending s)(ev \<mapsto> (- 1, 0, cb, arg))"
    "pending (s\<lparr>le_log := le_log s @ [Event_del ev]\<rparr>) = (pending s)(ev := None)"
    by (simp_all add: pending_def)
qed

lemma pending_frame [simp]:
  "pending (s\<lparr>le_heap := h\<rparr>) = pending s" "pending (s\<lparr>le_brk := b\<rparr>) = pending s"
  "pending (s\<lparr>le_errno := e\<rparr>) = pending s"
  by (simp_all add: pending_def)

text \<open>Nothing is pending on freed memory, and addresses handed out later are free.\<close>

definition le_inv :: "le_state \<Rightarrow> bool" where
  "le_inv s \<longleftrightarrow> le_brk s \<noteq> 0 \<and> (\<forall>p. p = NULL \<or> le_brk s \<le> p \<longrightarrow> le_heap s p = None) \<and>
     (\<forall>p. pending s p \<noteq> None \<longrightarrow> le_heap s p = Some Ev_block)"

lemma le_inv_fresh:
  assumes "le_inv s"
  shows "le_heap s (le_brk s) = None" and "pending s (le_brk s) = None"
proof -
  show heap: "le_heap s (le_brk s) = None" using assms by (simp add: le_inv_def)
  show "pending s (le_brk s) = None"
  proof (rule ccontr)
    assume "pending s (le_brk s) \<noteq> None"
    then have "le_heap s (le_brk s) = Some Ev_block" using assms unfolding le_inv_def by blast
    with heap show False by simp
  qed
qed

section \<open>The contract of an event handler\<close>

locale event_handler =
  fixes event_add :: "int \<Rightarrow> nat \<Rightarrow> timeval option \<Rightarrow> event_cb \<Rightarrow> ptr \<Rightarrow> ('s, ptr) M"
    and event_del :: "ptr \<Rightarrow> ('s, unit) M"
    and inv :: "'s \<Rightarrow> bool"
    and watched :: "'s \<Rightarrow> ptr \<rightharpoonup> watch"
    and no_oom :: bool
  assumes add_law: "inv s \<Longrightarrow> \<exists>p s'. event_add fd events timeout cb arg s = Inr (p, s') \<and> inv s' \<and>
      (if p = NULL then \<not> no_oom \<and> watched s' = watched s
       else watched s p = None \<and> watched s' = (watched s)(p \<mapsto> (fd, events, User_cb cb, arg)))"
    and del_law: "inv s \<Longrightarrow> watched s p \<noteq> None \<Longrightarrow>
      \<exists>s'. event_del p s = Inr ((), s') \<and> inv s' \<and> watched s' = (watched s)(p := None)"
begin

text \<open>A token from \<open>event_add\<close> serves to take exactly this event down again.\<close>

lemma add_del:
  assumes "inv s" and no_oom
  shows "\<exists>p s1 s2. event_add fd events timeout cb arg s = Inr (p, s1) \<and> p \<noteq> NULL \<and>
    watched s1 = (watched s)(p \<mapsto> (fd, events, User_cb cb, arg)) \<and>
    event_del p s1 = Inr ((), s2) \<and> inv s2 \<and> watched s2 = watched s"
proof -
  obtain p s1 where 1: "event_add fd events timeout cb arg s = Inr (p, s1)" "inv s1" "p \<noteq> NULL" "watched s p = None"
    "watched s1 = (watched s)(p \<mapsto> (fd, events, User_cb cb, arg))"
    using add_law [OF assms(1), of fd events timeout cb arg] assms(2) by (metis (full_types))
  obtain s2 where 2: "event_del p s1 = Inr ((), s2)" "inv s2" "watched s2 = (watched s1)(p := None)"
    using del_law [OF 1(2), of p] 1(5) by auto
  have "watched s2 = watched s" using 2(3) 1(4,5) by (simp add: fun_upd_idem)
  with 1 2 show ?thesis by blast
qed

text \<open>Any number of events can be taken down in any order.\<close>

lemma del_all:
  assumes "inv s" and "distinct ps" and "\<forall>p\<in>set ps. watched s p \<noteq> None"
  shows "\<exists>s'. mapM event_del ps s = Inr ((), s') \<and> inv s' \<and> watched s' = (watched s) |` (- set ps)"
  using assms
proof (induction ps arbitrary: s)
  case Nil
  then show ?case by (simp add: restrict_map_def)
next
  case (Cons p ps)
  then obtain s1 where 1: "event_del p s = Inr ((), s1)" "inv s1" "watched s1 = (watched s)(p := None)"
    using del_law [of s p] by auto
  then have "\<forall>q\<in>set ps. watched s1 q \<noteq> None" using Cons.prems(2,3) by auto
  then obtain s' where "mapM event_del ps s1 = Inr ((), s')" "inv s'" "watched s' = (watched s1) |` (- set ps)"
    using Cons.IH [OF 1(2)] Cons.prems(2) by auto
  moreover have "(watched s1) |` (- set ps) = (watched s) |` (- set (p # ps))"
    using 1(3) by (auto simp: restrict_map_def fun_eq_iff)
  ultimately show ?case using 1(1) by auto
qed

end

lemma libevent_add_law:
  assumes "le_inv s"
  shows "\<exists>p s'. libevent_event_add oom fd events timeout cb arg s = Inr (p, s') \<and> le_inv s' \<and>
    (if p = NULL then \<not> (\<forall>n. \<not> oom n) \<and> pending s' = pending s
     else pending s p = None \<and> pending s' = (pending s)(p \<mapsto> (fd, events, User_cb cb, arg)))"
proof -
  let ?p = "le_brk s" and ?s1 = "s\<lparr>le_brk := Suc (le_brk s)\<rparr>"
  have fresh: "le_heap s ?p = None" "pending s ?p = None" "?p \<noteq> NULL"
    using le_inv_fresh [OF assms] assms by (simp_all add: le_inv_def)
  show ?thesis
  proof (cases "oom ?p")
    case True
    then have "libevent_event_add oom fd events timeout cb arg s = Inr (NULL, ?s1\<lparr>le_errno := ENOMEM\<rparr>)"
      by (simp add: libevent_event_add_def mon)
    with True assms show ?thesis by (auto simp: le_inv_def)
  next
    case False
    let ?s2 = "?s1\<lparr>le_heap := (le_heap s)(?p \<mapsto> Ev_block)\<rparr>"
    let ?s3 = "?s2\<lparr>le_log := le_log ?s2 @ [Event_set ?p fd events (User_cb cb) arg, Event_add ?p timeout]\<rparr>"
    have "libevent_event_add oom fd events timeout cb arg s = Inr (?p, ?s3)"
      using False fresh(3) by (simp add: libevent_event_add_def mon)
    moreover have pend: "pending ?s3 = (pending s)(?p \<mapsto> (fd, events, User_cb cb, arg))"
      unfolding pending_event by simp
    moreover have "le_inv ?s3" using assms fresh(3) unfolding le_inv_def pend by auto
    ultimately show ?thesis using fresh by auto
  qed
qed

lemma libevent_del_law:
  assumes "le_inv s" and "pending s p \<noteq> None"
  shows "\<exists>s'. libevent_event_del p s = Inr ((), s') \<and> le_inv s' \<and> pending s' = (pending s)(p := None) \<and>
    le_heap s' = (le_heap s)(p := None)"
proof -
  have p: "le_heap s p = Some Ev_block" using assms by (auto simp: le_inv_def)
  then have "p \<noteq> NULL" using assms(1) by (auto simp: le_inv_def)
  let ?s1 = "s\<lparr>le_log := le_log s @ [Event_del p]\<rparr>"
  let ?s2 = "?s1\<lparr>le_heap := (le_heap s)(p := None)\<rparr>"
  have "libevent_event_del p s = Inr ((), ?s2)"
    using p \<open>p \<noteq> NULL\<close> by (simp add: libevent_event_del_def mon)
  moreover have pend: "pending ?s2 = (pending s)(p := None)" using pending_event(3) [of s p] by simp
  moreover have "le_inv ?s2" using assms(1) unfolding le_inv_def pend by auto
  ultimately show ?thesis by auto
qed

interpretation le: event_handler "libevent_event_add oom" libevent_event_del le_inv pending "\<forall>n. \<not> oom n"
  for oom
  by unfold_locales (rule libevent_add_law, assumption, use libevent_del_law in blast)

section \<open>Timeouts\<close>

text \<open>The state after a timeout was added: its structures are the blocks allocated last.\<close>

definition timeout_state :: "timeval \<Rightarrow> bool \<Rightarrow> event_cb \<Rightarrow> ptr \<Rightarrow> le_state \<Rightarrow> le_state" where
  "timeout_state t per cb arg s = (let ev = le_brk s; rt = Suc ev; tv = Suc rt in
     if per then s\<lparr>le_brk := Suc tv, le_heap := (le_heap s)(ev \<mapsto> Ev_block, tv \<mapsto> Tv_block t,
         rt \<mapsto> Rt_block \<lparr>rt_ev = ev, rt_timeout = tv, rt_cb = Some cb, rt_arg = arg\<rparr>),
       le_log := le_log s @ [Timeout_set ev Rtimeout_cb rt, Timeout_add ev t]\<rparr>
     else s\<lparr>le_brk := Suc rt, le_heap := (le_heap s)(ev \<mapsto> Ev_block,
         rt \<mapsto> Rt_block \<lparr>rt_ev = ev, rt_timeout = NULL, rt_cb = None, rt_arg = NULL\<rparr>),
       le_log := le_log s @ [Timeout_set ev (User_cb cb) arg, Timeout_add ev t]\<rparr>)"

lemma timeout_add_eval:
  assumes "le_inv s" and "\<forall>n. \<not> oom n"
  shows "libevent_timeout_add oom t events cb arg s = Inr (Suc (le_brk s), timeout_state t (persistent events) cb arg s)"
  using assms
  by (auto simp: libevent_timeout_add_def mon timeout_state_def Let_def le_inv_def fun_upd_twist)

text \<open>An event of the libevent handler. Adding one gives a token under which libevent watches
  exactly what was asked for, next to what it watched before; deleting the token takes exactly
  that down again, and nothing is ever pending on freed memory.\<close>

theorem libevent_watch_roundtrip:
  assumes "le_inv s" and "\<forall>n. \<not> oom n"
  shows "\<exists>p s1 s2. libevent_event_add oom fd events timeout cb arg s = Inr (p, s1) \<and> p \<noteq> NULL \<and>
    pending s1 = (pending s)(p \<mapsto> (fd, events, User_cb cb, arg)) \<and>
    libevent_event_del p s1 = Inr ((), s2) \<and> le_inv s2 \<and> pending s2 = pending s"
  using assms by (rule le.add_del)

definition le_start :: le_state where
  "le_start = \<lparr>le_errno = 0, le_brk = 1, le_heap = (\<lambda>_. None), le_log = []\<rparr>"

lemma le_inv_start: "le_inv le_start"
  by (simp add: le_inv_def le_start_def pending_def le_replay_def)

theorem libevent_watch_roundtrip_witness:
  "\<exists>p s1 s2. libevent_event_add (\<lambda>_. False) 5 2 None Vde2_accept 50 le_start = Inr (p, s1) \<and>
    pending s1 p = Some (5, 2, User_cb Vde2_accept, 50) \<and> libevent_event_del p s1 = Inr ((), s2) \<and> pending s2 p = None"
  using libevent_watch_roundtrip [OF le_inv_start, of "\<lambda>_. False" 5 2 None Vde2_accept 50]
  by (auto simp: pending_def le_replay_def le_start_def)

text \<open>C39: a timeout. A recurrent one is armed with the handler's own callback, a single one with the
  application's. Deleting it disarms it and gives back all memory: its two or three blocks.\<close>

theorem libevent_timeout_roundtrip:
  assumes "le_inv s" and "\<forall>n. \<not> oom n"
  shows "\<exists>p ev s1 s2. libevent_timeout_add oom t events cb arg s = Inr (p, s1) \<and> p \<noteq> NULL \<and>
    pending s1 = (pending s)(ev \<mapsto> (if persistent events then (- 1, 0, Rtimeout_cb, p) else (- 1, 0, User_cb cb, arg))) \<and>
    libevent_timeout_del p s1 = Inr ((), s2) \<and> le_heap s2 = le_heap s \<and> pending s2 = pending s"
proof -
  let ?ev = "le_brk s" and ?s1 = "timeout_state t (persistent events) cb arg s"
  have fresh: "pending s ?ev = None" "?ev \<noteq> NULL" "le_heap s ?ev = None" "le_heap s (Suc ?ev) = None"
    "le_heap s (Suc (Suc ?ev)) = None"
    using le_inv_fresh [OF assms(1)] assms(1) by (simp_all add: le_inv_def)
  let ?h = "if persistent events then (le_heap ?s1)(?ev := None, Suc (Suc ?ev) := None, Suc ?ev := None)
    else (le_heap ?s1)(?ev := None, Suc ?ev := None)"
  let ?s2 = "?s1\<lparr>le_log := le_log ?s1 @ [Event_del ?ev], le_heap := ?h\<rparr>"
  have pend: "pending ?s1 = (pending s)(?ev \<mapsto>
      (if persistent events then (- 1, 0, Rtimeout_cb, Suc ?ev) else (- 1, 0, User_cb cb, arg)))"
    by (cases "le_replay (le_log s)") (simp add: timeout_state_def Let_def pending_def)
  have "libevent_timeout_del (Suc ?ev) ?s1 = Inr ((), ?s2)"
    using fresh(2) by (simp add: libevent_timeout_del_def mon timeout_state_def Let_def)
  moreover have "le_heap ?s2 = le_heap s" using fresh(3-5) by (simp add: timeout_state_def Let_def fun_eq_iff)
  moreover have "pending ?s2 = pending s"
    using pending_event(3) [of ?s1 ?ev] pend fresh(1) by (simp add: fun_upd_idem)
  ultimately show ?thesis using timeout_add_eval [OF assms] pend by blast
qed

theorem libevent_timeout_roundtrip_witness:
  "\<exists>p s1 s2. libevent_timeout_add (\<lambda>_. False) \<lparr>tv_sec = 1, tv_usec = 0\<rparr> 16 (Ext_event_cb 0) 7 le_start = Inr (p, s1) \<and>
    libevent_timeout_del p s1 = Inr ((), s2) \<and> le_heap s2 = (\<lambda>_. None)"
  using libevent_timeout_roundtrip [OF le_inv_start, of "\<lambda>_. False" "\<lparr>tv_sec = 1, tv_usec = 0\<rparr>" 16 "Ext_event_cb 0" 7]
  by (auto simp: le_start_def)



end
