(* ===== verification/Logging.thy ===== *)
theory Logging
  imports Prelude
begin

text \<open>
  The log, \<^verbatim>\<open>src/logging.c\<close>, and the macros of \<^verbatim>\<open>src/include/vde3.h\<close> that write to it. The library
  only writes to the log, so the log is a state of its own: the handler the application has set
  (a function pointer, here a number) and what has been logged, oldest first. \<open>vfprintf\<close> is the
  parameter \<open>expand\<close>; the arguments of a message are left open.
\<close>

datatype 'a log_out =
    Handled nat int string "'a list"
  | Stderr string

record 'a log_state =
  global_log_handler :: "nat option"
  logged :: "'a log_out list"

datatype log_level = VDE3_LOG_ERROR | VDE3_LOG_WARNING | VDE3_LOG_NOTICE | VDE3_LOG_INFO | VDE3_LOG_DEBUG

text \<open>The priorities of \<^verbatim>\<open>syslog.h\<close>.\<close>

primrec log_priority :: "log_level \<Rightarrow> int" where
  "log_priority VDE3_LOG_ERROR = 3"
| "log_priority VDE3_LOG_WARNING = 4"
| "log_priority VDE3_LOG_NOTICE = 5"
| "log_priority VDE3_LOG_INFO = 6"
| "log_priority VDE3_LOG_DEBUG = 7"

definition vde_log_set_handler :: "nat option \<Rightarrow> 'a log_state \<Rightarrow> 'a log_state" where
  "vde_log_set_handler handler s = s\<lparr>global_log_handler := handler\<rparr>"

definition vvde_log :: "(string \<Rightarrow> 'a list \<Rightarrow> string) \<Rightarrow> int \<Rightarrow> string \<Rightarrow> 'a list \<Rightarrow> 'a log_state \<Rightarrow> 'a log_state" where
  "vvde_log expand priority format args s = (case global_log_handler s of
       Some f \<Rightarrow> s\<lparr>logged := logged s @ [Handled f priority format args]\<rparr>
     | None \<Rightarrow> s\<lparr>logged := logged s @ [Stderr (expand format args), Stderr [CHR 0x0A]]\<rparr>)"

definition vde_log :: "(string \<Rightarrow> 'a list \<Rightarrow> string) \<Rightarrow> int \<Rightarrow> string \<Rightarrow> 'a list \<Rightarrow> 'a log_state \<Rightarrow> 'a log_state" where
  "vde_log expand priority format args = vvde_log expand priority format args"

text \<open>The macros; \<open>vde_debug\<close> expands to nothing in the release build.\<close>

definition log_macro :: "bool \<Rightarrow> (string \<Rightarrow> 'a list \<Rightarrow> string) \<Rightarrow> log_level \<Rightarrow> string \<Rightarrow> 'a list \<Rightarrow> 'a log_state \<Rightarrow> 'a log_state" where
  "log_macro vde3_debug expand level format args s =
     (if level = VDE3_LOG_DEBUG \<and> \<not> vde3_debug then s else vde_log expand (log_priority level) format args s)"

section \<open>Histories\<close>

text \<open>
  A program's use of the log. What is on the standard error afterwards are the messages logged
  while no handler was set, each on a line of its own; a handler has received, in order and
  unexpanded, the messages logged while it was the one set last.
\<close>

datatype 'a log_op = Set_Handler "nat option" | Log log_level string "'a list"

fun run_op :: "bool \<Rightarrow> (string \<Rightarrow> 'a list \<Rightarrow> string) \<Rightarrow> 'a log_op \<Rightarrow> 'a log_state \<Rightarrow> 'a log_state" where
  "run_op dbg expand (Set_Handler h) s = vde_log_set_handler h s"
| "run_op dbg expand (Log level format args) s = log_macro dbg expand level format args s"

text \<open>The messages of a history with the handler in force when each was logged.\<close>

fun messages :: "bool \<Rightarrow> nat option \<Rightarrow> 'a log_op list \<Rightarrow> (nat option \<times> log_level \<times> string \<times> 'a list) list" where
  "messages dbg h [] = []"
| "messages dbg h (Set_Handler h' # ops) = messages dbg h' ops"
| "messages dbg h (Log level format args # ops) =
     (if level = VDE3_LOG_DEBUG \<and> \<not> dbg then [] else [(h, level, format, args)]) @ messages dbg h ops"

definition stderr_text :: "'a log_out list \<Rightarrow> string" where
  "stderr_text out = concat (map (\<lambda>e. case e of Stderr s \<Rightarrow> s | _ \<Rightarrow> []) out)"

definition received :: "nat \<Rightarrow> 'a log_out list \<Rightarrow> (int \<times> string \<times> 'a list) list" where
  "received f out = concat (map (\<lambda>e. case e of Handled g p fmt args \<Rightarrow> if g = f then [(p, fmt, args)] else [] | _ \<Rightarrow> []) out)"

lemma stderr_text_append [simp]: "stderr_text (xs @ ys) = stderr_text xs @ stderr_text ys"
  by (simp add: stderr_text_def)

lemma received_append [simp]: "received f (xs @ ys) = received f xs @ received f ys"
  by (simp add: received_def)

lemmas log_defs = vde_log_set_handler_def log_macro_def vde_log_def vvde_log_def stderr_text_def received_def

lemma stderr_history:
  "stderr_text (logged (fold (run_op dbg expand) ops s)) = stderr_text (logged s) @
     concat [expand fmt args @ [CHR 0x0A]. (h, level, fmt, args) \<leftarrow> messages dbg (global_log_handler s) ops, h = None]"
proof (induction ops arbitrary: s)
  case (Cons op ops)
  then show ?case by (cases op) (auto simp: log_defs split: option.splits)
qed simp

lemma handler_history:
  "received f (logged (fold (run_op dbg expand) ops s)) = received f (logged s) @
     [(log_priority level, fmt, args). (h, level, fmt, args) \<leftarrow> messages dbg (global_log_handler s) ops, h = Some f]"
proof (induction ops arbitrary: s)
  case (Cons op ops)
  then show ?case by (cases op) (auto simp: log_defs split: option.splits)
qed simp

end
