(* ===== verification/Dispatch.thy ===== *)
theory Dispatch
  imports Localconn Connmgr Hub Vde2 Ctrl
begin

text \<open>
  Tying the knot: \<open>dispatch X n\<close> is the environment in which the function pointers of the
  repository mean the functions of this model and everything else is as in \<open>X\<close>. Functions
  call each other through pointers, so the environment they run in is bounded by the depth
  \<open>n\<close> of nested calls through pointers; deeper calls are the fault \<open>Out_Of_Fuel\<close>. Within one
  function the loops that may run the callbacks of others get \<open>n\<close> as the bound on their rounds.

  Left to \<open>X\<close> are the functions of other modules and of the application, and the generated
  wrappers of the commands. \<open>run_event\<close> is what the application's event loop does when an event
  registered with \<open>vde_context_event_add\<close> is due.
\<close>

primrec dispatch :: "env \<Rightarrow> nat \<Rightarrow> env" where
  "dispatch X 0 = X\<lparr>
     call_be_write := (\<lambda>f conn pkt. case f of Ext_be_write i \<Rightarrow> call_be_write X f conn pkt | _ \<Rightarrow> mfail Out_Of_Fuel),
     call_be_close := (\<lambda>f conn. case f of Ext_be_close i \<Rightarrow> call_be_close X f conn | _ \<Rightarrow> mfail Out_Of_Fuel),
     call_read_cb := (\<lambda>f conn pkt arg. case f of Ext_read_cb i \<Rightarrow> call_read_cb X f conn pkt arg | _ \<Rightarrow> mfail Out_Of_Fuel),
     call_write_cb := (\<lambda>f conn pkt arg. case f of Ext_write_cb i \<Rightarrow> call_write_cb X f conn pkt arg | _ \<Rightarrow> mfail Out_Of_Fuel),
     call_error_cb := (\<lambda>f conn pkt e arg. case f of Ext_error_cb i \<Rightarrow> call_error_cb X f conn pkt e arg | _ \<Rightarrow> mfail Out_Of_Fuel),
     call_signal_cb := (\<lambda>f c s i arg. case f of Ext_signal_cb j \<Rightarrow> call_signal_cb X f c s i arg | _ \<Rightarrow> mfail Out_Of_Fuel),
     call_signal_destroy_cb := (\<lambda>f c s arg. case f of Ext_signal_destroy_cb j \<Rightarrow> call_signal_destroy_cb X f c s arg
       | _ \<Rightarrow> mfail Out_Of_Fuel),
     call_init := (\<lambda>f c p. case f of Ext_init i \<Rightarrow> call_init X f c p | _ \<Rightarrow> mfail Out_Of_Fuel),
     call_fini := (\<lambda>f c. case f of Ext_fini i \<Rightarrow> call_fini X f c | _ \<Rightarrow> mfail Out_Of_Fuel),
     call_cm_listen := (\<lambda>f c. case f of Ext_cm_listen i \<Rightarrow> call_cm_listen X f c | _ \<Rightarrow> mfail Out_Of_Fuel),
     call_cm_connect := (\<lambda>f c l r s e arg. case f of Ext_cm_connect i \<Rightarrow> call_cm_connect X f c l r s e arg
       | _ \<Rightarrow> mfail Out_Of_Fuel),
     call_eng_new_conn := (\<lambda>f c conn r. case f of Ext_eng_new_conn i \<Rightarrow> call_eng_new_conn X f c conn r
       | _ \<Rightarrow> mfail Out_Of_Fuel),
     call_tr_listen := (\<lambda>f c. case f of Ext_tr_listen i \<Rightarrow> call_tr_listen X f c | _ \<Rightarrow> mfail Out_Of_Fuel),
     call_tr_connect := (\<lambda>f c conn. case f of Ext_tr_connect i \<Rightarrow> call_tr_connect X f c conn | _ \<Rightarrow> mfail Out_Of_Fuel),
     call_cm_connect_cb := (\<lambda>f conn arg. case f of Ext_cm_connect_cb i \<Rightarrow> call_cm_connect_cb X f conn arg
       | _ \<Rightarrow> mfail Out_Of_Fuel),
     call_cm_accept_cb := (\<lambda>f conn arg. case f of Ext_cm_accept_cb i \<Rightarrow> call_cm_accept_cb X f conn arg
       | _ \<Rightarrow> mfail Out_Of_Fuel),
     call_cm_error_cb := (\<lambda>f conn e arg. case f of Ext_cm_error_cb i \<Rightarrow> call_cm_error_cb X f conn e arg
       | _ \<Rightarrow> mfail Out_Of_Fuel)\<rparr>"
| "dispatch X (Suc n) = (let E = dispatch X n in X\<lparr>
     call_be_write := (\<lambda>f conn pkt. case f of
         Vde_lc_write \<Rightarrow> vde_lc_write E conn pkt
       | Vde2_conn_write \<Rightarrow> vde2_conn_write E conn pkt
       | Ext_be_write i \<Rightarrow> call_be_write X f conn pkt),
     call_be_close := (\<lambda>f conn. case f of
         Vde_lc_close \<Rightarrow> vde_lc_close E conn
       | Vde2_conn_close \<Rightarrow> vde2_conn_close E conn
       | Ext_be_close i \<Rightarrow> call_be_close X f conn),
     call_read_cb := (\<lambda>f conn pkt arg. case f of
         Hub_engine_readcb \<Rightarrow> hub_engine_readcb E conn pkt arg
       | Ctrl_engine_readcb \<Rightarrow> ctrl_engine_readcb n E conn pkt arg
       | Ext_read_cb i \<Rightarrow> call_read_cb X f conn pkt arg),
     call_write_cb := (\<lambda>f conn pkt arg. case f of
         Ctrl_engine_writecb \<Rightarrow> ctrl_engine_writecb n E conn pkt arg
       | Ext_write_cb i \<Rightarrow> call_write_cb X f conn pkt arg),
     call_error_cb := (\<lambda>f conn pkt e arg. case f of
         Hub_engine_errorcb \<Rightarrow> hub_engine_errorcb E conn pkt e arg
       | Ctrl_engine_errorcb \<Rightarrow> ctrl_engine_errorcb E conn pkt e arg
       | Ext_error_cb i \<Rightarrow> call_error_cb X f conn pkt e arg),
     call_signal_cb := (\<lambda>f c s i arg. case f of
         Signal_callback \<Rightarrow> signal_callback n E c s i arg
       | Ext_signal_cb j \<Rightarrow> call_signal_cb X f c s i arg),
     call_signal_destroy_cb := (\<lambda>f c s arg. case f of
         Signal_destroy_callback \<Rightarrow> signal_destroy_callback E c s arg
       | Ext_signal_destroy_cb j \<Rightarrow> call_signal_destroy_cb X f c s arg),
     call_init := (\<lambda>f c p. case f of
         Conn_manager_init \<Rightarrow> conn_manager_init E c p
       | Engine_hub_init \<Rightarrow> engine_hub_init E c p
       | Engine_ctrl_init \<Rightarrow> engine_ctrl_init E c p
       | Transport_vde2_init \<Rightarrow> transport_vde2_init E c p
       | Ext_init i \<Rightarrow> call_init X f c p),
     call_fini := (\<lambda>f c. case f of
         Conn_manager_fini \<Rightarrow> conn_manager_fini E c
       | Engine_hub_fini \<Rightarrow> engine_hub_fini E c
       | Engine_ctrl_fini \<Rightarrow> engine_ctrl_fini E c
       | Transport_vde2_fini \<Rightarrow> transport_vde2_fini E c
       | Ext_fini i \<Rightarrow> call_fini X f c),
     call_cm_listen := (\<lambda>f c. case f of
         Conn_manager_listen \<Rightarrow> conn_manager_listen E c
       | Ext_cm_listen i \<Rightarrow> call_cm_listen X f c),
     call_cm_connect := (\<lambda>f c l r s e arg. case f of
         Conn_manager_connect \<Rightarrow> conn_manager_connect E c l r s e arg
       | Ext_cm_connect i \<Rightarrow> call_cm_connect X f c l r s e arg),
     call_eng_new_conn := (\<lambda>f c conn r. case f of
         Hub_engine_newconn \<Rightarrow> hub_engine_newconn E c conn r
       | Ctrl_engine_newconn \<Rightarrow> ctrl_engine_newconn E c conn r
       | Ext_eng_new_conn i \<Rightarrow> call_eng_new_conn X f c conn r),
     call_tr_listen := (\<lambda>f c. case f of
         Vde2_listen \<Rightarrow> vde2_listen E c
       | Ext_tr_listen i \<Rightarrow> call_tr_listen X f c),
     call_tr_connect := (\<lambda>f c conn. case f of
         Vde2_connect \<Rightarrow> vde2_connect E c conn
       | Ext_tr_connect i \<Rightarrow> call_tr_connect X f c conn),
     call_cm_connect_cb := (\<lambda>f conn arg. case f of
         Conn_manager_connect_cb \<Rightarrow> conn_manager_connect_cb E conn arg
       | Ext_cm_connect_cb i \<Rightarrow> call_cm_connect_cb X f conn arg),
     call_cm_accept_cb := (\<lambda>f conn arg. case f of
         Conn_manager_accept_cb \<Rightarrow> conn_manager_accept_cb E conn arg
       | Ext_cm_accept_cb i \<Rightarrow> call_cm_accept_cb X f conn arg),
     call_cm_error_cb := (\<lambda>f conn e arg. case f of
         Conn_manager_error_cb \<Rightarrow> conn_manager_error_cb E conn e arg
       | Ext_cm_error_cb i \<Rightarrow> call_cm_error_cb X f conn e arg)\<rparr>)"

text \<open>\<open>ext i\<close> runs an event callback of the application itself.\<close>

definition run_event :: "nat \<Rightarrow> env \<Rightarrow> (nat \<Rightarrow> int \<Rightarrow> ptr \<Rightarrow> unit prog) \<Rightarrow> event_cb \<Rightarrow> int \<Rightarrow> ptr \<Rightarrow> unit prog" where
  "run_event n E ext cb fd arg = (case cb of
       Vde2_accept \<Rightarrow> vde2_accept E fd arg
     | Vde2_srv_get_request \<Rightarrow> vde2_srv_get_request E arg
     | Vde2_srv_send_request \<Rightarrow> vde2_srv_send_request E arg
     | Vde2_conn_read_ctl_event \<Rightarrow> vde2_conn_read_ctl_event E arg
     | Vde2_conn_read_data_event \<Rightarrow> vde2_conn_read_data_event E arg
     | Vde2_conn_write_data_event \<Rightarrow> vde2_conn_write_data_event n E arg
     | Ext_event_cb i \<Rightarrow> ext i fd arg)"

lemma dispatch_outside [simp]:
  "vde3_debug (dispatch X n) = vde3_debug X" "malloc_null (dispatch X n) = malloc_null X"
  "quark_id (dispatch X n) = quark_id X" "sys (dispatch X n) = sys X"
  "sobj_parse (dispatch X n) = sobj_parse X" "sobj_print (dispatch X n) = sobj_print X"
  "call_event_add (dispatch X n) = call_event_add X" "call_event_del (dispatch X n) = call_event_del X"
  "call_timeout_add (dispatch X n) = call_timeout_add X" "call_timeout_del (dispatch X n) = call_timeout_del X"
  "call_app_cb (dispatch X n) = call_app_cb X" "call_command (dispatch X n) = call_command X"
  "default_modules_path (dispatch X n) = default_modules_path X" "fts_open (dispatch X n) = fts_open X"
  "fts_close (dispatch X n) = fts_close X" "dl_open (dispatch X n) = dl_open X" "dl_sym (dispatch X n) = dl_sym X"
  "stack_garbage (dispatch X n) = stack_garbage X"
  "engine_hub_commands (dispatch X n) = engine_hub_commands X" "engine_ctrl_commands (dispatch X n) = engine_ctrl_commands X"
  by (cases n; simp add: Let_def)+

lemma dispatch_inside [simp]:
  "call_be_write (dispatch X (Suc n)) Vde_lc_write = vde_lc_write (dispatch X n)"
  "call_be_write (dispatch X (Suc n)) Vde2_conn_write = vde2_conn_write (dispatch X n)"
  "call_be_close (dispatch X (Suc n)) Vde_lc_close = vde_lc_close (dispatch X n)"
  "call_be_close (dispatch X (Suc n)) Vde2_conn_close = vde2_conn_close (dispatch X n)"
  "call_read_cb (dispatch X (Suc n)) Hub_engine_readcb = hub_engine_readcb (dispatch X n)"
  "call_read_cb (dispatch X (Suc n)) Ctrl_engine_readcb = ctrl_engine_readcb n (dispatch X n)"
  "call_write_cb (dispatch X (Suc n)) Ctrl_engine_writecb = ctrl_engine_writecb n (dispatch X n)"
  "call_error_cb (dispatch X (Suc n)) Hub_engine_errorcb = hub_engine_errorcb (dispatch X n)"
  "call_error_cb (dispatch X (Suc n)) Ctrl_engine_errorcb = ctrl_engine_errorcb (dispatch X n)"
  "call_init (dispatch X (Suc n)) Conn_manager_init = conn_manager_init (dispatch X n)"
  "call_init (dispatch X (Suc n)) Engine_hub_init = engine_hub_init (dispatch X n)"
  "call_init (dispatch X (Suc n)) Engine_ctrl_init = engine_ctrl_init (dispatch X n)"
  "call_init (dispatch X (Suc n)) Transport_vde2_init = transport_vde2_init (dispatch X n)"
  "call_cm_listen (dispatch X (Suc n)) Conn_manager_listen = conn_manager_listen (dispatch X n)"
  "call_tr_listen (dispatch X (Suc n)) Vde2_listen = vde2_listen (dispatch X n)"
  "call_eng_new_conn (dispatch X (Suc n)) Hub_engine_newconn = hub_engine_newconn (dispatch X n)"
  "call_eng_new_conn (dispatch X (Suc n)) Ctrl_engine_newconn = ctrl_engine_newconn (dispatch X n)"
  "call_cm_accept_cb (dispatch X (Suc n)) Conn_manager_accept_cb = conn_manager_accept_cb (dispatch X n)"
  by (simp_all add: Let_def)

declare dispatch.simps [simp del]

end
