(* ===== verification/HubSystem.thy ===== *)
theory HubSystem
  imports Dispatch Vde2Flow Vde2Socket
begin

text \<open>
  The hub and the vde2 transport together: the switch a user runs. Its state is a hub whose
  ports are established vde2 connections; it moves when a connection joins, when one of the
  events that the transport registered for a port is due, and when the rest of the program
  allocates. The invariant \<open>hub_sys\<close> holds in every reachable state, no event handler faults
  there, and a frame that arrives on a port is queued once for every other port with room.

  The environment is that of \<open>Dispatch\<close>: two levels of calls through pointers are enough.
  Nobody listens to the hub's signals here.
\<close>

section \<open>The environment\<close>

definition hub_env :: "env \<Rightarrow> bool" where
  "hub_env E \<longleftrightarrow> v2_backend E \<and> events_ok E \<and>
     (\<exists>X. call_be_close E Vde2_conn_close = vde2_conn_close X \<and> events_ok X) \<and>
     (\<exists>X. call_read_cb E Hub_engine_readcb = hub_engine_readcb X \<and> v2_backend X) \<and>
     (\<exists>X. call_error_cb E Hub_engine_errorcb = hub_engine_errorcb X)"

lemma events_ok_dispatch [simp]: "events_ok (dispatch X n) = events_ok X"
  by (simp add: events_ok_def)

lemma v2_backend_dispatch: "events_ok X \<Longrightarrow> (\<And>n. \<not> malloc_null X n) \<Longrightarrow> v2_backend (dispatch X (Suc n))"
  unfolding v2_backend_def by (rule exI [of _ "dispatch X n"]) simp

lemma hub_env_dispatch:
  assumes "events_ok X" and "\<And>n. \<not> malloc_null X n"
  shows "hub_env (dispatch X (n + 2))"
proof -
  have b: "v2_backend (dispatch X (Suc m))" for m using v2_backend_dispatch assms by blast
  show ?thesis unfolding hub_env_def
    using assms(1) b [of "Suc n"] b [of n] by auto
qed

text \<open>What \<open>recvfrom\<close> gives when its event is due: a datagram cut to the size asked for.\<close>

definition recv_ok :: "env \<Rightarrow> bool" where
  "recv_ok E \<longleftrightarrow> (\<forall>tr fd n. let r = sys E tr (Sys_recvfrom fd n) in
     retval r = int (length (retbytes r)) \<and> length (retbytes r) \<le> n)"

section \<open>The invariant\<close>

definition no_listeners :: "world \<Rightarrow> ptr \<Rightarrow> bool" where
  "no_listeners w component \<longleftrightarrow> component \<noteq> NULL \<and> (\<exists>k. w_comp w component = Some k \<and>
     (\<forall>p\<in>snd ` set (signals k). \<exists>s. w_signal w p = Some s \<and> callbacks s = []))"

lemma raise_quiet:
  assumes "no_listeners w component"
  shows "vde_component_signal_raise E component (Some name) info w = Inr ((), w)"
proof -
  obtain k where k: "component \<noteq> NULL" "w_comp w component = Some k"
    "\<forall>p\<in>snd ` set (signals k). \<exists>s. w_signal w p = Some s \<and> callbacks s = []"
    using assms by (auto simp: no_listeners_def)
  let ?s = "hget (signals k) (quark_of E w (Some name))"
  have "\<exists>s. w_signal w ?s = Some s \<and> callbacks s = []" if "?s \<noteq> NULL"
    using that k(3) by (force simp: hget_def split: option.splits dest: map_of_SomeD)
  with k(1,2) show ?thesis
    by (auto simp: vde_component_signal_raise_def vde_component_signal_get_def mon vde_signal_raise_def
        get_callbacks_def)
qed

text \<open>A port: an established vde2 connection with the hub's callbacks.\<close>

definition hub_calls :: "ptr \<Rightarrow> vde_connection \<Rightarrow> bool" where
  "hub_calls hub c \<longleftrightarrow> read_cb c = Some Hub_engine_readcb \<and> write_cb c = None \<and>
     error_cb c = Some Hub_engine_errorcb \<and> cb_priv c = hub \<and> pkt_head_sz c = 0 \<and> pkt_tail_sz c = 0"

definition v2_port :: "world \<Rightarrow> ptr \<Rightarrow> ptr \<Rightarrow> bool" where
  "v2_port w hub p \<longleftrightarrow> (\<exists>c v. v2_at w p c v \<and> v2_queue_ok v \<and> hub_calls hub c)"

definition hub_sys :: "ptr \<Rightarrow> ptr \<Rightarrow> world \<Rightarrow> bool" where
  "hub_sys component hub w \<longleftrightarrow> no_listeners w component \<and> comp_priv (the (w_comp w component)) = hub \<and>
     (\<exists>h. w_hub w hub = Some h \<and> hub_component h = component \<and> distinct (ports h) \<and>
        (\<forall>p\<in>set (ports h). v2_port w hub p))"

text \<open>What stays fixed under everything a port's events do.\<close>

definition same_setup :: "world \<Rightarrow> world \<Rightarrow> bool" where
  "same_setup w w' \<longleftrightarrow> w_comp w' = w_comp w \<and> w_signal w' = w_signal w \<and> w_ctx w' = w_ctx w \<and>
     w_tr w' = w_tr w \<and> w_cm w' = w_cm w \<and> w_pc w' = w_pc w \<and> brk w \<le> brk w'"

lemma same_setup_facts:
  assumes "same_setup w w'"
  shows "no_listeners w' = no_listeners w" and "ctx_events w' = ctx_events w" and "w_comp w' = w_comp w"
  using assms by (auto simp: same_setup_def no_listeners_def ctx_events_def fun_eq_iff)

lemma same_setup_trans: "same_setup w w1 \<Longrightarrow> same_setup w1 w2 \<Longrightarrow> same_setup w w2"
  by (simp add: same_setup_def)

lemma v2_at_other:
  assumes "v2_at w p c v" and "v2_at w q k x" and "q \<noteq> p" and "same_setup w w'"
    and "w_conn w' q = w_conn w q" and "\<And>d. d \<noteq> be_priv c \<Longrightarrow> w_v2c w' d = w_v2c w d"
  shows "v2_at w' q k x"
proof -
  have "be_priv k \<noteq> be_priv c" using v2_at_unique [OF assms(1,2)] assms(3) by metis
  with assms(2,5,6) same_setup_facts(2) [OF assms(4)] show ?thesis by (simp add: v2_at_def)
qed

text \<open>A port's private record changes, or the port goes.\<close>

lemma hub_sys_put:
  assumes "hub_sys component hub w" and "v2_at w p c v" and "same_setup w w'"
    and "w_hub w' = w_hub w" and "w_conn w' = w_conn w" and "w_v2c w' = (w_v2c w)(be_priv c \<mapsto> v')"
    and "v2_conn v' = v2_conn v" and "v2_queue_ok v'"
  shows "hub_sys component hub w'"
proof -
  have at': "v2_at w' p c v'"
    using assms(2,5-7) same_setup_facts(2) [OF assms(3)] by (simp add: v2_at_def)
  have "v2_port w' hub q" if q: "v2_port w hub q" for q
  proof (cases "q = p")
    case True
    with q assms(2) at' assms(8) show ?thesis unfolding v2_port_def by (auto simp: v2_at_def)
  next
    case False
    obtain k x where k: "v2_at w q k x" "v2_queue_ok x" "hub_calls hub k" using q by (auto simp: v2_port_def)
    have "v2_at w' q k x" by (rule v2_at_other [OF assms(2) k(1) False assms(3)]) (simp_all add: assms(5,6))
    with k(2,3) show ?thesis by (auto simp: v2_port_def)
  qed
  with assms(1,4) same_setup_facts(1,3) [OF assms(3)] show ?thesis unfolding hub_sys_def by auto
qed

lemma hub_sys_drop:
  assumes "hub_sys component hub w" and "w_hub w hub = Some h" and "v2_at w p c v" and "same_setup w w'"
    and "w_hub w' hub = Some (h\<lparr>ports := remove1 p (ports h)\<rparr>)"
    and "\<And>q. q \<noteq> p \<Longrightarrow> w_conn w' q = w_conn w q" and "\<And>d. d \<noteq> be_priv c \<Longrightarrow> w_v2c w' d = w_v2c w d"
  shows "hub_sys component hub w'"
proof -
  have "v2_port w' hub q" if "v2_port w hub q" "q \<noteq> p" for q
    using that v2_at_other [OF assms(3) _ that(2) assms(4,6) assms(7)] unfolding v2_port_def by blast
  with assms(1,2,5) same_setup_facts(1,3) [OF assms(4)] show ?thesis unfolding hub_sys_def by simp
qed

text \<open>
  What an event of a port leaves alone: it allocates no connections, adds no ports, and does
  not touch the connections outside a set.
\<close>

definition spares :: "ptr \<Rightarrow> ptr set \<Rightarrow> world \<Rightarrow> world \<Rightarrow> bool" where
  "spares hub S w w' \<longleftrightarrow> same_setup w w' \<and> dom (w_conn w') \<subseteq> dom (w_conn w) \<and> dom (w_v2c w') \<subseteq> dom (w_v2c w) \<and>
     (\<forall>h. w_hub w hub = Some h \<longrightarrow> (\<exists>h'. w_hub w' hub = Some h' \<and> set (ports h') \<subseteq> set (ports h))) \<and>
     (\<forall>q k x. q \<notin> S \<longrightarrow> v2_at w q k x \<longrightarrow> v2_queue_ok x \<longrightarrow> v2_at w' q k x)"

lemma spares_mono: "spares hub S w w' \<Longrightarrow> S \<subseteq> T \<Longrightarrow> spares hub T w w'"
  unfolding spares_def by blast

lemma spares_one:
  assumes "v2_at w p c v" and "same_setup w w'" and "w_hub w hub = Some h"
    and "w_hub w' hub = Some h'" and "set (ports h') \<subseteq> set (ports h)"
    and "\<And>q. q \<noteq> p \<Longrightarrow> w_conn w' q = w_conn w q" and "\<And>d. d \<noteq> be_priv c \<Longrightarrow> w_v2c w' d = w_v2c w d"
  shows "spares hub {p} w w'"
proof -
  have "p \<in> dom (w_conn w)" "be_priv c \<in> dom (w_v2c w)" using assms(1) by (auto simp: v2_at_def)
  then have "dom (w_conn w') \<subseteq> dom (w_conn w)" "dom (w_v2c w') \<subseteq> dom (w_v2c w)"
    using assms(6,7) by (metis domIff subsetI)+
  moreover have "v2_at w' q k x" if "q \<noteq> p" "v2_at w q k x" for q k x
    by (rule v2_at_other [OF assms(1) that(2,1) assms(2)]) (use assms(6,7) that(1) in simp_all)
  ultimately show ?thesis using assms(2-5) by (simp add: spares_def)
qed

section \<open>Events of a port\<close>

lemma hub_errorcb_quiet:
  assumes "w_hub w hub = Some h" and "no_listeners w (hub_component h)"
  shows "hub_engine_errorcb E p pkt err hub w = (if err = CONN_WRITE_DELAY then Inr (0, w)
    else Inr (- 1, w\<lparr>w_hub := (w_hub w)(hub \<mapsto> h\<lparr>ports := remove1 p (ports h)\<rparr>), errno := EPIPE\<rparr>))"
proof -
  have "no_listeners (w\<lparr>w_hub := (w_hub w)(hub \<mapsto> h\<lparr>ports := remove1 p (ports h)\<rparr>)\<rparr>) (hub_component h)"
    using assms(2) by (simp add: no_listeners_def)
  then show ?thesis using hub_errorcb_eval [OF assms(1)] raise_quiet by simp
qed

lemma call_error_hub:
  assumes "hub_env E" and "v2_at w p c v" and "hub_calls hub c" and "w_hub w hub = Some h"
    and "no_listeners w (hub_component h)"
  shows "vde_connection_call_error E p pkt err w = (if err = CONN_WRITE_DELAY then Inr (0, w)
    else Inr (- 1, w\<lparr>w_hub := (w_hub w)(hub \<mapsto> h\<lparr>ports := remove1 p (ports h)\<rparr>), errno := EPIPE\<rparr>))"
proof -
  obtain X where "call_error_cb E Hub_engine_errorcb = hub_engine_errorcb X"
    using assms(1) by (auto simp: hub_env_def)
  with assms(2,3) hub_errorcb_quiet [OF assms(4,5)] show ?thesis
    by (simp add: v2_at_def hub_calls_def mon)
qed

text \<open>After the hub gave a port up, closing it completes its removal.\<close>

lemma close_port:
  assumes "hub_env E" and "hub_sys component hub w" and "w_hub w hub = Some h" and "v2_at w p c v"
    and "v2_at w1 p c v1" and "same_setup w w1" and "w_conn w1 = w_conn w"
    and "\<And>d. d \<noteq> be_priv c \<Longrightarrow> w_v2c w1 d = w_v2c w d"
    and "w_hub w1 = (w_hub w)(hub \<mapsto> h\<lparr>ports := remove1 p (ports h)\<rparr>)"
  shows "\<exists>w'. close_conn E p w1 = Inr ((), w') \<and> hub_sys component hub w' \<and>
    w_hub w' hub = Some (h\<lparr>ports := remove1 p (ports h)\<rparr>) \<and> spares hub {p} w w'"
proof -
  obtain X where X: "call_be_close E Vde2_conn_close = vde2_conn_close X" "events_ok X"
    using assms(1) by (auto simp: hub_env_def)
  obtain e where e: "close_conn E p w1 = Inr ((), w1\<lparr>trace := trace w1 @ close_calls v1, errno := e,
      w_v2c := (w_v2c w1)(be_priv c := None), w_conn := (w_conn w1)(p := None)\<rparr>)" (is "_ = Inr ((), ?w')")
    using close_conn_eval [OF assms(5) X] by blast
  have "hub_sys component hub ?w'"
    by (rule hub_sys_drop [OF assms(2-4)]) (use assms(6-9) in \<open>simp_all add: same_setup_def\<close>)
  moreover have "spares hub {p} w ?w'"
    by (rule spares_one [OF assms(4) _ assms(3), where h' = "h\<lparr>ports := remove1 p (ports h)\<rparr>"])
      (use assms(6-9) in \<open>simp_all add: same_setup_def set_remove1_subset\<close>)
  ultimately show ?thesis using e assms(9) by auto
qed

text \<open>The payloads of a queue, the next one to send first.\<close>

definition payloads :: "vde2_pkt list \<Rightarrow> char list list" where
  "payloads qs = map (\<lambda>p. pkt_payload (v2_pkt p)) (rev qs)"

lemma payloads_simps [simp]: "payloads [] = []" "payloads (qs @ [k]) = pkt_payload (v2_pkt k) # payloads qs"
  by (simp_all add: payloads_def)

lemma v2_waiting_payloads: "v2_at w p c v \<Longrightarrow> v2_waiting w p = payloads (pkt_queue v)"
  by (simp add: v2_waiting_def v2_rec_eq payloads_def)

text \<open>The hub has given a port up.\<close>

definition port_gone :: "ptr \<Rightarrow> ptr \<Rightarrow> world \<Rightarrow> world \<Rightarrow> bool" where
  "port_gone hub p w w' \<longleftrightarrow> (\<exists>h. w_hub w hub = Some h \<and> w_hub w' hub = Some (h\<lparr>ports := remove1 p (ports h)\<rparr>))"

lemma ctl_event:
  assumes "hub_env E" and "hub_sys component hub w" and "v2_port w hub p"
    and "w_conn w p = Some c"
  shows "\<exists>w'. vde2_conn_read_ctl_event E (be_priv c) w = Inr ((), w') \<and> hub_sys component hub w' \<and>
    spares hub {p} w w' \<and> (port_gone hub p w w' \<or> w_hub w' = w_hub w \<and> v2_waiting w' p = v2_waiting w p)"
proof -
  obtain v where at: "v2_at w p c v" and ok: "v2_queue_ok v" and calls: "hub_calls hub c"
    using assms(3,4) by (auto simp: v2_port_def v2_at_def)
  obtain h where h: "w_hub w hub = Some h" "hub_component h = component" "no_listeners w component"
    using assms(2) by (auto simp: hub_sys_def)
  let ?r = "sys E (trace w) (Sys_read (ctl_fd v) REQBUFLEN)"
  define w1 where "w1 = w\<lparr>trace := trace w @ [Sys_read (ctl_fd v) REQBUFLEN],
    errno := (if retval ?r < 0 then reterrno ?r else errno w)\<rparr>"
  have sc: "syscall E (Sys_read (ctl_fd v) REQBUFLEN) w = Inr (?r, w1)" by (simp add: w1_def syscall_apply)
  have same: "same_setup w w1" "w_conn w1 = w_conn w" "w_v2c w1 = w_v2c w" "w_hub w1 = w_hub w"
    by (simp_all add: w1_def same_setup_def)
  have at1: "v2_at w1 p c v" using at same same_setup_facts(2) [OF same(1)] by (simp add: v2_at_def)
  have v: "w_v2c w (be_priv c) = Some v" "v2_conn v = p" using at by (simp_all add: v2_at_def)
  have "hub_sys component hub w1"
    by (rule hub_sys_put [OF assms(2) at same(1) same(4) same(2)])
      (use same(3) v ok in \<open>simp_all add: fun_upd_idem\<close>)
  moreover have "spares hub {p} w w1"
    by (rule spares_one [OF at same(1) h(1), where h' = h]) (use same h(1) in simp_all)
  moreover
  have n: "no_listeners w1 (hub_component h)" using h(2,3) same_setup_facts(1) [OF same(1)] by simp
  have h1: "w_hub w1 hub = Some h" using h(1) same(4) by simp
  let ?w2 = "w1\<lparr>w_hub := (w_hub w1)(hub \<mapsto> h\<lparr>ports := remove1 p (ports h)\<rparr>), errno := EPIPE\<rparr>"
  note err = call_error_hub [OF assms(1) at1 calls h1 n]
  have "\<exists>w'. close_conn E p ?w2 = Inr ((), w') \<and> hub_sys component hub w' \<and>
      w_hub w' hub = Some (h\<lparr>ports := remove1 p (ports h)\<rparr>) \<and> spares hub {p} w w'"
    by (rule close_port [OF assms(1,2) h(1) at, where ?v1.0 = v])
      (use at1 same in \<open>simp_all add: v2_at_def ctx_events_def same_setup_def\<close>)
  moreover have "vde2_conn_read_ctl_event E (be_priv c) w =
      (if retval ?r < 0 \<and> errno w1 = EAGAIN \<or> 0 < retval ?r then Inr ((), w1) else close_conn E p ?w2)"
    using v err sc by (simp add: vde2_conn_read_ctl_event_def mon Let_def del: syscall_apply)
  moreover have "v2_waiting w1 p = v2_waiting w p"
    using v2_waiting_payloads [OF at] v2_waiting_payloads [OF at1] by simp
  ultimately show ?thesis using same(4) h(1) by (auto simp: port_gone_def)
qed

text \<open>
  One round of the sending loop with a packet waiting, and how the loop ends. Every round
  takes a packet out of the queue for good or is the last; what is left in the queue is the end
  of what was in it, in the same order.
\<close>

definition send_done :: "ptr \<Rightarrow> hub_engine \<Rightarrow> world \<Rightarrow> ptr \<Rightarrow> ptr \<Rightarrow> vde2_conn \<Rightarrow> send_end \<Rightarrow> world \<Rightarrow> bool" where
  "send_done hub h w p arg v out w' \<longleftrightarrow> same_setup w w' \<and> w_conn w' = w_conn w \<and>
     (\<exists>qs. w_v2c w' = (w_v2c w)(arg \<mapsto> v\<lparr>pkt_queue := qs\<rparr>) \<and> length qs \<le> length (pkt_queue v) \<and>
        (\<exists>fs. payloads (pkt_queue v) = fs @ payloads qs) \<and>
        (\<forall>q\<in>set qs. v2_pkt_ok (v2_pkt q)) \<and> (out = Queue_empty \<longrightarrow> qs = [])) \<and>
     w_hub w' = (if out = Err_close then (w_hub w)(hub \<mapsto> h\<lparr>ports := remove1 p (ports h)\<rparr>) else w_hub w)"

lemma send_doneI:
  assumes "same_setup w w'" and "w_conn w' = w_conn w" and "w_v2c w' = (w_v2c w)(arg \<mapsto> v\<lparr>pkt_queue := qs\<rparr>)"
    and "length qs \<le> length (pkt_queue v)" and "payloads (pkt_queue v) = fs @ payloads qs"
    and "\<forall>q\<in>set qs. v2_pkt_ok (v2_pkt q)" and "out = Queue_empty \<Longrightarrow> qs = []"
    and "w_hub w' = (if out = Err_close then (w_hub w)(hub \<mapsto> h\<lparr>ports := remove1 p (ports h)\<rparr>) else w_hub w)"
  shows "send_done hub h w p arg v out w'"
  using assms unfolding send_done_def by blast

lemma send_round_hub:
  assumes "hub_env E" and "v2_at w p c v" and "hub_calls hub c" and "w_hub w hub = Some h"
    and "no_listeners w (hub_component h)" and "pkt_queue v = qs @ [k]"
    and "\<forall>q\<in>set (pkt_queue v). v2_pkt_ok (v2_pkt q)"
  shows "(\<exists>out w'. vde2_send_loop (Suc n) E (be_priv c) 0 w = Inr (out, w') \<and> send_done hub h w p (be_priv c) v out w') \<or>
    vde2_send_loop (Suc n) E (be_priv c) 0 w = vde2_send_loop n E (be_priv c) 0
      (w\<lparr>w_v2c := (w_v2c w)(be_priv c \<mapsto> v\<lparr>pkt_queue := qs\<rparr>),
         trace := trace w @ [Sys_sendto (data_fd v) (pkt_payload (v2_pkt k)) (remote_sa v)]\<rparr>)"
proof -
  let ?s = "Sys_sendto (data_fd v) (pkt_payload (v2_pkt k)) (remote_sa v)"
  let ?r = "sys E (trace w) ?s" and ?arg = "be_priv c"
  have c: "w_conn w p = Some c" "p \<noteq> NULL" "w_v2c w ?arg = Some v" "v2_conn v = p"
    using assms(2) by (simp_all add: v2_at_def)
  have wr: "write_cb c = None" using assms(3) by (simp add: hub_calls_def)
  have kok: "v2_pkt_ok (v2_pkt k)" using assms(6,7) by simp
  obtain bs where bs: "pkt_bytes (v2_pkt k) = Inr bs" "get_pkt_len (v2_pkt k) = Inr (length bs)"
    "pkt_payload (v2_pkt k) = bs"
    using kok by (rule v2_pkt_ok_bytes)
  define w1 where "w1 = w\<lparr>w_v2c := (w_v2c w)(?arg \<mapsto> v\<lparr>pkt_queue := qs\<rparr>), trace := trace w @ [?s],
    errno := (if retval ?r < 0 then reterrno ?r else errno w)\<rparr>"
  have sc: "syscall E (Sys_sendto (data_fd v) bs (remote_sa v))
      (w\<lparr>w_v2c := (w_v2c w)(?arg \<mapsto> v\<lparr>pkt_queue := qs\<rparr>)\<rparr>) = Inr (sys E (trace w) (Sys_sendto (data_fd v) bs (remote_sa v)), w1)"
    by (simp add: w1_def syscall_apply bs(3))
  have v1: "w_v2c w1 ?arg = Some (v\<lparr>pkt_queue := qs\<rparr>)" by (simp add: w1_def)
  have at1: "v2_at w1 p c (v\<lparr>pkt_queue := qs\<rparr>)" and h1: "w_hub w1 hub = Some h"
    and n1: "no_listeners w1 (hub_component h)" and c1: "w_conn w1 p = Some c"
    using assms(2,4,5) by (simp_all add: w1_def v2_at_def ctx_events_def no_listeners_def)
  note err = call_error_hub [OF assms(1) at1 assms(3) h1 n1]
  let ?w2 = "w1\<lparr>w_hub := (w_hub w1)(hub \<mapsto> h\<lparr>ports := remove1 p (ports h)\<rparr>), errno := EPIPE\<rparr>"
  let ?k = "k\<lparr>numtries := numtries k + 1\<rparr>"
  consider (sent) "retval ?r = int (length bs)"
    | (failed) "retval ?r \<noteq> int (length bs)" "retval ?r < 0 \<and> errno w1 \<noteq> EAGAIN"
    | (dropped) "retval ?r \<noteq> int (length bs)" "\<not> (retval ?r < 0 \<and> errno w1 \<noteq> EAGAIN)"
        "send_maxtries c < numtries k + 1"
    | (again) "retval ?r \<noteq> int (length bs)" "\<not> (retval ?r < 0 \<and> errno w1 \<noteq> EAGAIN)"
        "\<not> send_maxtries c < numtries k + 1"
    by blast
  then show ?thesis
  proof cases
    case sent
    have "vde2_send_loop (Suc n) E ?arg 0 w = vde2_send_loop n E ?arg 0
        (w\<lparr>w_v2c := (w_v2c w)(?arg \<mapsto> v\<lparr>pkt_queue := qs\<rparr>), trace := trace w @ [?s]\<rparr>)"
      by (rule send_round) (use c wr assms(6) kok sent bs(3) in simp_all)
    then show ?thesis by blast
  next
    case failed
    then have "vde2_send_loop (Suc n) E ?arg 0 w = Inr (Err_close, ?w2)"
      using c c1 bs assms(6) err sc v1 by (simp add: mon Let_def del: syscall_apply)
    moreover have "send_done hub h w p ?arg v Err_close ?w2"
      by (rule send_doneI [where qs = qs and fs = "[pkt_payload (v2_pkt k)]"]) (use assms(6,7) in \<open>simp_all add: w1_def same_setup_def\<close>)
    ultimately show ?thesis by blast
  next
    case dropped
    then have "vde2_send_loop (Suc n) E ?arg 0 w = Inr (Given_up, w1)"
      using c c1 bs assms(6) err sc v1 by (simp add: mon Let_def del: syscall_apply)
    moreover have "send_done hub h w p ?arg v Given_up w1"
      by (rule send_doneI [where qs = qs and fs = "[pkt_payload (v2_pkt k)]"]) (use assms(6,7) in \<open>simp_all add: w1_def same_setup_def\<close>)
    ultimately show ?thesis by blast
  next
    case again
    then have "vde2_send_loop (Suc n) E ?arg 0 w =
        Inr (Given_up, w1\<lparr>w_v2c := (w_v2c w1)(?arg \<mapsto> v\<lparr>pkt_queue := qs @ [?k]\<rparr>)\<rparr>)"
      using c c1 bs assms(6) err sc v1 by (simp add: mon Let_def del: syscall_apply)
    moreover have "send_done hub h w p ?arg v Given_up (w1\<lparr>w_v2c := (w_v2c w1)(?arg \<mapsto> v\<lparr>pkt_queue := qs @ [?k]\<rparr>)\<rparr>)"
      by (rule send_doneI [where qs = "qs @ [?k]" and fs = "[]"]) (use assms(6,7) in \<open>simp_all add: w1_def same_setup_def\<close>)
    ultimately show ?thesis by blast
  qed
qed

lemma send_loop_hub:
  assumes "hub_env E" and "v2_at w p c v" and "hub_calls hub c" and "w_hub w hub = Some h"
    and "no_listeners w (hub_component h)" and "\<forall>q\<in>set (pkt_queue v). v2_pkt_ok (v2_pkt q)"
    and "length (pkt_queue v) < n"
  shows "\<exists>out w'. vde2_send_loop n E (be_priv c) 0 w = Inr (out, w') \<and> send_done hub h w p (be_priv c) v out w'"
  using assms
proof (induction "pkt_queue v" arbitrary: n w v rule: rev_induct)
  case Nil
  then obtain m where "n = Suc m" by (cases n) auto
  moreover have "w_v2c w (be_priv c) = Some v" using Nil.prems(2) by (simp add: v2_at_def)
  moreover have "v\<lparr>pkt_queue := []\<rparr> = v" using Nil.hyps by simp
  ultimately show ?case using Nil by (simp add: mon send_done_def same_setup_def fun_upd_idem)
next
  case (snoc k qs)
  then obtain m where n: "n = Suc m" by (cases n) auto
  note q = snoc.hyps(2) [symmetric]
  let ?v1 = "v\<lparr>pkt_queue := qs\<rparr>"
  let ?w1 = "w\<lparr>w_v2c := (w_v2c w)(be_priv c \<mapsto> ?v1),
    trace := trace w @ [Sys_sendto (data_fd v) (pkt_payload (v2_pkt k)) (remote_sa v)]\<rparr>"
  have at1: "v2_at ?w1 p c ?v1" using snoc.prems(2) by (simp add: v2_at_def ctx_events_def)
  have "\<exists>out w'. vde2_send_loop m E (be_priv c) 0 ?w1 = Inr (out, w') \<and> send_done hub h ?w1 p (be_priv c) ?v1 out w'"
    by (rule snoc.hyps(1)) (use snoc.prems at1 q n in \<open>simp_all add: no_listeners_def\<close>)
  moreover have "send_done hub h w p (be_priv c) v out w'" if "send_done hub h ?w1 p (be_priv c) ?v1 out w'" for out w'
    using that q by (auto simp: send_done_def same_setup_def)
  ultimately show ?case
    using send_round_hub [OF snoc.prems(1-5) q snoc.prems(6), of m] unfolding n by metis
qed

lemma write_event:
  assumes "hub_env E" and "hub_sys component hub w" and "v2_port w hub p" and "w_conn w p = Some c"
    and "data_ev_wr (v2_rec w p) \<noteq> NULL" and "MAXQLEN < n"
  shows "\<exists>w'. vde2_conn_write_data_event n E (be_priv c) w = Inr ((), w') \<and> hub_sys component hub w' \<and>
    spares hub {p} w w' \<and> (port_gone hub p w w' \<or> w_hub w' = w_hub w \<and> (\<exists>fs. v2_waiting w p = fs @ v2_waiting w' p))"
proof -
  obtain v where at: "v2_at w p c v" and ok: "v2_queue_ok v" and calls: "hub_calls hub c"
    using assms(3,4) by (auto simp: v2_port_def v2_at_def)
  obtain h where h: "w_hub w hub = Some h" "hub_component h = component" "no_listeners w (hub_component h)"
    using assms(2) by (auto simp: hub_sys_def)
  have v: "w_v2c w (be_priv c) = Some v" "v2_conn v = p" "p \<noteq> NULL" and ev: "data_ev_wr v \<noteq> NULL"
    using at assms(5) by (simp_all add: v2_at_def v2_rec_eq [OF at])
  have "length (pkt_queue v) < n" "\<forall>q\<in>set (pkt_queue v). v2_pkt_ok (v2_pkt q)"
    using ok assms(6) by (auto simp: v2_queue_ok_def)
  then obtain out w1 where w1: "vde2_send_loop n E (be_priv c) 0 w = Inr (out, w1)"
    "send_done hub h w p (be_priv c) v out w1"
    using send_loop_hub [OF assms(1) at calls h(1,3)] by blast
  from w1(2) obtain qs where qs: "same_setup w w1" "w_conn w1 = w_conn w"
    "w_v2c w1 = (w_v2c w)(be_priv c \<mapsto> v\<lparr>pkt_queue := qs\<rparr>)" "length qs \<le> length (pkt_queue v)"
    "\<forall>q\<in>set qs. v2_pkt_ok (v2_pkt q)" "\<exists>fs. payloads (pkt_queue v) = fs @ payloads qs" "out = Queue_empty \<longrightarrow> qs = []"
    "w_hub w1 = (if out = Err_close then (w_hub w)(hub \<mapsto> h\<lparr>ports := remove1 p (ports h)\<rparr>) else w_hub w)"
    unfolding send_done_def by blast
  let ?v1 = "v\<lparr>pkt_queue := qs\<rparr>"
  have at1: "v2_at w1 p c ?v1" using at qs(2,3) same_setup_facts(2) [OF qs(1)] by (simp add: v2_at_def)
  have left: "\<exists>fs. v2_waiting w p = fs @ v2_waiting w' p" if "v2_at w' p c v'" "pkt_queue v' = qs" for w' v'
    using v2_waiting_payloads [OF at] v2_waiting_payloads [OF that(1)] that(2) qs(6) by simp
  have ok1: "v2_queue_ok ?v1" using ok qs(4,5) ev by (simp add: v2_queue_ok_def)
  show ?thesis
  proof (cases out)
    case Err_close
    then have "\<exists>w'. close_conn E p w1 = Inr ((), w') \<and> hub_sys component hub w' \<and>
        w_hub w' hub = Some (h\<lparr>ports := remove1 p (ports h)\<rparr>) \<and> spares hub {p} w w'"
      by (intro close_port [OF assms(1,2) h(1) at at1 qs(1,2)]) (use qs(3,8) in simp_all)
    then show ?thesis using v w1(1) Err_close h(1) by (auto simp: port_gone_def vde2_conn_write_data_event_def mon)
  next
    case Given_up
    then have "hub_sys component hub w1"
      using hub_sys_put [OF assms(2) at qs(1) _ qs(2,3)] qs(8) ok1 by simp
    moreover have "spares hub {p} w w1"
      by (rule spares_one [OF at qs(1) h(1), where h' = h]) (use qs(2,3,8) h(1) Given_up in simp_all)
    ultimately show ?thesis using v w1(1) Given_up qs(8) left [OF at1] by (auto simp: vde2_conn_write_data_event_def mon)
  next
    case Queue_empty
    let ?w2 = "w1\<lparr>w_v2c := (w_v2c w1)(be_priv c \<mapsto> ?v1\<lparr>data_ev_wr := NULL\<rparr>)\<rparr>"
    have "events_ok E" "ctx_events w1 (c_context c)" using assms(1) at1 by (simp_all add: hub_env_def v2_at_def)
    then have del: "vde_context_event_del E (c_context c) (data_ev_wr v) w1 = Inr ((), w1)"
      using event_del_ok ev by blast
    have "hub_sys component hub ?w2"
      by (rule hub_sys_put [OF assms(2) at, where v' = "?v1\<lparr>data_ev_wr := NULL\<rparr>"])
        (use qs Queue_empty in \<open>simp_all add: same_setup_def v2_queue_ok_def\<close>)
    moreover have "spares hub {p} w ?w2"
      by (rule spares_one [OF at _ h(1), where h' = h]) (use qs h(1) Queue_empty in \<open>simp_all add: same_setup_def\<close>)
    moreover have "w_conn w1 p = Some c" "w_v2c w1 (be_priv c) = Some ?v1" using at1 by (simp_all add: v2_at_def)
    then have "vde2_conn_write_data_event n E (be_priv c) w = Inr ((), ?w2)"
      using v w1(1) Queue_empty del by (simp add: vde2_conn_write_data_event_def mon)
    moreover have "v2_at ?w2 p c (?v1\<lparr>data_ev_wr := NULL\<rparr>)" using at1 by (simp add: v2_at_def ctx_events_def)
    then have "\<exists>fs. v2_waiting w p = fs @ v2_waiting ?w2 p" by (rule left) simp
    moreover have "w_hub ?w2 = w_hub w" using qs(8) Queue_empty by simp
    ultimately show ?thesis by blast
  qed
qed

text \<open>Broadcasting a packet, from the law of the connection backend.\<close>

lemma v2_port_usable: "v2_backend X \<Longrightarrow> v2_port w hub p \<Longrightarrow> v2_usable X w p"
  by (auto simp: v2_port_def v2_usable_def)

lemma v2_port_keeps:
  assumes "v2_port w hub p" and "engine_frame w w'" and "v2_usable X w' p"
  shows "v2_port w' hub p"
  using assms by (auto simp: v2_port_def v2_usable_def engine_frame_def v2_at_def)

lemma broadcast_v2:
  assumes X: "v2_backend X" and h: "w_hub w hub = Some h" and dist: "distinct (ports h)" and pkt: "v2_pkt_ok pkt"
    and us: "\<And>q. q \<in> set (ports h) \<Longrightarrow> q \<noteq> p \<Longrightarrow> v2_usable X w q"
  shows "\<exists>w'. hub_engine_readcb X p pkt hub w = Inr (0, w') \<and> engine_frame w w' \<and> v2_usable X w' = v2_usable X w \<and>
    (\<forall>d. v2_usable X w d \<longrightarrow> v2_peer w' d = v2_peer w d \<and> v2_waiting w' d =
      (if d \<in> set (ports h) - {p} \<and> v2_room w d then v2_waiting w d @ [pkt_payload pkt] else v2_waiting w d) \<and>
      (d \<notin> set (ports h) - {p} \<longrightarrow> v2_rec w' d = v2_rec w d))"
proof -
  let ?P = "\<lambda>w. w_hub w hub = Some h \<and> (\<forall>q\<in>set (ports h) - {p}. v2_usable X w q)"
  let ?qs = "filter (\<lambda>q. q \<noteq> p) (ports h)"
  have "keeps ?P (vde_connection_write X q pkt)" if "q \<in> set (ports h)" "q \<noteq> p" for q
  proof (rule keepsI)
    fix w a w' assume P: "?P w" and run: "vde_connection_write X q pkt w = Inr (a, w')"
    with that have "v2_usable X w q" by blast
    from v2q.put_law [OF pkt this] run have "engine_frame w w'" "v2_usable X w' = v2_usable X w" by auto
    with P show "?P w'" by (simp add: engine_frame_def)
  qed
  then have "hub_engine_readcb X p pkt hub w =
      mbind (mapM (\<lambda>q. mbind (vde_connection_write X q pkt) (\<lambda>_. ret ())) ?qs) (\<lambda>_. ret 0) w"
    by (intro hub_readcb_eval [where P = ?P]) (use h us dist in auto)
  moreover have "\<forall>c\<in>set ?qs. v2_usable X w c" "distinct ?qs" using us dist by auto
  from v2q.write_all [OF pkt this] obtain w' where
    "mapM (\<lambda>q. mbind (vde_connection_write X q pkt) (\<lambda>_. ret ())) ?qs w = Inr ((), w')"
    "engine_frame w w'" "v2_usable X w' = v2_usable X w"
    "\<forall>d. v2_usable X w d \<longrightarrow> v2_waiting w' d =
      (if d \<in> set ?qs \<and> v2_room w d then v2_waiting w d @ [pkt_payload pkt] else v2_waiting w d)"
    "\<forall>d. v2_usable X w d \<longrightarrow> v2_peer w' d = v2_peer w d"
    "\<forall>d. v2_usable X w d \<longrightarrow> d \<notin> set ?qs \<longrightarrow> v2_rec w' d = v2_rec w d"
    by blast
  ultimately show ?thesis by (intro exI [of _ w']) auto
qed

lemma hub_broadcast:
  assumes X: "v2_backend X" and sys: "hub_sys component hub w" and h: "w_hub w hub = Some h" and pkt: "v2_pkt_ok pkt"
  shows "\<exists>w'. hub_engine_readcb X p pkt hub w = Inr (0, w') \<and> hub_sys component hub w' \<and> engine_frame w w' \<and>
    (\<forall>q\<in>set (ports h). v2_waiting w' q = (if q \<noteq> p \<and> v2_room w q then v2_waiting w q @ [pkt_payload pkt]
      else v2_waiting w q) \<and> v2_peer w' q = v2_peer w q) \<and> spares hub (set (ports h)) w w'"
proof -
  have dist: "distinct (ports h)" and port: "\<forall>q\<in>set (ports h). v2_port w hub q"
    and comp: "hub_component h = component" "no_listeners w component" "comp_priv (the (w_comp w component)) = hub"
    using sys h by (auto simp: hub_sys_def)
  have us: "\<forall>q\<in>set (ports h). v2_usable X w q" using port v2_port_usable [OF X] by blast
  from us obtain w' where run: "hub_engine_readcb X p pkt hub w = Inr (0, w')" and
    w': "engine_frame w w'" "v2_usable X w' = v2_usable X w"
    "\<forall>d. v2_usable X w d \<longrightarrow> v2_peer w' d = v2_peer w d \<and> v2_waiting w' d =
      (if d \<in> set (ports h) - {p} \<and> v2_room w d then v2_waiting w d @ [pkt_payload pkt] else v2_waiting w d) \<and>
      (d \<notin> set (ports h) - {p} \<longrightarrow> v2_rec w' d = v2_rec w d)"
    using broadcast_v2 [OF X h dist pkt] by blast
  have "v2_port w' hub q" if "q \<in> set (ports h)" for q
    using v2_port_keeps [OF _ w'(1), of hub q X] port us that w'(2) by simp
  moreover have "no_listeners w' component" "w_hub w' hub = Some h" "comp_priv (the (w_comp w' component)) = hub"
    using comp(2,3) w'(1) h by (simp_all add: engine_frame_def no_listeners_def)
  ultimately have "hub_sys component hub w'" using dist comp(1) by (simp add: hub_sys_def)
  moreover have "v2_waiting w' q = (if q \<noteq> p \<and> v2_room w q then v2_waiting w q @ [pkt_payload pkt]
      else v2_waiting w q)" "v2_peer w' q = v2_peer w q" if "q \<in> set (ports h)" for q
    using w'(3) us that by simp_all
  moreover have "spares hub (set (ports h)) w w'"
  proof -
    have "v2_at w' q k x" if q: "q \<notin> set (ports h)" "v2_at w q k x" "v2_queue_ok x" for q k x
    proof -
      have "v2_usable X w q" using q(2,3) X by (auto simp: v2_usable_def)
      with w'(2,3) q(1) have "v2_usable X w' q" "v2_rec w' q = x" using v2_rec_eq [OF q(2)] by simp_all
      with q(2) w'(1) show ?thesis by (auto simp: v2_usable_def v2_at_def engine_frame_def v2_rec_def)
    qed
    moreover have "same_setup w w'" "w_hub w' = w_hub w" "w_conn w' = w_conn w" "dom (w_v2c w') = dom (w_v2c w)"
      using w'(1) by (simp_all add: engine_frame_def same_setup_def)
    ultimately show ?thesis by (simp add: spares_def)
  qed
  ultimately show ?thesis using run w'(1) by blast
qed

lemma trace_irrelevant:
  "v2_at (w\<lparr>trace := tr\<rparr>) = v2_at w" "v2_waiting (w\<lparr>trace := tr\<rparr>) = v2_waiting w"
  "v2_room (w\<lparr>trace := tr\<rparr>) = v2_room w" "v2_peer (w\<lparr>trace := tr\<rparr>) = v2_peer w"
  "hub_sys component hub (w\<lparr>trace := tr\<rparr>) = hub_sys component hub w"
  "spares hub S (w\<lparr>trace := tr\<rparr>) = spares hub S w"
  by (simp_all add: fun_eq_iff spares_def same_setup_def v2_at_def ctx_events_def v2_waiting_def v2_rec_def v2_room_def v2_peer_def
      hub_sys_def v2_port_def no_listeners_def)

lemma read_event:
  assumes "hub_env E" and "hub_sys component hub w" and "w_hub w hub = Some h" and "v2_port w hub p"
    and "w_conn w p = Some c"
    and "sys E (trace w) (Sys_recvfrom (data_fd (v2_rec w p)) 1518) =
      \<lparr>retval = int (length bs), reterrno = x, retbytes = bs\<rparr>" and "length bs \<le> 1518"
  shows "\<exists>w'. vde2_conn_read_data_event E (be_priv c) w = Inr ((), w') \<and> hub_sys component hub w' \<and>
    w_hub w' = w_hub w \<and> w_conn w' = w_conn w \<and>
    trace w' = trace w @ [Sys_recvfrom (data_fd (v2_rec w p)) 1518] \<and> (\<forall>q\<in>set (ports h). v2_waiting w' q =
      (if q \<noteq> p \<and> 14 \<le> length bs \<and> v2_room w q then v2_waiting w q @ [bs] else v2_waiting w q) \<and>
      v2_peer w' q = v2_peer w q) \<and> spares hub (set (ports h)) w w'"
proof -
  obtain v where at: "v2_at w p c v" and calls: "hub_calls hub c"
    using assms(4,5) by (auto simp: v2_port_def v2_at_def)
  obtain X where X: "call_read_cb E Hub_engine_readcb = hub_engine_readcb X" "v2_backend X"
    using assms(1) by (auto simp: hub_env_def)
  have c: "read_cb c = Some Hub_engine_readcb" "cb_priv c = hub" "pkt_head_sz c \<le> MAX_HEAD_SZ"
    "pkt_tail_sz c \<le> MAX_TAIL_SZ"
    using calls by (simp_all add: hub_calls_def vde2_consts)
  have sc: "sys E (trace w) (Sys_recvfrom (data_fd v) 1518) = \<lparr>retval = int (length bs), reterrno = x, retbytes = bs\<rparr>"
    using assms(6) by (simp add: v2_rec_eq [OF at])
  let ?w1 = "w\<lparr>trace := trace w @ [Sys_recvfrom (data_fd v) 1518]\<rparr>"
  obtain pkt where pkt: "v2_pkt_ok pkt" "pkt_bytes pkt = Inr bs"
    "vde2_conn_read_data_event E (be_priv c) w =
      (if length bs < 14 then ret () else deliver E Hub_engine_readcb p pkt hub) ?w1"
    using read_event_delivers [OF at c(1,3,4) assms(7) sc] c(2) by auto
  show ?thesis
  proof (cases "length bs < 14")
    case True
    with pkt(3) assms(2) have "vde2_conn_read_data_event E (be_priv c) w = Inr ((), ?w1)"
      "hub_sys component hub ?w1"
      by (simp_all add: trace_irrelevant)
    moreover have "spares hub (set (ports h)) w ?w1" by (simp add: spares_def same_setup_def trace_irrelevant)
    ultimately show ?thesis using True by (intro exI [of _ ?w1]) (simp add: trace_irrelevant v2_rec_eq [OF at])
  next
    case False
    have "hub_sys component hub ?w1" "w_hub ?w1 hub = Some h" using assms(2,3) by (simp_all add: trace_irrelevant)
    from hub_broadcast [OF X(2) this pkt(1), of p] obtain w' where
      w': "hub_engine_readcb X p pkt hub ?w1 = Inr (0, w')" "hub_sys component hub w'" "engine_frame ?w1 w'"
      "\<forall>q\<in>set (ports h). v2_waiting w' q = (if q \<noteq> p \<and> v2_room w q then v2_waiting w q @ [pkt_payload pkt]
        else v2_waiting w q) \<and> v2_peer w' q = v2_peer w q"
      "spares hub (set (ports h)) w w'"
      unfolding trace_irrelevant by blast
    have "vde2_conn_read_data_event E (be_priv c) w = Inr ((), w')"
      using pkt(3) False w'(1) X(1) by (simp add: deliver_def)
    moreover have "pkt_payload pkt = bs" using pkt(2) by (simp add: pkt_payload_def)
    moreover have "w_hub w' = w_hub w" "w_conn w' = w_conn w" "trace w' = trace ?w1"
      using w'(3) by (simp_all add: engine_frame_def)
    ultimately show ?thesis using w'(2,4,5) False by (intro exI [of _ w']) (simp add: v2_rec_eq [OF at])
  qed
qed

text \<open>A connection joins.\<close>

lemma join:
  assumes "hub_sys component hub w" and "w_hub w hub = Some h" and "v2_at w conn c v" and "v2_queue_ok v"
    and "conn \<notin> set (ports h)"
  shows "\<exists>r w'. hub_engine_newconn E component conn req w = Inr (r, w') \<and> hub_sys component hub w' \<and>
    (w' = w \<or> w_hub w' hub = Some (h\<lparr>ports := conn # ports h\<rparr>) \<and> v2_rec w' = v2_rec w)"
proof -
  let ?h = "h\<lparr>ports := conn # ports h\<rparr>"
  let ?w1 = "w\<lparr>w_hub := (w_hub w)(hub \<mapsto> ?h), w_conn := (w_conn w)(conn \<mapsto> hub_conn hub c)\<rparr>"
  have comp: "hub_component h = component" "distinct (ports h)" "\<forall>p\<in>set (ports h). v2_port w hub p"
    "no_listeners w component"
    using assms(1,2) by (auto simp: hub_sys_def)
  obtain k where k: "w_comp w component = Some k" "component \<noteq> NULL" "comp_priv k = hub"
    using assms(1) by (auto simp: hub_sys_def no_listeners_def)
  have c: "w_conn w conn = Some c" "conn \<noteq> NULL" using assms(3) by (simp_all add: v2_at_def)
  have same: "same_setup w ?w1" by (simp add: same_setup_def)
  have "v2_at ?w1 conn (hub_conn hub c) v"
    using assms(3) same_setup_facts(2) [OF same] by (simp add: v2_at_def hub_conn_def)
  moreover have "hub_calls hub (hub_conn hub c)" by (simp add: hub_calls_def hub_conn_def)
  ultimately have "v2_port ?w1 hub conn" using assms(4) unfolding v2_port_def by blast
  moreover have "v2_port ?w1 hub p" if p: "p \<in> set (ports h)" for p
  proof -
    have "p \<noteq> conn" using p assms(5) by blast
    obtain d x where d: "v2_at w p d x" "v2_queue_ok x" "hub_calls hub d"
      using comp(3) p unfolding v2_port_def by blast
    have "v2_at ?w1 p d x" by (rule v2_at_other [OF assms(3) d(1) \<open>p \<noteq> conn\<close> same]) (simp_all add: \<open>p \<noteq> conn\<close>)
    with d(2,3) show ?thesis by (auto simp: v2_port_def)
  qed
  moreover have n: "no_listeners ?w1 component" using comp(4) same_setup_facts(1) [OF same] by simp
  ultimately have "hub_sys component hub ?w1" using comp(1,2) assms(5) k by (simp add: hub_sys_def)
  moreover have "hub_engine_newconn E component conn req w = Inr (- 1, w) \<or>
      hub_engine_newconn E component conn req w = Inr (0, ?w1)"
    using hub_newconn_eval [OF k assms(2) c] raise_quiet [OF n] by simp
  moreover have "w_hub ?w1 hub = Some ?h" "v2_rec ?w1 = v2_rec w"
    using c(1) by (simp_all add: v2_rec_def hub_conn_def fun_eq_iff)
  ultimately show ?thesis using assms(1) by metis
qed

section \<open>Reachable states\<close>

text \<open>
  The events the transport has registered for a port: the two read events from the handshake
  on, the write event while its token is stored.
\<close>

definition event_due :: "world \<Rightarrow> ptr \<Rightarrow> event_cb \<Rightarrow> bool" where
  "event_due w p cb \<longleftrightarrow> cb = Vde2_conn_read_ctl_event \<or> cb = Vde2_conn_read_data_event \<or>
     cb = Vde2_conn_write_data_event \<and> data_ev_wr (v2_rec w p) \<noteq> NULL"

text \<open>What the rest of the program may do: anything that leaves the hub's own records as they are.\<close>

definition elsewhere :: "ptr \<Rightarrow> ptr \<Rightarrow> world \<Rightarrow> world \<Rightarrow> bool" where
  "elsewhere component hub w w' \<longleftrightarrow> w_hub w' hub = w_hub w hub \<and> w_comp w' component = w_comp w component \<and>
     w_signal w \<subseteq>\<^sub>m w_signal w' \<and> (\<forall>x. ctx_events w x \<longrightarrow> ctx_events w' x) \<and>
     (\<forall>h p c. w_hub w hub = Some h \<longrightarrow> p \<in> set (ports h) \<longrightarrow> w_conn w p = Some c \<longrightarrow>
        w_conn w' p = Some c \<and> w_v2c w' (be_priv c) = w_v2c w (be_priv c))"

inductive hub_step :: "nat \<Rightarrow> env \<Rightarrow> ptr \<Rightarrow> ptr \<Rightarrow> world \<Rightarrow> world \<Rightarrow> bool" for n E component hub where
  step_join: "w_hub w hub = Some h \<Longrightarrow> conn \<notin> set (ports h) \<Longrightarrow> v2_at w conn c v \<Longrightarrow> v2_queue_ok v \<Longrightarrow>
    hub_engine_newconn E component conn req w = Inr (r, w') \<Longrightarrow> hub_step n E component hub w w'"
| step_event: "w_hub w hub = Some h \<Longrightarrow> p \<in> set (ports h) \<Longrightarrow> w_conn w p = Some c \<Longrightarrow> event_due w p cb \<Longrightarrow>
    run_event n E ext cb fd (be_priv c) w = Inr ((), w') \<Longrightarrow> hub_step n E component hub w w'"
| step_elsewhere: "elsewhere component hub w w' \<Longrightarrow> hub_step n E component hub w w'"

lemma map_le_Some: "m \<subseteq>\<^sub>m m' \<Longrightarrow> m x = Some y \<Longrightarrow> m' x = Some y"
  by (metis domI map_le_def)

lemma hub_sys_elsewhere:
  assumes "elsewhere component hub w w'" and "hub_sys component hub w"
  shows "hub_sys component hub w'"
proof -
  obtain h where h: "w_hub w hub = Some h" using assms(2) by (auto simp: hub_sys_def)
  have le: "w_signal w \<subseteq>\<^sub>m w_signal w'" and ctx: "\<And>x. ctx_events w x \<Longrightarrow> ctx_events w' x"
    and eq: "w_hub w' hub = w_hub w hub" "w_comp w' component = w_comp w component"
    and own: "\<And>p c. p \<in> set (ports h) \<Longrightarrow> w_conn w p = Some c \<Longrightarrow>
      w_conn w' p = Some c \<and> w_v2c w' (be_priv c) = w_v2c w (be_priv c)"
    using assms(1) h by (simp_all add: elsewhere_def)
  have "no_listeners w' component" if "no_listeners w component"
    using that eq(2) map_le_Some [OF le] unfolding no_listeners_def by metis
  moreover
  have "v2_port w' hub p" if p: "p \<in> set (ports h)" "v2_port w hub p" for p
  proof -
    obtain c v where c: "v2_at w p c v" "v2_queue_ok v" "hub_calls hub c" using p(2) by (auto simp: v2_port_def)
    have "v2_at w' p c v" using c(1) own [OF p(1), of c] ctx by (simp add: v2_at_def)
    with c(2,3) show ?thesis by (auto simp: v2_port_def)
  qed
  ultimately show ?thesis using assms(2) eq h unfolding hub_sys_def by auto
qed

lemma recv_ok_result:
  assumes "recv_ok E"
  obtains bs x where "sys E tr (Sys_recvfrom fd 1518) = \<lparr>retval = int (length bs), reterrno = x, retbytes = bs\<rparr>"
    and "length bs \<le> 1518"
proof -
  let ?r = "sys E tr (Sys_recvfrom fd 1518)"
  have "retval ?r = int (length (retbytes ?r))" "length (retbytes ?r) \<le> 1518"
    using assms by (auto simp: recv_ok_def Let_def)
  then show thesis by (intro that [of "retbytes ?r" "reterrno ?r"]) (simp_all add: sysres.equality)
qed

text \<open>Every event that is due on a port returns and keeps the invariant.\<close>

lemma event_runs:
  assumes "hub_env E" and "recv_ok E" and "MAXQLEN < n" and "hub_sys component hub w" and "w_hub w hub = Some h"
    and "p \<in> set (ports h)" and "w_conn w p = Some c" and "event_due w p cb"
  shows "\<exists>w'. run_event n E ext cb fd (be_priv c) w = Inr ((), w') \<and> hub_sys component hub w' \<and>
    spares hub (set (ports h)) w w'"
proof -
  have port: "v2_port w hub p" using assms(4-6) by (auto simp: hub_sys_def)
  have one: "spares hub (set (ports h)) w w'" if "spares hub {p} w w'" for w'
    using spares_mono [OF that] assms(6) by simp
  from assms(8) consider "cb = Vde2_conn_read_ctl_event" | "cb = Vde2_conn_read_data_event"
    | "cb = Vde2_conn_write_data_event" "data_ev_wr (v2_rec w p) \<noteq> NULL"
    by (auto simp: event_due_def)
  then show ?thesis
  proof cases
    case 1
    then show ?thesis using ctl_event [OF assms(1,4) port assms(7)] one by (fastforce simp: run_event_def)
  next
    case 2
    obtain bs x where "sys E (trace w) (Sys_recvfrom (data_fd (v2_rec w p)) 1518) =
        \<lparr>retval = int (length bs), reterrno = x, retbytes = bs\<rparr>" "length bs \<le> 1518"
      using assms(2) by (rule recv_ok_result)
    from read_event [OF assms(1,4,5) port assms(7) this] 2 show ?thesis by (auto simp: run_event_def)
  next
    case 3
    then show ?thesis using write_event [OF assms(1,4) port assms(7) _ assms(3)] one by (fastforce simp: run_event_def)
  qed
qed

lemma hub_step_keeps:
  assumes "hub_env E" and "recv_ok E" and "MAXQLEN < n" and "hub_step n E component hub w w'"
    and "hub_sys component hub w"
  shows "hub_sys component hub w'"
  using assms(4)
proof cases
  case (step_join h conn c v req r)
  then show ?thesis using join [OF assms(5) step_join(1,3,4,2), of E req] by auto
next
  case (step_event h p c cb ext fd)
  then show ?thesis using event_runs [OF assms(1-3,5) step_event(1-4), of ext fd] by auto
next
  case step_elsewhere
  then show ?thesis using hub_sys_elsewhere assms(5) by blast
qed

lemma reachable_sys:
  assumes "hub_env E" and "recv_ok E" and "MAXQLEN < n" and "hub_sys component hub w0"
    and "(hub_step n E component hub)\<^sup>*\<^sup>* w0 w"
  shows "hub_sys component hub w"
  using assms(5,4) by (induction rule: rtranclp_induct) (use hub_step_keeps [OF assms(1-3)] in blast)+

section \<open>Properties\<close>

lemma recv_ok_dispatch [simp]: "recv_ok (dispatch X n) = recv_ok X"
  by (simp add: recv_ok_def)

lemma hub_sys_port:
  assumes "hub_sys component hub w" and "w_hub w hub = Some h" and "p \<in> set (ports h)"
  shows "hub_port w hub p \<and> length (pkt_queue (v2_rec w p)) \<le> MAXQLEN \<and>
    (v2_waiting w p \<noteq> [] \<longrightarrow> data_ev_wr (v2_rec w p) \<noteq> NULL)"
proof -
  obtain c v where "v2_at w p c v" "v2_queue_ok v" "hub_calls hub c"
    using assms by (auto simp: hub_sys_def v2_port_def)
  then show ?thesis
    by (auto simp: v2_rec_eq v2_waiting_def v2_queue_ok_def hub_port_def hub_calls_def v2_at_def)
qed

text \<open>C6: an invariant of the running switch. Whatever sequence of joins, events and foreign
  activity, the hub exists, no connection is a port twice, every port is a live connection that
  calls back into this hub, at most 4192 packets wait on a port, and while any waits the port has
  its write event registered: no packet is stranded.\<close>

theorem hub_invariant:
  assumes "events_ok X" and "\<And>k. \<not> malloc_null X k" and "recv_ok X" and "4192 < n"
    and "hub_sys component hub w0" and "(hub_step n (dispatch X (d + 2)) component hub)\<^sup>*\<^sup>* w0 w"
  shows "\<exists>h. w_hub w hub = Some h \<and> distinct (ports h) \<and> (\<forall>p\<in>set (ports h). hub_port w hub p \<and>
    length (pkt_queue (v2_rec w p)) \<le> 4192 \<and> (v2_waiting w p \<noteq> [] \<longrightarrow> data_ev_wr (v2_rec w p) \<noteq> NULL))"
proof -
  have sys: "hub_sys component hub w"
    by (rule reachable_sys [OF hub_env_dispatch [OF assms(1,2)]]) (use assms(3-6) in \<open>simp_all add: vde2_consts\<close>)
  then obtain h where "w_hub w hub = Some h" "distinct (ports h)" by (auto simp: hub_sys_def)
  moreover have "MAXQLEN = 4192" by (simp add: MAXQLEN_def)
  ultimately show ?thesis using hub_sys_port [OF sys] by auto
qed

text \<open>Safety and progress. In every reachable state, whatever the system calls answer (but for
  \<open>recvfrom\<close>, which is called on a readable socket), every event that is due on a port runs to its
  end: no failed assertion, no dangling or null pointer, no access out of bounds, and no loop
  that outruns its bound of 4193 rounds.\<close>

theorem hub_events_never_fault:
  assumes "events_ok X" and "\<And>k. \<not> malloc_null X k" and "recv_ok X" and "4192 < n"
    and "hub_sys component hub w0" and "(hub_step n (dispatch X (d + 2)) component hub)\<^sup>*\<^sup>* w0 w"
    and "w_hub w hub = Some h" and "p \<in> set (ports h)" and "w_conn w p = Some c" and "event_due w p cb"
  shows "\<exists>w'. run_event n (dispatch X (d + 2)) ext cb fd (be_priv c) w = Inr ((), w')"
proof -
  have env: "hub_env (dispatch X (d + 2))" "recv_ok (dispatch X (d + 2))" "MAXQLEN < n"
    using hub_env_dispatch [OF assms(1,2)] assms(3,4) by (simp_all add: vde2_consts)
  have "hub_sys component hub w" by (rule reachable_sys [OF env assms(5,6)])
  from event_runs [OF env this assms(7-10)] show ?thesis by blast
qed

text \<open>C7: what the hub is for. A frame of at least 14 bytes that arrives on a port is queued once,
  unchanged and last, for every other port that has room, and for no port twice; the port it came
  from does not get it back. A shorter datagram is queued nowhere. Ports, connections and the
  peers they send to stay as they are.\<close>

theorem hub_broadcasts_frame:
  assumes "events_ok X" and "\<And>k. \<not> malloc_null X k" and "hub_sys component hub w" and "w_hub w hub = Some h"
    and "p \<in> set (ports h)" and "w_conn w p = Some c" and "length bs \<le> 1518"
    and "sys X (trace w) (Sys_recvfrom (data_fd (v2_rec w p)) 1518) =
      \<lparr>retval = int (length bs), reterrno = x, retbytes = bs\<rparr>"
  shows "\<exists>w'. run_event n (dispatch X (d + 2)) ext Vde2_conn_read_data_event fd (be_priv c) w = Inr ((), w') \<and>
    w_hub w' = w_hub w \<and> w_conn w' = w_conn w \<and> v2_waiting w' p = v2_waiting w p \<and>
    (\<forall>q\<in>set (ports h). q \<noteq> p \<longrightarrow> v2_peer w' q = v2_peer w q \<and> v2_waiting w' q =
      (if 14 \<le> length bs \<and> v2_room w q then v2_waiting w q @ [bs] else v2_waiting w q))"
proof -
  have port: "v2_port w hub p" using assms(3-5) by (auto simp: hub_sys_def)
  have "sys (dispatch X (d + 2)) (trace w) (Sys_recvfrom (data_fd (v2_rec w p)) 1518) =
      \<lparr>retval = int (length bs), reterrno = x, retbytes = bs\<rparr>" using assms(8) by simp
  from read_event [OF hub_env_dispatch [OF assms(1,2)] assms(3,4) port assms(6) this assms(7)]
  show ?thesis using assms(5) by (auto simp: run_event_def)
qed

text \<open>C8: end to end. A frame read from one port leaves through any other port that has room: when the
  socket of that port takes datagrams, its next write event sends what was waiting there, in
  order, and then the frame, to the peer of that port.\<close>

theorem hub_forwards_frame:
  assumes "events_ok X" and "\<And>k. \<not> malloc_null X k" and "hub_sys component hub w" and "w_hub w hub = Some h"
    and "p \<in> set (ports h)" and "q \<in> set (ports h)" and "q \<noteq> p" and "w_conn w p = Some c" and "w_conn w q = Some k"
    and "v2_room w q" and "4192 < n" and "14 \<le> length bs" and "length bs \<le> 1518"
    and "sys X (trace w) (Sys_recvfrom (data_fd (v2_rec w p)) 1518) =
      \<lparr>retval = int (length bs), reterrno = x, retbytes = bs\<rparr>"
    and "\<forall>tr fd bs sa. retval (sys X tr (Sys_sendto fd bs sa)) = int (length bs)"
  shows "\<exists>w1 w2. run_event n (dispatch X (d + 2)) ext Vde2_conn_read_data_event fd (be_priv c) w = Inr ((), w1) \<and>
    run_event n (dispatch X (d + 2)) ext Vde2_conn_write_data_event fd (be_priv k) w1 = Inr ((), w2) \<and>
    trace w2 = trace w @ [Sys_recvfrom (data_fd (v2_rec w p)) 1518] @
      map (\<lambda>b. Sys_sendto (data_fd (v2_rec w q)) b (remote_sa (v2_rec w q))) (v2_waiting w q @ [bs]) \<and>
    v2_waiting w2 q = []"
proof -
  let ?E = "dispatch X (d + 2)"
  have port: "v2_port w hub p" using assms(3-5) by (auto simp: hub_sys_def)
  have recv: "sys ?E (trace w) (Sys_recvfrom (data_fd (v2_rec w p)) 1518) =
      \<lparr>retval = int (length bs), reterrno = x, retbytes = bs\<rparr>" using assms(14) by simp
  obtain w1 where w1: "vde2_conn_read_data_event ?E (be_priv c) w = Inr ((), w1)" "hub_sys component hub w1"
    "w_hub w1 = w_hub w" "w_conn w1 = w_conn w" "trace w1 = trace w @ [Sys_recvfrom (data_fd (v2_rec w p)) 1518]"
    "v2_waiting w1 q = v2_waiting w q @ [bs]" "v2_peer w1 q = v2_peer w q"
    using read_event [OF hub_env_dispatch [OF assms(1,2)] assms(3,4) port assms(8) recv assms(13)]
      assms(6,7,10,12) by auto
  have "w_hub w1 hub = Some h" using w1(3) assms(4) by simp
  with w1(2) assms(6) have "v2_port w1 hub q" by (auto simp: hub_sys_def)
  moreover have "w_conn w1 q = Some k" using w1(4) assms(9) by simp
  ultimately obtain v where v: "v2_at w1 q k v" "v2_queue_ok v" "hub_calls hub k" by (auto simp: v2_port_def v2_at_def)
  have rec: "v2_rec w1 q = v" by (rule v2_rec_eq [OF v(1)])
  have peer: "data_fd v = data_fd (v2_rec w q)" "remote_sa v = remote_sa (v2_rec w q)"
    using w1(7) by (simp_all add: v2_peer_def rec)
  have "pkt_queue v \<noteq> []" using w1(6) by (auto simp: v2_waiting_def rec)
  then have ev: "data_ev_wr v \<noteq> NULL" and len: "length (pkt_queue v) < n"
    using v(2) assms(11) by (simp_all add: v2_queue_ok_def vde2_consts)
  have "write_cb k = None" "events_ok ?E" using v(3) assms(1) by (simp_all add: hub_calls_def)
  then obtain w2 where "vde2_conn_write_data_event n ?E (be_priv k) w1 = Inr ((), w2)"
    "trace w2 = trace w1 @ map (\<lambda>b. Sys_sendto (data_fd v) b (remote_sa v)) (v2_waiting w1 q)" "v2_waiting w2 q = []"
    using write_event_drains [OF v(1,2) _ _ ev len, of ?E] assms(15) by auto
  with w1(1,5,6) peer show ?thesis by (auto simp: run_event_def)
qed

text \<open>A hub with two ports, the second with a packet waiting; every datagram read has 20 bytes.\<close>

definition example_switch_env :: env where
  "example_switch_env = example_v2_env\<lparr>sys := (\<lambda>tr c. case c of
       Sys_sendto fd bs sa \<Rightarrow> \<lparr>retval = int (length bs), reterrno = 0, retbytes = []\<rparr>
     | Sys_recvfrom fd n \<Rightarrow> \<lparr>retval = int (min n 20), reterrno = 0, retbytes = replicate (min n 20) CHR ''x''\<rparr>
     | _ \<Rightarrow> \<lparr>retval = 0, reterrno = 0, retbytes = []\<rparr>)\<rparr>"

definition example_switch :: world where
  "example_switch = example_ctx_world\<lparr>brk := 100, w_comp := [50 \<mapsto> zero_component\<lparr>comp_priv := 40\<rparr>],
     w_conn := [20 \<mapsto> example_v2_connection, 21 \<mapsto> example_v2_connection\<lparr>be_priv := 31\<rparr>],
     w_v2c := [30 \<mapsto> zero_vde2_conn\<lparr>data_fd := 8, v2_conn := 20\<rparr>,
       31 \<mapsto> zero_vde2_conn\<lparr>data_fd := 9, v2_conn := 21, data_ev_wr := 77,
         pkt_queue := [\<lparr>numtries = 0, v2_pkt = example_pkt\<rparr>]\<rparr>],
     w_hub := [40 \<mapsto> \<lparr>hub_component = 50, ports = [21, 20]\<rparr>]\<rparr>"

lemma example_switch_env_facts:
  "events_ok example_switch_env" "\<And>k. \<not> malloc_null example_switch_env k" "recv_ok example_switch_env"
  "\<forall>tr fd bs sa. retval (sys example_switch_env tr (Sys_sendto fd bs sa)) = int (length bs)"
  "sys example_switch_env tr (Sys_recvfrom fd 1518) =
    \<lparr>retval = int (length (replicate 20 CHR ''x'')), reterrno = 0, retbytes = replicate 20 CHR ''x''\<rparr>"
  using example_v2_facts(3)
  by (simp_all add: events_ok_def recv_ok_def example_switch_env_def example_v2_env_def)

lemma example_switch_ports:
  "v2_port example_switch 40 20" "v2_port example_switch 40 21"
  using example_pkt_wf
  by (simp_all add: v2_port_def v2_at_def example_switch_def example_v2_connection_def zero_vde2_conn_def
      ctx_events_def example_ctx_world_def example_context_def v2_queue_ok_def v2_pkt_ok_def vde2_consts
      size_defs hub_calls_def) (simp_all add: example_pkt_def)

lemma example_switch_facts:
  "hub_sys 50 40 example_switch" "w_hub example_switch 40 = Some \<lparr>hub_component = 50, ports = [21, 20]\<rparr>"
  "w_conn example_switch 20 = Some example_v2_connection"
  "w_conn example_switch 21 = Some (example_v2_connection\<lparr>be_priv := 31\<rparr>)"
  "v2_rec example_switch 20 = zero_vde2_conn\<lparr>data_fd := 8, v2_conn := 20\<rparr>"
  "v2_waiting example_switch 21 = [''ABC'']" "v2_room example_switch 21" "v2_peer example_switch 21 = (9, zero_sa)"
  "trace example_switch = []" "be_priv example_v2_connection = 30"
proof -
  have "no_listeners example_switch 50" "comp_priv (the (w_comp example_switch 50)) = 40"
    by (simp_all add: no_listeners_def example_switch_def zero_component_def)
  then show "hub_sys 50 40 example_switch"
    using example_switch_ports by (simp add: hub_sys_def) (simp add: example_switch_def)
qed (use example_pkt_wf(2) in \<open>simp_all add: example_switch_def v2_rec_def v2_waiting_def v2_room_def v2_peer_def
    pkt_payload_def vde2_consts zero_vde2_conn_def example_v2_connection_def example_ctx_world_def empty_world_def\<close>)

lemma example_switch_step:
  "\<exists>w. hub_step 5000 (dispatch example_switch_env (0 + 2)) 50 40 example_switch w"
proof -
  have "hub_env (dispatch example_switch_env (0 + 2))" "recv_ok (dispatch example_switch_env (0 + 2))" "MAXQLEN < 5000"
    using hub_env_dispatch [OF example_switch_env_facts(1,2)] example_switch_env_facts(3)
    by (simp_all add: vde2_consts)
  from event_runs [OF this example_switch_facts(1,2) _ example_switch_facts(3), of Vde2_conn_read_data_event]
  obtain w where "run_event 5000 (dispatch example_switch_env (0 + 2)) (\<lambda>_ _ _. ret ()) Vde2_conn_read_data_event 8
      (be_priv example_v2_connection) example_switch = Inr ((), w)"
    by (auto simp: event_due_def)
  from step_event [OF example_switch_facts(2) _ example_switch_facts(3) _ this] show ?thesis
    by (auto simp: event_due_def)
qed

theorem hub_invariant_witness:
  "\<exists>w h. hub_step 5000 (dispatch example_switch_env (0 + 2)) 50 40 example_switch w \<and>
    w_hub w 40 = Some h \<and> distinct (ports h)"
proof -
  obtain w where w: "hub_step 5000 (dispatch example_switch_env (0 + 2)) 50 40 example_switch w"
    using example_switch_step by blast
  then have "(hub_step 5000 (dispatch example_switch_env (0 + 2)) 50 40)\<^sup>*\<^sup>* example_switch w" by blast
  from hub_invariant [OF example_switch_env_facts(1-3) _ example_switch_facts(1) this] w show ?thesis by auto
qed

theorem hub_events_never_fault_witness:
  "\<exists>w'. run_event 5000 (dispatch example_switch_env (0 + 2)) (\<lambda>_ _ _. ret ()) Vde2_conn_read_ctl_event 9 30
    example_switch = Inr ((), w')"
  using hub_events_never_fault [OF example_switch_env_facts(1-3) _ example_switch_facts(1) rtranclp.rtrancl_refl
      example_switch_facts(2) _ example_switch_facts(3), where cb = Vde2_conn_read_ctl_event and n = 5000]
  by (simp add: event_due_def example_switch_facts(10))

theorem hub_broadcasts_frame_witness:
  "\<exists>w'. run_event 1 (dispatch example_switch_env (0 + 2)) (\<lambda>_ _ _. ret ()) Vde2_conn_read_data_event 8 30
      example_switch = Inr ((), w') \<and> v2_waiting w' 21 = [''ABC'', replicate 20 CHR ''x'']"
proof -
  have p: "20 \<in> set (ports \<lparr>hub_component = 50, ports = [21, 20]\<rparr>)" "length (replicate 20 CHR ''x'') \<le> 1518"
    by simp_all
  from hub_broadcasts_frame [OF example_switch_env_facts(1,2) example_switch_facts(1,2) p(1) example_switch_facts(3)
      p(2) example_switch_env_facts(5)] show ?thesis
    using example_switch_facts(6,7,10) by fastforce
qed

theorem hub_forwards_frame_witness:
  "\<exists>w1 w2. run_event 5000 (dispatch example_switch_env (0 + 2)) (\<lambda>_ _ _. ret ()) Vde2_conn_read_data_event 8 30
      example_switch = Inr ((), w1) \<and>
    run_event 5000 (dispatch example_switch_env (0 + 2)) (\<lambda>_ _ _. ret ()) Vde2_conn_write_data_event 8 31 w1 =
      Inr ((), w2) \<and>
    trace w2 = [Sys_recvfrom 8 1518, Sys_sendto 9 ''ABC'' zero_sa, Sys_sendto 9 (replicate 20 CHR ''x'') zero_sa]"
proof -
  have p: "20 \<in> set (ports \<lparr>hub_component = 50, ports = [21, 20]\<rparr>)" "21 \<in> set (ports \<lparr>hub_component = 50, ports = [21, 20]\<rparr>)"
    "(21 :: nat) \<noteq> 20" "(4192 :: nat) < 5000" "14 \<le> length (replicate 20 CHR ''x'')"
    "length (replicate 20 CHR ''x'') \<le> 1518"
    by simp_all
  from hub_forwards_frame [OF example_switch_env_facts(1,2) example_switch_facts(1,2) p(1-3) example_switch_facts(3,4,7)
      p(4-6) example_switch_env_facts(5,4), where ext = "\<lambda>_ _ _. ret ()" and fd = 8 and d = 0]
  show ?thesis using example_switch_facts(5,6,8-10) by (simp add: v2_peer_def) blast
qed

end
