(* ===== verification/Handshake.thy ===== *)
theory Handshake
  imports HubSystem
begin

text \<open>
  How a peer becomes a port: the last event of the handshake of the vde2 transport
  (\<open>vde2_srv_send_request\<close>) creates and names the datagram socket, answers the peer and
  hands the connection to the connection manager, which hands it to its engine, here a hub.
  Whatever the system calls answer, the event ends with the connection a port of the hub or
  with the connection closed and released, and the hub's invariant holds.
\<close>

section \<open>The setting\<close>

text \<open>
  A transport component whose accept callback is that of a connection manager, which serves
  the hub \<open>component\<close> without remote authorization.
\<close>

definition serves_hub :: "world \<Rightarrow> ptr \<Rightarrow> ptr \<Rightarrow> bool" where
  "serves_hub w transport component \<longleftrightarrow> transport \<noteq> NULL \<and> component \<noteq> NULL \<and> brk w \<noteq> NULL \<and>
     (\<forall>p. brk w \<le> p \<longrightarrow> w_pc w p = None) \<and>
     (\<exists>kt kc g m. w_comp w transport = Some kt \<and> comp_kind kt = VDE_TRANSPORT \<and>
        c_cm_accept_cb kt = Some Conn_manager_accept_cb \<and> ctx_events w (comp_ctx kt) \<and>
        cm_cb_arg kt \<noteq> NULL \<and> w_comp w (cm_cb_arg kt) = Some kc \<and> w_cm w (comp_priv kc) = Some m \<and>
        cm_engine m = component \<and> do_remote_authorization m = 0 \<and> w_tr w (comp_priv kt) \<noteq> None \<and>
        w_comp w component = Some g \<and> comp_kind g = VDE_ENGINE \<and> c_eng_new_conn g = Some Hub_engine_newconn)"

text \<open>A connection in the handshake, not yet a port.\<close>

definition greeting :: "world \<Rightarrow> ptr \<Rightarrow> ptr \<Rightarrow> ptr \<Rightarrow> vde_connection \<Rightarrow> vde2_conn \<Rightarrow> bool" where
  "greeting w hub conn arg c v \<longleftrightarrow> v2_at w conn c v \<and> v2_queue_ok v \<and> be_priv c = arg \<and> ctl_ev v \<noteq> NULL \<and>
     max_pload c = of_nat SIZEOF_ETH_FRAME \<and> (\<forall>h. w_hub w hub = Some h \<longrightarrow> conn \<notin> set (ports h))"

text \<open>
  The states of the event: only the connection's and the transport's private records differ;
  \<open>out\<close> tells whether the connection has left the transport's list of pending connections.
\<close>

definition tr_step :: "bool \<Rightarrow> ptr \<Rightarrow> vde2_tr \<Rightarrow> vde2_tr \<Rightarrow> bool" where
  "tr_step out arg t t1 \<longleftrightarrow> listen_event t1 = listen_event t \<and>
     tr_pending_conns t1 = (if out then remove1 arg (tr_pending_conns t) else tr_pending_conns t)"

definition hs :: "bool \<Rightarrow> ptr \<Rightarrow> ptr \<Rightarrow> vde2_conn \<Rightarrow> world \<Rightarrow> world \<Rightarrow> bool" where
  "hs out tr arg v w w1 \<longleftrightarrow> w_conn w1 = w_conn w \<and> w_hub w1 = w_hub w \<and> w_comp w1 = w_comp w \<and>
     w_signal w1 = w_signal w \<and> w_ctx w1 = w_ctx w \<and> w_cm w1 = w_cm w \<and> w_pc w1 = w_pc w \<and> brk w \<le> brk w1 \<and>
     (\<exists>t t1. w_tr w tr = Some t \<and> w_tr w1 = (w_tr w)(tr \<mapsto> t1) \<and> tr_step out arg t t1) \<and>
     (\<exists>v1. w_v2c w1 = (w_v2c w)(arg \<mapsto> v1) \<and> v2_conn v1 = v2_conn v \<and> v2_transport v1 = v2_transport v \<and>
       pkt_queue v1 = pkt_queue v \<and> data_ev_wr v1 = data_ev_wr v)"

text \<open>What such an event leaves alone, the hub aside.\<close>

definition aside :: "bool \<Rightarrow> ptr \<Rightarrow> ptr \<Rightarrow> ptr \<Rightarrow> world \<Rightarrow> world \<Rightarrow> bool" where
  "aside out tr conn arg w w1 \<longleftrightarrow> w_comp w1 = w_comp w \<and> w_signal w1 = w_signal w \<and> w_ctx w1 = w_ctx w \<and>
     w_cm w1 = w_cm w \<and> w_pc w1 = w_pc w \<and> brk w \<le> brk w1 \<and>
     (\<exists>t t1. w_tr w tr = Some t \<and> w_tr w1 tr = Some t1 \<and> tr_step out arg t t1) \<and>
     (\<forall>q. q \<noteq> conn \<longrightarrow> w_conn w1 q = w_conn w q) \<and> (\<forall>a. a \<noteq> arg \<longrightarrow> w_v2c w1 a = w_v2c w a)"

lemma hs_start: "w_v2c w arg = Some v \<Longrightarrow> w_tr w tr = Some t \<Longrightarrow> hs False tr arg v w w"
  by (auto simp: hs_def tr_step_def fun_upd_idem intro!: exI [of _ v] exI [of _ t])

lemma hs_ctx: "hs out tr arg v w w1 \<Longrightarrow> ctx_events w1 = ctx_events w"
  by (rule ctx_events_cong) (simp add: hs_def)

lemma hs_aside: "hs out tr arg v w w1 \<Longrightarrow> aside out tr conn arg w w1"
  by (auto simp: hs_def aside_def)

lemma hs_facts:
  assumes "hs out tr (be_priv c) v w w1" and "v2_at w conn c v" and "v2_queue_ok v"
  shows "\<exists>v1. v2_at w1 conn c v1 \<and> v2_queue_ok v1" and "ctx_events w1 = ctx_events w"
    and "\<And>x. ctx_events w1 x = ctx_events w x"
proof -
  show ctx: "ctx_events w1 = ctx_events w" by (rule hs_ctx [OF assms(1)])
  then show "\<And>x. ctx_events w1 x = ctx_events w x" by simp
  obtain v1 where "w_v2c w1 = (w_v2c w)(be_priv c \<mapsto> v1)" "v2_conn v1 = v2_conn v"
    "pkt_queue v1 = pkt_queue v" "data_ev_wr v1 = data_ev_wr v" "w_conn w1 = w_conn w"
    using assms(1) by (auto simp: hs_def)
  with assms(2,3) ctx have "v2_at w1 conn c v1" "v2_queue_ok v1" by (simp_all add: v2_at_def v2_queue_ok_def)
  then show "\<exists>v1. v2_at w1 conn c v1 \<and> v2_queue_ok v1" by blast
qed

text \<open>Such a state leaves the hub alone.\<close>

lemma hs_elsewhere:
  assumes "hs out tr (be_priv c) v w w1" and "hub_sys component hub w" and "greeting w hub conn (be_priv c) c v"
  shows "elsewhere component hub w w1"
proof -
  have own: "w_conn w1 p = Some d \<and> w_v2c w1 (be_priv d) = w_v2c w (be_priv d)"
    if h: "w_hub w hub = Some h" and p: "p \<in> set (ports h)" and d: "w_conn w p = Some d" for h p d
  proof -
    have "v2_port w hub p" using assms(2) h p by (auto simp: hub_sys_def)
    then obtain x where x: "v2_at w p d x" using d by (auto simp: v2_port_def v2_at_def)
    have "p \<noteq> conn" using assms(3) h p by (auto simp: greeting_def)
    moreover have "v2_at w conn c v" using assms(3) by (simp add: greeting_def)
    ultimately have "be_priv d \<noteq> be_priv c" using v2_at_unique [OF x] by metis
    with assms(1) d show ?thesis by (auto simp: hs_def)
  qed
  then show ?thesis using assms(1) hs_ctx [OF assms(1)] by (simp add: elsewhere_def hs_def)
qed

section \<open>Rules\<close>

lemma wp_hs_syscall:
  assumes "hs out tr arg v w w1"
    and "\<And>w2. hs out tr arg v w w2 \<Longrightarrow> (retval (sys E (trace w1) c) < 0 \<Longrightarrow> errno w2 = reterrno (sys E (trace w1) c)) \<Longrightarrow>
      Q (sys E (trace w1) c) w2"
  shows "wp (syscall E c) Q w1"
proof -
  have "hs out tr arg v w (w1\<lparr>trace := tr', errno := e\<rparr>)" for tr' e using assms(1) by (simp add: hs_def)
  then show ?thesis by (intro wp_Inr [OF syscall_apply] assms(2)) simp_all
qed

lemma wp_hs_v2c:
  assumes "hs out tr arg v w w1" and "\<And>x. v2_conn (f x) = v2_conn x \<and> v2_transport (f x) = v2_transport x \<and> pkt_queue (f x) = pkt_queue x \<and> data_ev_wr (f x) = data_ev_wr x"
    and "\<And>w2. hs out tr arg v w w2 \<Longrightarrow> Q () w2"
  shows "wp (upd_v2c arg f) Q w1"
proof -
  obtain v1 where v1: "w_v2c w1 = (w_v2c w)(arg \<mapsto> v1)" "v2_conn v1 = v2_conn v"
    "v2_transport v1 = v2_transport v" "pkt_queue v1 = pkt_queue v" "data_ev_wr v1 = data_ev_wr v"
    using assms(1) by (auto simp: hs_def)
  have "hs out tr arg v w (w1\<lparr>w_v2c := (w_v2c w1)(arg \<mapsto> f v1)\<rparr>)"
    using assms(1,2) v1 by (auto simp: hs_def)
  with assms(3) v1(1) show ?thesis by (intro wp_store [where h = w_v2c and x = v1]) simp_all
qed

lemma wp_hs_tr:
  assumes "hs False tr arg v w w1" and "\<And>t. tr_step True arg t (f t)" and "\<And>w2. hs True tr arg v w w2 \<Longrightarrow> Q () w2"
  shows "wp (upd_tr tr f) Q w1"
proof -
  obtain t t1 where t: "w_tr w tr = Some t" "w_tr w1 = (w_tr w)(tr \<mapsto> t1)" "tr_step False arg t t1"
    using assms(1) by (auto simp: hs_def)
  have "tr_step True arg t (f t1)" using t(3) assms(2) [of t1] by (simp add: tr_step_def)
  then have "hs True tr arg v w (w1\<lparr>w_tr := (w_tr w1)(tr \<mapsto> f t1)\<rparr>)" using assms(1) t(1,2) unfolding hs_def by auto
  with assms(3) t(2) show ?thesis by (intro wp_store [where h = w_tr and x = t1]) simp_all
qed

lemma wp_hs_read_tr:
  assumes "hs out tr arg v w w1" and "\<And>t. Q t w1"
  shows "wp (deref w_tr tr) Q w1"
  using assms by (auto simp: hs_def wp_def)

lemma wp_hs_event_add:
  assumes "hs out tr arg v w w1" and "events_ok E" and "ctx_events w ctx" and "\<And>p. p \<noteq> NULL \<Longrightarrow> Q p w1"
  shows "wp (vde_context_event_add E ctx fd ev to cb a) Q w1"
proof -
  have "ctx_events w1 ctx" using assms(1,3) by (auto simp: hs_def ctx_events_def)
  then obtain p where "p \<noteq> NULL" "vde_context_event_add E ctx fd ev to cb a w1 = Inr (p, w1)"
    using event_add_ok [OF assms(2)] by blast
  with assms(4) show ?thesis by (auto simp: wp_def)
qed

text \<open>How the event ends: with a new port, or with the connection gone.\<close>

definition joined :: "ptr \<Rightarrow> ptr \<Rightarrow> hub_engine \<Rightarrow> ptr \<Rightarrow> ptr \<Rightarrow> ptr \<Rightarrow> world \<Rightarrow> world \<Rightarrow> bool" where
  "joined component hub h tr conn arg w w' \<longleftrightarrow> hub_sys component hub w' \<and>
     w_hub w' hub = Some (h\<lparr>ports := conn # ports h\<rparr>) \<and> aside True tr conn arg w w' \<and>
     dom (w_conn w') = dom (w_conn w) \<and> dom (w_v2c w') = dom (w_v2c w) \<and> v2_waiting w' conn = v2_waiting w conn"

definition dropped :: "ptr \<Rightarrow> ptr \<Rightarrow> hub_engine \<Rightarrow> ptr \<Rightarrow> ptr \<Rightarrow> ptr \<Rightarrow> world \<Rightarrow> world \<Rightarrow> bool" where
  "dropped component hub h tr conn arg w w' \<longleftrightarrow> hub_sys component hub w' \<and> w_hub w' hub = Some h \<and>
     w_conn w' conn = None \<and> w_v2c w' arg = None \<and> aside True tr conn arg w w'"

lemma wp_hs_close:
  assumes "hs True tr (be_priv c) v w w1" and "hub_env E" and "hub_sys component hub w" and "w_hub w hub = Some h"
    and "greeting w hub conn (be_priv c) c v"
  shows "wp (close_conn E conn) (\<lambda>_. dropped component hub h tr conn (be_priv c) w) w1"
proof -
  have at: "v2_at w conn c v" "v2_queue_ok v" and fresh: "conn \<notin> set (ports h)"
    using assms(4,5) by (simp_all add: greeting_def)
  have sys1: "hub_sys component hub w1"
    using hub_sys_elsewhere [OF hs_elsewhere [OF assms(1,3,5)] assms(3)] .
  obtain v1 where v1: "v2_at w1 conn c v1" using hs_facts(1) [OF assms(1) at] by blast
  obtain X where X: "call_be_close E Vde2_conn_close = vde2_conn_close X" "events_ok X"
    using assms(2) by (auto simp: hub_env_def)
  obtain e where e: "close_conn E conn w1 = Inr ((), w1\<lparr>trace := trace w1 @ close_calls v1, errno := e,
      w_v2c := (w_v2c w1)(be_priv c := None), w_conn := (w_conn w1)(conn := None)\<rparr>)" (is "_ = Inr ((), ?w')")
    using close_conn_eval [OF v1 X] by blast
  have h1: "w_hub w1 hub = Some h" using assms(1,4) by (simp add: hs_def)
  have "remove1 conn (ports h) = ports h" using fresh by (simp add: remove1_idem)
  then have "hub_sys component hub ?w'"
    by (intro hub_sys_drop [OF sys1 h1 v1]) (simp_all add: same_setup_def h1)
  moreover have "aside True tr conn (be_priv c) w ?w'"
    using hs_aside [OF assms(1), of conn] by (simp add: aside_def)
  ultimately show ?thesis using e h1 by (simp add: wp_def dropped_def)
qed

lemma hub_sys_pending:
  "hub_sys component hub w \<Longrightarrow> hub_sys component hub (w\<lparr>brk := b, w_cm := m, w_pc := p\<rparr>)"
  "hub_sys component hub w \<Longrightarrow> hub_sys component hub (w\<lparr>w_cm := m, w_pc := p\<rparr>)"
  by (rule hub_sys_elsewhere [rotated], assumption, simp add: elsewhere_def)+

text \<open>The connection manager's callback makes the connection a port.\<close>

lemma accept_joins:
  assumes "hub_sys component hub w" and "w_hub w hub = Some h" and "v2_at w conn c v" and "v2_queue_ok v"
    and "max_pload c = of_nat SIZEOF_ETH_FRAME" and "conn \<notin> set (ports h)"
    and "cm_ready E w manager cm m Hub_engine_newconn" and "cm_engine m = component" and "do_remote_authorization m = 0"
    and "w_pc w (brk w) = None" and "\<not> malloc_null E (brk w)"
    and "call_eng_new_conn E Hub_engine_newconn = hub_engine_newconn Y"
  shows "\<exists>w'. conn_manager_accept_cb E conn manager w = Inr ((), w') \<and> hub_sys component hub w' \<and>
    w_hub w' hub = Some (h\<lparr>ports := conn # ports h\<rparr>) \<and> same_setup w w' \<and> w_v2c w' = w_v2c w \<and>
    w_conn w' = (w_conn w)(conn \<mapsto> hub_conn hub c)"
proof -
  let ?w1 = "w\<lparr>brk := Suc (brk w), w_cm := (w_cm w)(cm \<mapsto> m\<lparr>pending_conns := brk w # pending_conns m\<rparr>),
    w_pc := (w_pc w)(brk w \<mapsto> zero_pending_conn\<lparr>pc_conn := conn, pc_state := AUTHORIZED\<rparr>)\<rparr>"
  let ?w2 = "?w1\<lparr>w_hub := (w_hub ?w1)(hub \<mapsto> h\<lparr>ports := conn # ports h\<rparr>), w_conn := (w_conn ?w1)(conn \<mapsto> hub_conn hub c)\<rparr>"
  obtain k where k: "w_comp ?w1 component = Some k" "component \<noteq> NULL" "comp_priv k = hub"
    using assms(1) by (auto simp: hub_sys_def no_listeners_def)
  have c: "conn \<noteq> NULL" "w_conn ?w1 conn = Some c" "w_hub ?w1 hub = Some h" "v2_at ?w1 conn c v"
    using assms(2,3) by (simp_all add: v2_at_def ctx_events_def)
  have sys1: "hub_sys component hub ?w1" using hub_sys_pending(1) [OF assms(1)] .
  have "no_listeners ?w2 component" using assms(1) by (simp add: hub_sys_def no_listeners_def)
  then have run: "hub_engine_newconn Y component conn NULL ?w1 = Inr (0, ?w2)"
    using hub_newconn_eval [OF k c(3,2,1), of Y NULL] assms(5) raise_quiet by (simp add: size_defs)
  with join [OF sys1 c(3,4) assms(4,6), of Y NULL] have "hub_sys component hub ?w2" by auto
  then have "hub_sys component hub (?w2\<lparr>w_cm := w_cm w, w_pc := w_pc w\<rparr>)" by (rule hub_sys_pending(2))
  moreover have "conn_manager_accept_cb E conn manager w = Inr ((), ?w2\<lparr>w_cm := w_cm w, w_pc := w_pc w\<rparr>)"
    by (rule accept_cb_run [OF assms(7,11) c(1) assms(9,10)]) (use run assms(8,12) in simp_all)
  ultimately show ?thesis by (intro exI) (auto simp: same_setup_def)
qed

lemma wp_hs_accept:
  assumes "hs True tr (be_priv c) v w w1" and "hub_sys component hub w" and "w_hub w hub = Some h"
    and "greeting w hub conn (be_priv c) c v" and "serves_hub w transport component"
    and "call_cm_accept_cb E Conn_manager_accept_cb = conn_manager_accept_cb X" and "\<forall>n. \<not> malloc_null X n"
    and "call_eng_new_conn X Hub_engine_newconn = hub_engine_newconn Y"
  shows "wp (vde_transport_call_cm_accept_cb E transport conn) (\<lambda>_. joined component hub h tr conn (be_priv c) w) w1"
proof -
  obtain kt kc g m where k: "transport \<noteq> NULL" "component \<noteq> NULL" "w_comp w transport = Some kt"
    "comp_kind kt = VDE_TRANSPORT" "c_cm_accept_cb kt = Some Conn_manager_accept_cb" "cm_cb_arg kt \<noteq> NULL"
    "w_comp w (cm_cb_arg kt) = Some kc" "w_cm w (comp_priv kc) = Some m" "cm_engine m = component"
    "do_remote_authorization m = 0" "w_comp w component = Some g" "comp_kind g = VDE_ENGINE"
    "c_eng_new_conn g = Some Hub_engine_newconn" "brk w \<noteq> NULL" "\<And>p. brk w \<le> p \<Longrightarrow> w_pc w p = None"
    using assms(5) by (auto simp: serves_hub_def)
  have c: "v2_at w conn c v" "v2_queue_ok v" "conn \<noteq> NULL" "max_pload c = of_nat SIZEOF_ETH_FRAME" "conn \<notin> set (ports h)"
    using assms(3,4) by (simp_all add: greeting_def v2_at_def)
  have sys1: "hub_sys component hub w1"
    using hub_sys_elsewhere [OF hs_elsewhere [OF assms(1,2,4)] assms(2)] .
  obtain v1 where v1: "v2_at w1 conn c v1" "v2_queue_ok v1" using hs_facts(1) [OF assms(1) c(1,2)] by blast
  have same: "w_comp w1 = w_comp w" "w_cm w1 = w_cm w" "w_pc w1 = w_pc w" "brk w \<le> brk w1" "w_hub w1 = w_hub w"
    using assms(1) by (simp_all add: hs_def)
  have ready: "cm_ready X w1 (cm_cb_arg kt) (comp_priv kc) m Hub_engine_newconn"
    using k(1-14) same by (simp add: cm_ready_def)
  have h1: "w_hub w1 hub = Some h" "w_pc w1 (brk w1) = None" "\<not> malloc_null X (brk w1)"
    using same assms(3,7) k(15) by simp_all
  obtain w' where w': "conn_manager_accept_cb X conn (cm_cb_arg kt) w1 = Inr ((), w')" "hub_sys component hub w'"
    "w_hub w' hub = Some (h\<lparr>ports := conn # ports h\<rparr>)" "same_setup w1 w'" "w_v2c w' = w_v2c w1"
    "w_conn w' = (w_conn w1)(conn \<mapsto> hub_conn hub c)"
    using accept_joins [OF sys1 h1(1) v1 c(4,5) ready k(9,10) h1(2,3) assms(8)] by blast
  have "vde_transport_call_cm_accept_cb E transport conn w1 = Inr ((), w')"
    using k(1-6) same(1) c(3) assms(6) w'(1) by (simp add: vde_transport_call_cm_accept_cb_def mon)
  moreover have "aside True tr conn (be_priv c) w w'"
    using hs_aside [OF assms(1), of conn] w'(4-6) by (auto simp: aside_def same_setup_def)
  moreover have "dom (w_conn w') = dom (w_conn w)" "dom (w_v2c w') = dom (w_v2c w)"
    using assms(1) w'(5,6) c(1) by (auto simp: hs_def v2_at_def split: if_splits)
  moreover have "pkt_queue (the (w_v2c w1 (be_priv c))) = pkt_queue v" using assms(1) by (auto simp: hs_def)
  then have "v2_waiting w' conn = v2_waiting w conn"
    using w'(5,6) by (simp add: v2_waiting_def v2_rec_eq [OF c(1)]) (simp add: v2_rec_def hub_conn_def)
  ultimately show ?thesis using w'(2,3) by (simp add: wp_def joined_def)
qed

section \<open>The event\<close>

text \<open>
  The event up to its two ends: \<open>Q\<close> holds at the end if it holds after closing, wherever a
  call has failed, and after the accept callback.
\<close>

definition socket_calls_ok :: "env \<Rightarrow> bool" where
  "socket_calls_ok E \<longleftrightarrow> (\<forall>tr. 0 \<le> retval (sys E tr Sys_socket_dgram) \<and>
     (\<forall>fd. 0 \<le> retval (sys E tr (Sys_fcntl_nonblock fd))) \<and>
     (\<forall>p. 0 \<le> retval (sys E tr (Sys_unlink p)) \<or> reterrno (sys E tr (Sys_unlink p)) = ENOENT) \<and>
     (\<forall>fd sa. 0 \<le> retval (sys E tr (Sys_bind fd sa))) \<and> (\<forall>fd sa. retval (sys E tr (Sys_write fd sa)) = 110))"

lemma socket_calls_fail:
  "retval (sys E tr Sys_socket_dgram) < 0 \<Longrightarrow> \<not> socket_calls_ok E"
  "retval (sys E tr (Sys_fcntl_nonblock fd)) < 0 \<Longrightarrow> \<not> socket_calls_ok E"
  "retval (sys E tr (Sys_bind fd sa)) < 0 \<Longrightarrow> \<not> socket_calls_ok E"
  "retval (sys E tr (Sys_write fd sa)) \<noteq> 110 \<Longrightarrow> \<not> socket_calls_ok E"
  "retval (sys E tr (Sys_unlink p)) < 0 \<and> e \<noteq> ENOENT \<Longrightarrow>
    (retval (sys E tr (Sys_unlink p)) < 0 \<Longrightarrow> e = reterrno (sys E tr (Sys_unlink p))) \<Longrightarrow> \<not> socket_calls_ok E"
  by (auto simp: socket_calls_ok_def not_le intro!: exI [of _ tr])

lemma srv_send_request_ends:
  assumes "hub_env E" and "hub_sys component hub w" and "w_hub w hub = Some h"
    and "greeting w hub conn (be_priv c) c v" and "serves_hub w (v2_transport v) component"
    and "call_cm_accept_cb E Conn_manager_accept_cb = conn_manager_accept_cb X" and "\<forall>n. \<not> malloc_null X n"
    and "call_eng_new_conn X Hub_engine_newconn = hub_engine_newconn Y"
    and "w_comp w (v2_transport v) = Some kt" and "comp_priv kt = tr"
  shows "wp (vde2_srv_send_request E (be_priv c)) (\<lambda>_ w'. joined component hub h tr conn (be_priv c) w w' \<or>
    \<not> socket_calls_ok E \<and> dropped component hub h tr conn (be_priv c) w w') w" (is "wp _ ?Q w")
proof -
  have kt: "v2_transport v \<noteq> NULL" "w_comp w (v2_transport v) = Some kt" "ctx_events w (comp_ctx kt)"
    using assms(5,9) by (auto simp: serves_hub_def)
  obtain t where t: "w_tr w tr = Some t" using assms(5,9,10) by (auto simp: serves_hub_def)
  have v: "w_v2c w (be_priv c) = Some v" "v2_conn v = conn" "ctl_ev v \<noteq> NULL"
    using assms(4) by (simp_all add: greeting_def v2_at_def)
  have ev: "events_ok E" using assms(1) by (simp add: hub_env_def)
  let ?hs = "\<lambda>out. hs out tr (be_priv c) v w"
  have start: "?hs False w" by (rule hs_start [OF v(1) t])
  have close: "wp (close_conn E conn) ?Q w1" if "?hs True w1" "\<not> socket_calls_ok E" for w1
    by (rule wp_mono [OF wp_hs_close [OF that(1) assms(1-4)]]) (use that(2) in simp)
  have accept: "wp (vde_transport_call_cm_accept_cb E (v2_transport v) conn) ?Q w1" if "?hs True w1" for w1
    by (rule wp_mono [OF wp_hs_accept [OF that assms(2-8)]]) simp
  note step = wp_mbind wp_if wp_gets wp_hs_syscall [where w = w and tr = tr and arg = "be_priv c" and v = v]
    wp_hs_v2c [where w = w and tr = tr and v = v] wp_hs_tr [where w = w and arg = "be_priv c" and v = v]
    wp_hs_read_tr [where w = w and arg = "be_priv c" and v = v]
    wp_hs_event_add [where w = w and tr = tr and arg = "be_priv c" and v = v, OF _ ev kt(3)]
  show ?thesis
    unfolding vde2_srv_send_request_def Let_def
    apply (rule wp_mbind, rule wp_deref [where h = w_v2c and x = v, OF v(1)])
    apply (rule wp_mbind, rule wp_Inr, rule comp_getters(1) [OF kt(2,1)])
    apply (rule wp_mbind, rule wp_Inr, rule comp_getters(2) [OF kt(2,1)])
    apply (rule wp_mbind, rule wp_Inr, rule event_del_ok [OF ev kt(3) v(3)])
    unfolding v(2) assms(10)
    by (intro step) (assumption | erule socket_calls_fail | rule start close accept | simp add: tr_step_def assms(10))+
qed

text \<open>The handshake's last event, across transport, connection manager and engine. Whatever the system
  calls answer, it runs to its end and keeps the hub's invariant; if the calls on the new datagram
  socket succeed, the connection has become the first port of the hub, and otherwise it may
  instead have been closed and released with the hub's ports unchanged.\<close>

theorem handshake_joins_hub:
  assumes "events_ok X" and "\<And>k. \<not> malloc_null X k" and "hub_sys component hub w" and "w_hub w hub = Some h"
    and "greeting w hub conn arg c v" and "serves_hub w (v2_transport v) component"
  shows "\<exists>w'. run_event n (dispatch X (d + 2)) ext Vde2_srv_send_request fd arg w = Inr ((), w') \<and>
    hub_sys component hub w' \<and>
    (w_hub w' hub = Some (h\<lparr>ports := conn # ports h\<rparr>) \<or>
     \<not> socket_calls_ok X \<and> w_hub w' hub = Some h \<and> w_conn w' conn = None)"
proof -
  let ?E = "dispatch X (d + 2)"
  have arg: "be_priv c = arg" using assms(5) by (simp add: greeting_def)
  have g: "greeting w hub conn (be_priv c) c v" using assms(5) arg by simp
  obtain kt where kt: "w_comp w (v2_transport v) = Some kt" using assms(6) by (auto simp: serves_hub_def)
  have "wp (vde2_srv_send_request ?E (be_priv c)) (\<lambda>_ w'. joined component hub h (comp_priv kt) conn (be_priv c) w w' \<or>
      \<not> socket_calls_ok ?E \<and> dropped component hub h (comp_priv kt) conn (be_priv c) w w') w"
    by (rule srv_send_request_ends [OF hub_env_dispatch [OF assms(1,2)] assms(3,4) g assms(6),
          where X = "dispatch X (Suc d)" and Y = "dispatch X d"])
      (use assms(2) kt in simp_all)
  moreover have "socket_calls_ok ?E = socket_calls_ok X" by (simp add: socket_calls_ok_def)
  ultimately show ?thesis
    unfolding arg wp_def run_event_def joined_def dropped_def by auto
qed

text \<open>The switch of \<open>HubSystem\<close> with a third connection that has sent its request.\<close>

definition example_greet_env :: env where
  "example_greet_env = example_switch_env\<lparr>sys := (\<lambda>tr c. \<lparr>retval = (case c of Sys_write fd sa \<Rightarrow> 110 | _ \<Rightarrow> 0),
     reterrno = 0, retbytes = []\<rparr>)\<rparr>"

definition example_greet_conn :: vde_connection where
  "example_greet_conn = example_v2_connection\<lparr>be_priv := 32, read_cb := None, error_cb := None, cb_priv := NULL\<rparr>"

definition example_greet_v2 :: vde2_conn where
  "example_greet_v2 = zero_vde2_conn\<lparr>ctl_fd := 10, ctl_ev := 77, v2_conn := 22, v2_transport := 51\<rparr>"

definition example_greeting :: world where
  "example_greeting = example_switch\<lparr>
     w_comp := [50 \<mapsto> zero_component\<lparr>comp_priv := 40, c_eng_new_conn := Some Hub_engine_newconn\<rparr>,
       51 \<mapsto> zero_component\<lparr>comp_kind := VDE_TRANSPORT, comp_ctx := 3, comp_priv := 60,
         c_cm_accept_cb := Some Conn_manager_accept_cb, cm_cb_arg := 52\<rparr>,
       52 \<mapsto> zero_component\<lparr>comp_kind := VDE_CONNECTION_MANAGER, comp_priv := 61\<rparr>],
     w_tr := [60 \<mapsto> \<lparr>vdesock_dir = ''/tmp/vde'', listen_fd = 5, listen_event = 77, connections = 2, tr_pending_conns = [32]\<rparr>],
     w_cm := [61 \<mapsto> \<lparr>cm_transport = 51, cm_engine = 50, cm_component = 52, pending_conns = [], do_remote_authorization = 0\<rparr>],
     w_conn := (w_conn example_switch)(22 \<mapsto> example_greet_conn),
     w_v2c := (w_v2c example_switch)(32 \<mapsto> example_greet_v2)\<rparr>"

lemma example_greeting_port:
  assumes "v2_port example_switch 40 p" and "p \<noteq> 22" and "p = 20 \<or> p = 21"
  shows "v2_port example_greeting 40 p"
proof -
  obtain c v where c: "v2_at example_switch p c v" "v2_queue_ok v" "hub_calls 40 c"
    using assms(1) by (auto simp: v2_port_def)
  have "be_priv c \<noteq> 32"
    using c(1) assms(3) by (auto simp: v2_at_def example_switch_def example_v2_connection_def)
  then have "v2_at example_greeting p c v"
    using c(1) assms(2) by (simp add: v2_at_def example_greeting_def ctx_events_def)
  with c(2,3) show ?thesis by (auto simp: v2_port_def)
qed

lemma example_greeting_facts:
  "hub_sys 50 40 example_greeting" "w_hub example_greeting 40 = Some \<lparr>hub_component = 50, ports = [21, 20]\<rparr>"
  "greeting example_greeting 40 22 32 example_greet_conn example_greet_v2"
  "serves_hub example_greeting (v2_transport example_greet_v2) 50"
proof -
  show h: "w_hub example_greeting 40 = Some \<lparr>hub_component = 50, ports = [21, 20]\<rparr>"
    by (simp add: example_greeting_def example_switch_def)
  have "no_listeners example_greeting 50" "comp_priv (the (w_comp example_greeting 50)) = 40"
    by (simp_all add: no_listeners_def example_greeting_def zero_component_def)
  then show "hub_sys 50 40 example_greeting"
    using h example_greeting_port example_switch_ports by (simp add: hub_sys_def)
  have ctx: "ctx_events example_greeting 3"
    by (simp add: ctx_events_def example_greeting_def example_switch_def example_ctx_world_def example_context_def)
  show "greeting example_greeting 40 22 32 example_greet_conn example_greet_v2"
    using h ctx
    by (simp add: greeting_def v2_at_def v2_queue_ok_def example_greet_conn_def example_greet_v2_def size_defs
        example_v2_connection_def zero_vde2_conn_def)
      (simp add: example_greeting_def example_greet_conn_def example_greet_v2_def example_v2_connection_def zero_vde2_conn_def)
  show "serves_hub example_greeting (v2_transport example_greet_v2) 50"
    using ctx
    by (simp add: serves_hub_def example_greet_v2_def)
      (simp add: example_greeting_def example_switch_def example_ctx_world_def empty_world_def zero_component_def)
qed

theorem handshake_joins_hub_witness:
  "\<exists>w'. run_event 1 (dispatch example_greet_env (0 + 2)) (\<lambda>_ _ _. ret ()) Vde2_srv_send_request 10 32 example_greeting =
      Inr ((), w') \<and> w_hub w' 40 = Some \<lparr>hub_component = 50, ports = [22, 21, 20]\<rparr>"
proof -
  have "events_ok example_greet_env" "\<And>k. \<not> malloc_null example_greet_env k" "socket_calls_ok example_greet_env"
    using example_switch_env_facts(1,2) by (simp_all add: example_greet_env_def events_ok_def socket_calls_ok_def)
  with handshake_joins_hub [OF _ _ example_greeting_facts, of example_greet_env 1 0 "\<lambda>_ _ _. ret ()" 10]
  show ?thesis by auto
qed

end
