(* ===== verification/Switch.thy ===== *)
theory Switch
  imports Handshake
begin

text \<open>
  The switch from its first peer on: a listening vde2 transport, a connection manager and a
  hub. \<open>switch_inv\<close> extends the invariant of \<open>HubSystem\<close> by the connections in the handshake,
  and every event of the switch keeps it: a peer that connects, a request that arrives, the
  answer that makes the peer a port, and the events of the ports. In every state the switch
  can reach, no event faults.

  Of the peers it is assumed that the first bytes of a request arrive together: the transport
  does not check the number of bytes it has read before it looks at the path in the request
  (\<open>short_request_overruns\<close>).
\<close>

section \<open>The invariant\<close>

text \<open>A connection in the list of pending connections, not yet a port.\<close>

definition pending_ok :: "world \<Rightarrow> ptr \<Rightarrow> ptr \<Rightarrow> ptr \<Rightarrow> bool" where
  "pending_ok w transport hub arg \<longleftrightarrow> (\<exists>c v. v2_at w (v2_conn v) c v \<and> v2_queue_ok v \<and> be_priv c = arg \<and> pkt_queue v = [] \<and>
     v2_transport v = transport \<and> max_pload c = of_nat SIZEOF_ETH_FRAME \<and>
     (\<forall>h. w_hub w hub = Some h \<longrightarrow> v2_conn v \<notin> set (ports h)))"

definition heaps_fresh :: "world \<Rightarrow> bool" where
  "heaps_fresh w \<longleftrightarrow> (\<forall>p. brk w \<le> p \<longrightarrow> w_conn w p = None \<and> w_v2c w p = None)"

definition switch_inv :: "ptr \<Rightarrow> ptr \<Rightarrow> ptr \<Rightarrow> world \<Rightarrow> bool" where
  "switch_inv transport component hub w \<longleftrightarrow> hub_sys component hub w \<and> serves_hub w transport component \<and>
     heaps_fresh w \<and> (\<exists>kt t. w_comp w transport = Some kt \<and> w_tr w (comp_priv kt) = Some t \<and>
       listen_event t \<noteq> NULL \<and> distinct (tr_pending_conns t) \<and> (\<forall>a\<in>set (tr_pending_conns t). pending_ok w transport hub a))"

lemma pending_greeting:
  assumes "pending_ok w transport hub arg" and "w_v2c w arg = Some v" and "ctl_ev v \<noteq> NULL"
  shows "\<exists>c. greeting w hub (v2_conn v) arg c v \<and> be_priv c = arg \<and> v2_transport v = transport \<and> pkt_queue v = []"
  using assms unfolding pending_ok_def greeting_def by (auto simp: v2_at_def)

lemma serves_hub_keep:
  assumes "serves_hub w transport component" and "w_comp w' = w_comp w" and "w_ctx w' = w_ctx w"
    and "w_cm w' = w_cm w" and "w_pc w' = w_pc w" and "brk w \<le> brk w'"
    and "\<And>kt. w_comp w transport = Some kt \<Longrightarrow> w_tr w' (comp_priv kt) \<noteq> None"
  shows "serves_hub w' transport component"
proof -
  have "ctx_events w' x = ctx_events w x" for x using assms(3) by (simp add: ctx_events_def)
  with assms show ?thesis unfolding serves_hub_def by auto
qed

text \<open>The cases of the invariant's preservation, by what happens to the list of pending connections.\<close>

lemma switch_inv_keep:
  assumes "switch_inv transport component hub w" and "hub_sys component hub w'"
    and "w_comp w transport = Some kt" and "w_comp w' = w_comp w" and "w_ctx w' = w_ctx w"
    and "w_cm w' = w_cm w" and "w_pc w' = w_pc w" and "brk w \<le> brk w'" and "heaps_fresh w'"
    and "w_tr w' (comp_priv kt) = Some t'" and "listen_event t' \<noteq> NULL" and "distinct (tr_pending_conns t')"
    and "\<And>a. a \<in> set (tr_pending_conns t') \<Longrightarrow> pending_ok w' transport hub a"
  shows "switch_inv transport component hub w'"
proof -
  have "serves_hub w transport component" using assms(1) by (simp add: switch_inv_def)
  then have "serves_hub w' transport component"
    by (rule serves_hub_keep) (use assms(3-10) in simp_all)
  with assms(2-4,9-13) show ?thesis unfolding switch_inv_def by auto
qed

lemma pending_keep:
  assumes "pending_ok w transport hub a" and "w_hub w' hub = Some h'" and "w_hub w hub = Some h"
    and "\<And>c v. v2_at w (v2_conn v) c v \<Longrightarrow> v2_queue_ok v \<Longrightarrow> be_priv c = a \<Longrightarrow> v2_conn v \<notin> set (ports h) \<Longrightarrow>
      v2_at w' (v2_conn v) c v \<and> v2_conn v \<notin> set (ports h')"
  shows "pending_ok w' transport hub a"
proof -
  obtain c v where c: "v2_at w (v2_conn v) c v" "v2_queue_ok v" "be_priv c = a" "v2_conn v \<notin> set (ports h)"
    "v2_transport v = transport" "max_pload c = of_nat SIZEOF_ETH_FRAME" "pkt_queue v = []"
    using assms(1,3) unfolding pending_ok_def by blast
  with assms(2) assms(4) [OF c(1-4)] show ?thesis unfolding pending_ok_def by auto
qed

lemma heaps_fresh_keep:
  "heaps_fresh w \<Longrightarrow> brk w \<le> brk w' \<Longrightarrow> dom (w_conn w') \<subseteq> dom (w_conn w) \<Longrightarrow> dom (w_v2c w') \<subseteq> dom (w_v2c w) \<Longrightarrow>
    heaps_fresh w'"
  unfolding heaps_fresh_def by (meson domIff in_mono le_trans)

section \<open>Events of the ports\<close>

lemma switch_port_event:
  assumes "switch_inv transport component hub w" and "w_hub w hub = Some h" and "hub_sys component hub w'"
    and "spares hub (set (ports h)) w w'"
  shows "switch_inv transport component hub w'"
proof -
  obtain kt t where t: "w_comp w transport = Some kt" "w_tr w (comp_priv kt) = Some t"
    "distinct (tr_pending_conns t)" "\<And>a. a \<in> set (tr_pending_conns t) \<Longrightarrow> pending_ok w transport hub a"
    "heaps_fresh w" "listen_event t \<noteq> NULL"
    using assms(1) by (auto simp: switch_inv_def)
  have same: "same_setup w w'" and dom: "dom (w_conn w') \<subseteq> dom (w_conn w)" "dom (w_v2c w') \<subseteq> dom (w_v2c w)"
    using assms(4) by (simp_all add: spares_def)
  obtain h' where h': "w_hub w' hub = Some h'" "set (ports h') \<subseteq> set (ports h)"
    using assms(2,4) by (auto simp: spares_def)
  have brk: "brk w \<le> brk w'" using same by (simp add: same_setup_def)
  have "pending_ok w' transport hub a" if "a \<in> set (tr_pending_conns t)" for a
    by (rule pending_keep [OF t(4) [OF that] h'(1) assms(2)]) (use assms(4) h'(2) in \<open>auto simp: spares_def\<close>)
  then show ?thesis
    by (intro switch_inv_keep [OF assms(1,3) t(1), of t])
      (use same t brk heaps_fresh_keep [OF t(5) brk dom] in \<open>simp_all add: same_setup_def\<close>)
qed

section \<open>Events of the handshake\<close>

text \<open>A pending connection leaves the list, as a port or released; the others stay.\<close>

lemma switch_handshake_end:
  assumes "switch_inv transport component hub w" and "w_hub w hub = Some h" and "w_comp w transport = Some kt"
    and "v2_at w conn k v" and "hub_sys component hub w'" and "aside True (comp_priv kt) conn (be_priv k) w w'"
    and "dom (w_conn w') \<subseteq> dom (w_conn w)" and "dom (w_v2c w') \<subseteq> dom (w_v2c w)"
    and "w_hub w' hub = Some h'" and "set (ports h') \<subseteq> insert conn (set (ports h))"
  shows "switch_inv transport component hub w'"
proof -
  obtain t where t: "w_tr w (comp_priv kt) = Some t"
    "distinct (tr_pending_conns t)" "\<And>a. a \<in> set (tr_pending_conns t) \<Longrightarrow> pending_ok w transport hub a"
    "heaps_fresh w" "listen_event t \<noteq> NULL"
    using assms(1,3) by (auto simp: switch_inv_def)
  from assms(6) t(1) obtain t' where t': "w_tr w' (comp_priv kt) = Some t'"
    "tr_pending_conns t' = remove1 (be_priv k) (tr_pending_conns t)" "listen_event t' = listen_event t"
    by (auto simp: aside_def tr_step_def)
  have same: "w_comp w' = w_comp w" "w_ctx w' = w_ctx w" "w_cm w' = w_cm w" "w_pc w' = w_pc w" "brk w \<le> brk w'"
    "\<And>q. q \<noteq> conn \<Longrightarrow> w_conn w' q = w_conn w q" "\<And>a. a \<noteq> be_priv k \<Longrightarrow> w_v2c w' a = w_v2c w a"
    using assms(6) by (simp_all add: aside_def)
  have ctx: "ctx_events w' x = ctx_events w x" for x using same(2) by (simp add: ctx_events_def)
  have "pending_ok w' transport hub a" if a: "a \<in> set (tr_pending_conns t')" for a
  proof (rule pending_keep [OF t(3) assms(9,2)])
    show "a \<in> set (tr_pending_conns t)" using a t'(2) notin_set_remove1 by metis
    have ne: "a \<noteq> be_priv k" using a t'(2) t(2) by auto
    fix c x assume x: "v2_at w (v2_conn x) c x" "be_priv c = a" "v2_conn x \<notin> set (ports h)"
    have "v2_conn x \<noteq> conn" using x(1,2) ne assms(4) by (auto simp: v2_at_def)
    then show "v2_at w' (v2_conn x) c x \<and> v2_conn x \<notin> set (ports h')"
      using x same(6,7) ne ctx assms(10) by (auto simp: v2_at_def)
  qed
  then show ?thesis
    by (intro switch_inv_keep [OF assms(1,5,3) same(1-5) heaps_fresh_keep [OF t(4) same(5) assms(7,8)] t'(1)])
      (use t(2,5) t'(2,3) in simp_all)
qed

text \<open>A pending connection's own record changes.\<close>

lemma switch_handshake_wait:
  assumes "switch_inv transport component hub w" and "w_comp w transport = Some kt"
    and "greeting w hub conn (be_priv c) c v" and "v2_transport v = transport"
    and "hs False (comp_priv kt) (be_priv c) v w w'" and pend: "pending_ok w transport hub (be_priv c)"
  shows "switch_inv transport component hub w'"
proof -
  have sys: "hub_sys component hub w" using assms(1) by (simp add: switch_inv_def)
  then obtain h where h: "w_hub w hub = Some h" by (auto simp: hub_sys_def)
  obtain t where t: "w_tr w (comp_priv kt) = Some t"
    "distinct (tr_pending_conns t)" "\<And>a. a \<in> set (tr_pending_conns t) \<Longrightarrow> pending_ok w transport hub a"
    "heaps_fresh w" "listen_event t \<noteq> NULL"
    using assms(1,2) by (auto simp: switch_inv_def)
  have "w_v2c w (be_priv c) = Some v" using assms(3) by (simp add: greeting_def v2_at_def)
  with pend have empty: "pkt_queue v = []" by (auto simp: pending_ok_def v2_at_def)
  from assms(5) t(1) obtain t' v1 where t': "w_tr w' (comp_priv kt) = Some t'"
    "tr_pending_conns t' = tr_pending_conns t" "listen_event t' = listen_event t"
    and v1: "w_v2c w' = (w_v2c w)(be_priv c \<mapsto> v1)" "v2_conn v1 = v2_conn v" "v2_transport v1 = v2_transport v"
      "pkt_queue v1 = pkt_queue v" "data_ev_wr v1 = data_ev_wr v"
    unfolding hs_def tr_step_def by auto
  have same: "w_comp w' = w_comp w" "w_ctx w' = w_ctx w" "w_cm w' = w_cm w" "w_pc w' = w_pc w" "brk w \<le> brk w'"
    "w_conn w' = w_conn w" "w_hub w' = w_hub w"
    using assms(5) by (simp_all add: hs_def)
  have at: "v2_at w conn c v" "v2_queue_ok v" "max_pload c = of_nat SIZEOF_ETH_FRAME" "conn \<notin> set (ports h)"
    using assms(3) h by (simp_all add: greeting_def)
  have ctx: "ctx_events w' x = ctx_events w x" for x using same(2) by (simp add: ctx_events_def)
  have own: "pending_ok w' transport hub (be_priv c)"
    unfolding pending_ok_def
    by (rule exI [of _ c], rule exI [of _ v1])
      (use at v1 same(6,7) ctx h assms(4) empty in \<open>auto simp: v2_at_def v2_queue_ok_def\<close>)
  have h': "w_hub w' hub = Some h" using same(7) h by simp
  have "pending_ok w' transport hub a" if a: "a \<in> set (tr_pending_conns t')" for a
  proof (cases "a = be_priv c")
    case False
    show ?thesis
      by (rule pending_keep [OF t(3) h' h]) (use a t'(2) False v1(1) same(6) ctx in \<open>auto simp: v2_at_def\<close>)
  qed (use own in simp)
  moreover have "heaps_fresh w'"
    by (rule heaps_fresh_keep [OF t(4) same(5)]) (use same(6) v1(1) at(1) in \<open>auto simp: v2_at_def split: if_splits\<close>)
  ultimately show ?thesis
    using hub_sys_elsewhere [OF hs_elsewhere [OF assms(5) sys assms(3)] sys]
    by (intro switch_inv_keep [OF assms(1) _ assms(2) same(1-5) _ t'(1)]) (use t(2,5) t'(2,3) in simp_all)
qed

text \<open>
  What \<open>read\<close> gives on a control connection: at most what was asked for, and of a request at
  least the part before the path.
\<close>

definition requests_whole :: "env \<Rightarrow> bool" where
  "requests_whole E \<longleftrightarrow> (\<forall>tr fd. let r = sys E tr (Sys_read fd REQBUFLEN) in
     retval r \<le> int REQBUFLEN \<and> (0 < retval r \<longrightarrow> 14 \<le> retval r \<and> length (retbytes r) = nat (retval r)))"

lemma request_terminated:
  assumes "length bs = len" and "14 \<le> len" and "len \<le> REQBUFLEN"
  shows "\<exists>path. c_string ((take len bs @ map f [length (take len bs)..<REQBUFLEN + 1])[len := CHR 0x00]) 14 = Inr path"
proof -
  define b where "b = (take len bs @ map f [length (take len bs)..<REQBUFLEN + 1])[len := CHR 0x00]"
  have "length b = REQBUFLEN + 1" "b ! len = CHR 0x00" using assms by (simp_all add: b_def)
  then have "len - 14 < length (drop 14 b)" "drop 14 b ! (len - 14) = CHR 0x00" using assms(2,3) by simp_all
  then have "CHR 0x00 \<in> set (drop 14 b)" using nth_mem by metis
  then show ?thesis by (simp add: c_string_def b_def)
qed

lemma wp_lift_ex: "\<exists>a. r = Inr a \<Longrightarrow> (\<And>a. Q a w) \<Longrightarrow> wp (lift r) Q w"
  by (auto simp: wp_def)

lemma wp_hs_malloc:
  assumes "hs out tr arg v w w1" and "\<And>w2. hs out tr arg v w w2 \<Longrightarrow> Q (malloc_null E (brk w1)) w2"
  shows "wp (malloc_fails E) Q w1"
proof -
  have "hs out tr arg v w (w1\<lparr>brk := Suc (brk w1)\<rparr>)" using assms(1) by (auto simp: hs_def)
  with assms(2) show ?thesis by (intro wp_malloc_fails)
qed

lemma srv_get_request_ends:
  assumes "hub_env E" and "hub_sys component hub w" and "w_hub w hub = Some h"
    and "greeting w hub conn (be_priv c) c v" and "serves_hub w (v2_transport v) component"
    and "requests_whole E" and "w_comp w (v2_transport v) = Some kt" and "comp_priv kt = tr"
  shows "wp (vde2_srv_get_request E (be_priv c)) (\<lambda>_ w'. hs False tr (be_priv c) v w w' \<or>
    dropped component hub h tr conn (be_priv c) w w') w" (is "wp _ ?Q w")
proof -
  have kt: "v2_transport v \<noteq> NULL" "w_comp w (v2_transport v) = Some kt" "ctx_events w (comp_ctx kt)"
    using assms(5,7) by (auto simp: serves_hub_def)
  obtain t where t: "w_tr w tr = Some t" using assms(5,7,8) by (auto simp: serves_hub_def)
  have v: "w_v2c w (be_priv c) = Some v" "v2_conn v = conn" "ctl_ev v \<noteq> NULL"
    using assms(4) by (simp_all add: greeting_def v2_at_def)
  have ev: "events_ok E" using assms(1) by (simp add: hub_env_def)
  let ?hs = "\<lambda>out. hs out tr (be_priv c) v w"
  have start: "?hs False w" by (rule hs_start [OF v(1) t])
  have close: "wp (close_conn E conn) ?Q w1" if "?hs True w1" for w1
    by (rule wp_mono [OF wp_hs_close [OF that assms(1-4)]]) simp
  have whole: "\<exists>path. c_string ((take (nat (retval r)) (retbytes r) @
      map f [length (take (nat (retval r)) (retbytes r))..<REQBUFLEN + 1])[nat (retval r) := CHR 0x00]) 14 = Inr path"
    if "r = sys E tr' (Sys_read fd REQBUFLEN)" "\<not> retval r < 0" "retval r \<noteq> 0" for r tr' fd f
  proof (rule request_terminated)
    have "retval r \<le> int REQBUFLEN" "14 \<le> retval r" "length (retbytes r) = nat (retval r)"
      using that assms(6) by (simp_all add: requests_whole_def Let_def)
    then show "length (retbytes r) = nat (retval r)" "14 \<le> nat (retval r)" "nat (retval r) \<le> REQBUFLEN" by simp_all
  qed
  note step = wp_mbind wp_if wp_gets wp_ret wp_hs_syscall [where w = w and tr = tr and arg = "be_priv c" and v = v]
    wp_hs_v2c [where w = w and tr = tr and v = v] wp_hs_tr [where w = w and arg = "be_priv c" and v = v]
    wp_hs_event_add [where w = w and tr = tr and arg = "be_priv c" and v = v, OF _ ev kt(3)]
    wp_hs_malloc [where w = w and tr = tr and arg = "be_priv c" and v = v] wp_lift_ex
  show ?thesis
    unfolding vde2_srv_get_request_def Let_def
    apply (rule wp_mbind, rule wp_deref [where h = w_v2c and x = v, OF v(1)])
    apply (rule wp_mbind, rule wp_Inr, rule comp_getters(1) [OF kt(2,1)])
    apply (rule wp_mbind, rule wp_Inr, rule comp_getters(2) [OF kt(2,1)])
    apply (rule wp_mbind, rule wp_Inr, rule event_del_ok [OF ev kt(3) v(3)])
    unfolding v(2) assms(8)
    by (intro step) (assumption | rule start close whole refl | simp add: tr_step_def)+
qed

section \<open>A peer connects\<close>

definition new_peer :: "ptr \<Rightarrow> vde_component \<Rightarrow> world \<Rightarrow> world \<Rightarrow> bool" where
  "new_peer transport kt w w' \<longleftrightarrow> w_comp w' = w_comp w \<and> w_signal w' = w_signal w \<and> w_ctx w' = w_ctx w \<and>
     w_cm w' = w_cm w \<and> w_pc w' = w_pc w \<and> w_hub w' = w_hub w \<and> brk w' = Suc (Suc (brk w)) \<and>
     w_conn w' = (w_conn w)(brk w \<mapsto> zero_connection\<lparr>c_context := comp_ctx kt, max_pload := of_nat SIZEOF_ETH_FRAME,
       be_write := Some Vde2_conn_write, be_close := Some Vde2_conn_close, be_priv := Suc (brk w)\<rparr>) \<and>
     (\<forall>a. a \<noteq> Suc (brk w) \<longrightarrow> w_v2c w' a = w_v2c w a) \<and>
     (\<exists>v. w_v2c w' (Suc (brk w)) = Some v \<and> v2_conn v = brk w \<and> v2_transport v = transport \<and> pkt_queue v = [] \<and>
       ctl_ev v \<noteq> NULL \<and> remote_request v = None) \<and>
     w_tr w' (comp_priv kt) =
       map_option (\<lambda>t. t\<lparr>tr_pending_conns := Suc (brk w) # tr_pending_conns t\<rparr>) (w_tr w (comp_priv kt))"

lemma new_peer_old:
  assumes "new_peer transport kt w w'" and "heaps_fresh w" and "v2_at w q k x"
  shows "v2_at w' q k x"
proof -
  have "be_priv k \<noteq> Suc (brk w)" "q \<noteq> brk w" using assms(2,3) by (auto simp: v2_at_def heaps_fresh_def)
  with assms(1,3) show ?thesis by (simp add: v2_at_def new_peer_def ctx_events_def)
qed

lemma new_peer_elsewhere:
  assumes "new_peer transport kt w w'" and "heaps_fresh w" and "hub_sys component hub w"
  shows "elsewhere component hub w w'"
proof -
  obtain h where h: "w_hub w hub = Some h" "\<And>p. p \<in> set (ports h) \<Longrightarrow> v2_port w hub p"
    using assms(3) by (auto simp: hub_sys_def)
  have "w_conn w' p = Some c \<and> w_v2c w' (be_priv c) = w_v2c w (be_priv c)"
    if p: "p \<in> set (ports h)" and c: "w_conn w p = Some c" for p c
  proof -
    obtain x where "v2_at w p c x" using h(2) [OF p] c by (auto simp: v2_port_def v2_at_def)
    with new_peer_old [OF assms(1,2) this] show ?thesis by (simp add: v2_at_def)
  qed
  with assms(1) h(1) show ?thesis by (simp add: elsewhere_def new_peer_def ctx_events_def)
qed

lemma switch_new_peer:
  assumes "switch_inv transport component hub w" and "w_comp w transport = Some kt" and "new_peer transport kt w w'"
  shows "switch_inv transport component hub w'"
proof -
  have sys: "hub_sys component hub w" and fresh: "heaps_fresh w" and serves: "serves_hub w transport component"
    using assms(1) by (simp_all add: switch_inv_def)
  obtain h where h: "w_hub w hub = Some h" "\<And>p. p \<in> set (ports h) \<Longrightarrow> v2_port w hub p" using sys by (auto simp: hub_sys_def)
  obtain t where t: "w_tr w (comp_priv kt) = Some t" "distinct (tr_pending_conns t)"
    "\<And>a. a \<in> set (tr_pending_conns t) \<Longrightarrow> pending_ok w transport hub a" "listen_event t \<noteq> NULL"
    using assms(1,2) by (auto simp: switch_inv_def)
  let ?c = "zero_connection\<lparr>c_context := comp_ctx kt, max_pload := of_nat SIZEOF_ETH_FRAME,
    be_write := Some Vde2_conn_write, be_close := Some Vde2_conn_close, be_priv := Suc (brk w)\<rparr>"
  obtain v where new: "w_comp w' = w_comp w" "w_signal w' = w_signal w" "w_ctx w' = w_ctx w"
    "w_cm w' = w_cm w" "w_pc w' = w_pc w" "w_hub w' = w_hub w" "brk w' = Suc (Suc (brk w))"
    "w_conn w' = (w_conn w)(brk w \<mapsto> ?c)" "\<And>a. a \<noteq> Suc (brk w) \<Longrightarrow> w_v2c w' a = w_v2c w a"
    "w_tr w' (comp_priv kt) = Some (t\<lparr>tr_pending_conns := Suc (brk w) # tr_pending_conns t\<rparr>)"
    and v: "w_v2c w' (Suc (brk w)) = Some v" "v2_conn v = brk w" "v2_transport v = transport" "pkt_queue v = []"
    using assms(3) t(1) unfolding new_peer_def by auto
  have ctx: "ctx_events w' x = ctx_events w x" for x using new(3) by (simp add: ctx_events_def)
  have free: "w_conn w (brk w) = None" "w_v2c w (Suc (brk w)) = None" using fresh by (simp_all add: heaps_fresh_def)
  note old = new_peer_old [OF assms(3) fresh]
  have "elsewhere component hub w w'" by (rule new_peer_elsewhere [OF assms(3) fresh sys])
  then have sys': "hub_sys component hub w'" using hub_sys_elsewhere sys by blast
  have h': "w_hub w' hub = Some h" using new(6) h(1) by simp
  have port_old: "brk w \<notin> set (ports h)" using h(2) free(1) by (fastforce simp: v2_port_def v2_at_def)
  have pend_old: "Suc (brk w) \<notin> set (tr_pending_conns t)" using t(3) free(2) by (fastforce simp: pending_ok_def v2_at_def)
  have keep: "pending_ok w' transport hub a" if "a \<in> set (tr_pending_conns t)" for a
    by (rule pending_keep [OF t(3) [OF that] h' h(1)]) (use old in simp)
  have "brk w \<noteq> NULL" "ctx_events w (comp_ctx kt)" using serves assms(2) by (auto simp: serves_hub_def)
  then have "pending_ok w' transport hub (Suc (brk w))"
    unfolding pending_ok_def
    by (intro exI [of _ ?c] exI [of _ v])
      (use new(8) v h' port_old ctx in \<open>simp add: v2_at_def v2_queue_ok_def\<close>)
  with keep have pend: "pending_ok w' transport hub a" if "a \<in> set (Suc (brk w) # tr_pending_conns t)" for a
    using that by auto
  have "heaps_fresh w'" using fresh new(7-9) by (simp add: heaps_fresh_def)
  then show ?thesis
    by (intro switch_inv_keep [OF assms(1) sys' assms(2) new(1,3-5) _ _ new(10)]) (use new(7) t(2,4) pend_old pend in simp_all)
qed

text \<open>Accepting: a new pending connection, or nothing but the traces of failed calls.\<close>

definition accept_calls_ok :: "env \<Rightarrow> bool" where
  "accept_calls_ok E \<longleftrightarrow> (\<forall>tr fd. 0 \<le> retval (sys E tr (Sys_accept fd)) \<and> 0 \<le> retval (sys E tr (Sys_fcntl_nonblock fd)))"

lemma accept_ends:
  assumes "events_ok E" and "\<And>n. \<not> malloc_null E n" and "w_comp w transport = Some kt" and "transport \<noteq> NULL"
    and "ctx_events w (comp_ctx kt)" and "w_tr w (comp_priv kt) = Some t" and "brk w \<noteq> NULL"
  shows "wp (vde2_accept E fd transport) (\<lambda>_ w'. (\<exists>tr e. w' = w\<lparr>trace := tr, errno := e\<rparr>) \<and> \<not> accept_calls_ok E \<or>
    new_peer transport kt w w') w"
    (is "wp _ ?Q w")
proof -
  let ?make = "\<lambda>nfd error_close. mbind (vde_connection_new E) (\<lambda>(rv, conn).
       if rv \<noteq> 0 then error_close
       else mbind (alloc w_v2c_update E zero_vde2_conn) (\<lambda>v2.
       if v2 = NULL then mbind (vde_connection_delete E conn) (\<lambda>_. error_close)
       else
         mbind (upd_v2c v2 (\<lambda>v. v\<lparr>ctl_fd := nfd, v2_conn := conn, v2_transport := transport,
           pkt_queue := []\<rparr>)) (\<lambda>_.
         mbind (upd_tr (comp_priv kt) (\<lambda>t. t\<lparr>tr_pending_conns := v2 # tr_pending_conns t\<rparr>)) (\<lambda>_.
         mbind (vde_connection_init E conn (comp_ctx kt) (of_nat SIZEOF_ETH_FRAME) (Some Vde2_conn_write)
           (Some Vde2_conn_close) v2) (\<lambda>_.
         mbind (vde_context_event_add E (comp_ctx kt) nfd VDE_EV_READ None Vde2_srv_get_request v2) (\<lambda>ev.
         upd_v2c v2 (\<lambda>v. v\<lparr>ctl_ev := ev\<rparr>)))))))"
  have make: "wp (?make nfd err) ?Q (w\<lparr>trace := tr, errno := e\<rparr>)" for nfd err tr e
  proof -
    let ?add = "vde_context_event_add E (comp_ctx kt) nfd VDE_EV_READ None Vde2_srv_get_request"
    define ev where "ev a u = (SOME p. p \<noteq> NULL \<and> ?add a u = Inr (p, u))" for a u
    have ev: "ev a u \<noteq> NULL \<and> ?add a u = Inr (ev a u, u)" if "w_ctx u = w_ctx w" for a u
      unfolding ev_def by (rule someI_ex, rule event_add_ok [OF assms(1)]) (use assms(5) that in \<open>simp add: ctx_events_def\<close>)
    have ctx: "comp_ctx kt \<noteq> NULL" using assms(5) by (simp add: ctx_events_def)
    have "wp (?make nfd err) (\<lambda>_. new_peer transport kt w) (w\<lparr>trace := tr, errno := e\<rparr>)"
      unfolding wp_def using assms(2,6,7) ev ctx
      by (simp add: vde_connection_new_def vde_connection_init_def mon new_peer_def zero_vde2_conn_def size_defs)
    then show ?thesis by (rule wp_mono) simp
  qed
  have fails: "\<not> accept_calls_ok E" if "retval (sys E tr (Sys_accept f)) < 0" for tr f
    using that by (auto simp: accept_calls_ok_def not_le)
  have again: "wp (syscall E c) Q (w\<lparr>trace := tr, errno := e\<rparr>)"
    if "\<And>tr' e'. Q (sys E tr c) (w\<lparr>trace := tr', errno := e'\<rparr>)" for c tr e Q
    using that by (simp add: wp_def syscall_apply)
  have close: "wp (mbind (syscall E c) (\<lambda>_. ret ())) ?Q (w\<lparr>trace := tr, errno := e\<rparr>)"
    if "retval (sys E t' (Sys_fcntl_nonblock f)) < 0" for c tr e t' f
    using that by (intro wp_mbind again wp_ret) (auto simp: accept_calls_ok_def not_le)
  show ?thesis
    unfolding vde2_accept_def Let_def
    apply (rule wp_mbind, rule wp_Inr, rule comp_getters(2) [OF assms(3,4)])
    apply (rule wp_mbind, rule wp_Inr, rule comp_getters(1) [OF assms(3,4)])
    apply (rule wp_mbind, rule wp_syscall, rule wp_if, rule wp_ret, blast dest: fails)
    apply (rule wp_mbind, rule again)
    by (intro wp_if close make)
qed

section \<open>Reachable states\<close>

text \<open>
  The events of the switch that can be due. The event of a pending connection is the one
  registered last: \<open>vde2_srv_get_request\<close> until a request has been stored, then
  \<open>vde2_srv_send_request\<close>.
\<close>

inductive due :: "world \<Rightarrow> ptr \<Rightarrow> ptr \<Rightarrow> event_cb \<Rightarrow> ptr \<Rightarrow> bool" for w transport hub where
  due_accept: "w_comp w transport = Some kt \<Longrightarrow> w_tr w (comp_priv kt) = Some t \<Longrightarrow> listen_event t \<noteq> NULL \<Longrightarrow>
    due w transport hub Vde2_accept transport"
| due_request: "w_comp w transport = Some kt \<Longrightarrow> w_tr w (comp_priv kt) = Some t \<Longrightarrow> a \<in> set (tr_pending_conns t) \<Longrightarrow>
    w_v2c w a = Some v \<Longrightarrow> ctl_ev v \<noteq> NULL \<Longrightarrow> remote_request v = None \<Longrightarrow> due w transport hub Vde2_srv_get_request a"
| due_answer: "w_comp w transport = Some kt \<Longrightarrow> w_tr w (comp_priv kt) = Some t \<Longrightarrow> a \<in> set (tr_pending_conns t) \<Longrightarrow>
    w_v2c w a = Some v \<Longrightarrow> ctl_ev v \<noteq> NULL \<Longrightarrow> remote_request v \<noteq> None \<Longrightarrow> due w transport hub Vde2_srv_send_request a"
| due_port: "w_hub w hub = Some h \<Longrightarrow> p \<in> set (ports h) \<Longrightarrow> w_conn w p = Some c \<Longrightarrow> event_due w p cb \<Longrightarrow>
    due w transport hub cb (be_priv c)"

text \<open>What the rest of the program may do between events: anything that leaves the switch's records as they are.\<close>

definition outside :: "ptr \<Rightarrow> ptr \<Rightarrow> ptr \<Rightarrow> world \<Rightarrow> world \<Rightarrow> bool" where
  "outside transport component hub w w' \<longleftrightarrow> elsewhere component hub w w' \<and> brk w \<le> brk w' \<and> heaps_fresh w' \<and>
     (\<forall>p. brk w' \<le> p \<longrightarrow> w_pc w' p = None) \<and>
     (\<forall>kt. w_comp w transport = Some kt \<longrightarrow> w_comp w' transport = Some kt \<and>
        w_tr w' (comp_priv kt) = w_tr w (comp_priv kt) \<and> w_comp w' (cm_cb_arg kt) = w_comp w (cm_cb_arg kt) \<and>
        (\<forall>kc. w_comp w (cm_cb_arg kt) = Some kc \<longrightarrow> w_cm w' (comp_priv kc) = w_cm w (comp_priv kc)) \<and>
        (\<forall>t a v. w_tr w (comp_priv kt) = Some t \<longrightarrow> a \<in> set (tr_pending_conns t) \<longrightarrow> w_v2c w a = Some v \<longrightarrow>
           w_v2c w' a = Some v \<and> w_conn w' (v2_conn v) = w_conn w (v2_conn v)))"

inductive switch_step :: "nat \<Rightarrow> env \<Rightarrow> ptr \<Rightarrow> ptr \<Rightarrow> ptr \<Rightarrow> world \<Rightarrow> world \<Rightarrow> bool"
  for n E transport component hub where
  switch_event: "due w transport hub cb arg \<Longrightarrow> run_event n E ext cb fd arg w = Inr ((), w') \<Longrightarrow>
    switch_step n E transport component hub w w'"
| switch_outside: "outside transport component hub w w' \<Longrightarrow> switch_step n E transport component hub w w'"

lemma switch_inv_outside:
  assumes "switch_inv transport component hub w" and "outside transport component hub w w'"
  shows "switch_inv transport component hub w'"
proof -
  obtain kt t where t: "w_comp w transport = Some kt" "w_tr w (comp_priv kt) = Some t" "listen_event t \<noteq> NULL"
    "distinct (tr_pending_conns t)" "\<And>a. a \<in> set (tr_pending_conns t) \<Longrightarrow> pending_ok w transport hub a"
    and sys: "hub_sys component hub w" and serves: "serves_hub w transport component"
    using assms(1) by (auto simp: switch_inv_def)
  have els: "elsewhere component hub w w'" and brk: "brk w \<le> brk w'" and fresh: "heaps_fresh w'"
    "\<And>p. brk w' \<le> p \<Longrightarrow> w_pc w' p = None"
    and kt': "w_comp w' transport = Some kt" "w_tr w' (comp_priv kt) = Some t"
      "w_comp w' (cm_cb_arg kt) = w_comp w (cm_cb_arg kt)"
      "\<And>kc. w_comp w (cm_cb_arg kt) = Some kc \<Longrightarrow> w_cm w' (comp_priv kc) = w_cm w (comp_priv kc)"
      "\<And>a v. a \<in> set (tr_pending_conns t) \<Longrightarrow> w_v2c w a = Some v \<Longrightarrow>
        w_v2c w' a = Some v \<and> w_conn w' (v2_conn v) = w_conn w (v2_conn v)"
    using assms(2) t(1,2) by (simp_all add: outside_def)
  have sys': "hub_sys component hub w'" using hub_sys_elsewhere [OF els sys] .
  obtain h where h: "w_hub w hub = Some h" using sys by (auto simp: hub_sys_def)
  have h': "w_hub w' hub = Some h" "w_comp w' component = w_comp w component"
    and ctx: "\<And>x. ctx_events w x \<Longrightarrow> ctx_events w' x"
    using els h by (simp_all add: elsewhere_def)
  have "pending_ok w' transport hub a" if "a \<in> set (tr_pending_conns t)" for a
    by (rule pending_keep [OF t(5) [OF that] h'(1) h]) (use kt'(5) [OF that] ctx in \<open>auto simp: v2_at_def\<close>)
  moreover have "serves_hub w' transport component"
    using serves t(1,2) kt' h'(2) brk fresh(2) ctx unfolding serves_hub_def by auto
  ultimately show ?thesis using sys' fresh(1) kt'(1,2) t(3,4) unfolding switch_inv_def by auto
qed

lemma requests_whole_dispatch [simp]: "requests_whole (dispatch X n) = requests_whole X"
  by (simp add: requests_whole_def)

lemma handshake_event_runs:
  assumes "events_ok X" and "\<And>k. \<not> malloc_null X k" and "requests_whole X"
    and "switch_inv transport component hub w" and "w_comp w transport = Some kt" and "w_tr w (comp_priv kt) = Some t"
    and "a \<in> set (tr_pending_conns t)" and "w_v2c w a = Some v" and "ctl_ev v \<noteq> NULL"
  shows "wp (vde2_srv_get_request (dispatch X (d + 2)) a) (\<lambda>_. switch_inv transport component hub) w"
    and "wp (vde2_srv_send_request (dispatch X (d + 2)) a) (\<lambda>_. switch_inv transport component hub) w"
proof -
  let ?E = "dispatch X (d + 2)"
  have env: "hub_env ?E" by (rule hub_env_dispatch [OF assms(1,2)])
  have sys: "hub_sys component hub w" and serves: "serves_hub w transport component"
    using assms(4) by (simp_all add: switch_inv_def)
  obtain h where h: "w_hub w hub = Some h" using sys by (auto simp: hub_sys_def)
  have pend: "pending_ok w transport hub a" using assms(4-7) by (auto simp: switch_inv_def)
  from pending_greeting [OF this assms(8,9)] obtain c where
    g: "greeting w hub (v2_conn v) (be_priv c) c v" "be_priv c = a" "v2_transport v = transport"
    by auto
  have at: "v2_at w (v2_conn v) c v" using g(1) by (simp add: greeting_def)
  note kt = assms(5) [folded g(3)]
  have drop: "switch_inv transport component hub w'"
    if "dropped component hub h (comp_priv kt) (v2_conn v) (be_priv c) w w'" for w'
  proof (rule switch_handshake_end [OF assms(4) h assms(5) at, where h' = h])
    have "w_conn w' (v2_conn v) = None" "w_v2c w' (be_priv c) = None" "aside True (comp_priv kt) (v2_conn v) (be_priv c) w w'"
      using that by (simp_all add: dropped_def)
    then show "dom (w_conn w') \<subseteq> dom (w_conn w)" "dom (w_v2c w') \<subseteq> dom (w_v2c w)"
      unfolding aside_def by (metis domIff subsetI)+
  qed (use that in \<open>auto simp: dropped_def\<close>)
  have join: "switch_inv transport component hub w'"
    if "joined component hub h (comp_priv kt) (v2_conn v) (be_priv c) w w'" for w'
    by (rule switch_handshake_end [OF assms(4) h assms(5) at, where h' = "h\<lparr>ports := v2_conn v # ports h\<rparr>"])
      (use that in \<open>auto simp: joined_def\<close>)
  have whole: "requests_whole ?E" using assms(3) by simp
  have "wp (vde2_srv_get_request ?E (be_priv c)) (\<lambda>_. switch_inv transport component hub) w"
    by (rule wp_mono [OF srv_get_request_ends [OF env sys h g(1) serves [folded g(3)] whole kt refl]])
      (use switch_handshake_wait [OF assms(4,5) g(1,3)] pend g(2) drop in blast)
  then show "wp (vde2_srv_get_request ?E a) (\<lambda>_. switch_inv transport component hub) w" by (simp add: g(2))
  have "wp (vde2_srv_send_request ?E (be_priv c)) (\<lambda>_. switch_inv transport component hub) w"
    by (rule wp_mono [OF srv_send_request_ends [OF env sys h g(1) serves [folded g(3)] _ _ _ kt refl,
          where X = "dispatch X (Suc d)" and Y = "dispatch X d"]])
      (use assms(2) join drop in auto)
  then show "wp (vde2_srv_send_request ?E a) (\<lambda>_. switch_inv transport component hub) w" by (simp add: g(2))
qed

lemma switch_inv_quiet: "switch_inv transport component hub w \<Longrightarrow> switch_inv transport component hub (w\<lparr>trace := tr, errno := e\<rparr>)"
  by (rule switch_inv_outside, assumption)
    (auto simp: outside_def elsewhere_def switch_inv_def serves_hub_def heaps_fresh_def)

lemma accept_event_runs:
  assumes "events_ok X" and "\<And>k. \<not> malloc_null X k" and "switch_inv transport component hub w"
  shows "wp (vde2_accept (dispatch X (d + 2)) fd transport) (\<lambda>_. switch_inv transport component hub) w"
proof -
  obtain kt t where kt: "w_comp w transport = Some kt" "w_tr w (comp_priv kt) = Some t" "transport \<noteq> NULL"
    "ctx_events w (comp_ctx kt)" "brk w \<noteq> NULL"
    using assms(3) by (auto simp: switch_inv_def serves_hub_def)
  show ?thesis
    by (rule wp_mono [OF accept_ends [OF _ _ kt(1,3,4,2,5)]])
      (use assms(1,2) switch_inv_quiet [OF assms(3)] switch_new_peer [OF assms(3) kt(1)] in auto)
qed

lemma switch_event_runs:
  assumes "events_ok X" and "\<And>k. \<not> malloc_null X k" and "recv_ok X" and "requests_whole X" and "MAXQLEN < n"
    and "switch_inv transport component hub w" and "due w transport hub cb arg"
  shows "\<exists>w'. run_event n (dispatch X (d + 2)) ext cb fd arg w = Inr ((), w') \<and> switch_inv transport component hub w'"
  using assms(7)
proof cases
  case due_accept
  then show ?thesis using accept_event_runs [OF assms(1,2,6)] by (simp add: wp_def run_event_def)
next
  case (due_request kt t v)
  then show ?thesis using handshake_event_runs(1) [OF assms(1,2,4,6)] by (simp add: wp_def run_event_def)
next
  case (due_answer kt t v)
  then show ?thesis using handshake_event_runs(2) [OF assms(1,2,4,6)] by (simp add: wp_def run_event_def)
next
  case (due_port h p c)
  have "hub_sys component hub w" using assms(6) by (simp add: switch_inv_def)
  from event_runs [OF hub_env_dispatch [OF assms(1,2)] _ assms(5) this due_port(2-5), of d ext fd] assms(3)
  show ?thesis unfolding due_port(1) using switch_port_event [OF assms(6) due_port(2)] by auto
qed

lemma reachable_switch:
  assumes "events_ok X" and "\<And>k. \<not> malloc_null X k" and "recv_ok X" and "requests_whole X" and "MAXQLEN < n"
    and "switch_inv transport component hub w0"
    and "(switch_step n (dispatch X (d + 2)) transport component hub)\<^sup>*\<^sup>* w0 w"
  shows "switch_inv transport component hub w"
  using assms(7,6)
proof (induction rule: rtranclp_induct)
  case (step w w')
  from step.hyps(2) show ?case
  proof cases
    case (switch_event cb arg ext fd)
    with switch_event_runs [OF assms(1-5) step.IH [OF step.prems], of cb arg d ext fd] show ?thesis by auto
  next
    case switch_outside
    with switch_inv_outside [OF step.IH [OF step.prems]] show ?thesis .
  qed
qed simp

section \<open>A peer that does its part\<close>

text \<open>
  Requests as a vde2 client sends them: magic number, version 3, and a path of at most 107
  characters that the switch may use.
\<close>

definition requests_valid :: "env \<Rightarrow> bool" where
  "requests_valid E \<longleftrightarrow> (\<forall>tr fd. let r = sys E tr (Sys_read fd REQBUFLEN) in
     14 < retval r \<and> retval r \<le> 121 \<and> length (retbytes r) = nat (retval r) \<and>
     req_magic (retbytes r) = SWITCH_MAGIC \<and> req_version (retbytes r) = 3 \<and> retbytes r ! 14 \<noteq> CHR 0x00) \<and>
   (\<forall>tr path. retval (sys E tr (Sys_access path)) = 0)"

lemma requests_valid_whole: "requests_valid E \<Longrightarrow> requests_whole E"
  unfolding requests_whole_def Let_def
proof (intro allI)
  fix tr fd assume "requests_valid E"
  then have "14 < retval (sys E tr (Sys_read fd REQBUFLEN))" "retval (sys E tr (Sys_read fd REQBUFLEN)) \<le> 121"
    "length (retbytes (sys E tr (Sys_read fd REQBUFLEN))) = nat (retval (sys E tr (Sys_read fd REQBUFLEN)))"
    by (simp_all add: requests_valid_def Let_def)
  then show "retval (sys E tr (Sys_read fd REQBUFLEN)) \<le> int REQBUFLEN \<and> (0 < retval (sys E tr (Sys_read fd REQBUFLEN)) \<longrightarrow>
      14 \<le> retval (sys E tr (Sys_read fd REQBUFLEN)) \<and>
      length (retbytes (sys E tr (Sys_read fd REQBUFLEN))) = nat (retval (sys E tr (Sys_read fd REQBUFLEN))))"
    by (simp add: REQBUFLEN_def)
qed

lemma takeWhile_terminated: "takeWhile (\<lambda>c. c \<noteq> z) (xs @ z # ys) = takeWhile (\<lambda>c. c \<noteq> z) xs"
  by (induction xs) auto

lemma req_path:
  assumes "length bs = len" and "14 \<le> len" and "len \<le> 121"
  shows "sun_path (req_sock ((bs @ r # rs)[len := CHR 0x00])) = takeWhile (\<lambda>c. c \<noteq> CHR 0x00) (drop 14 bs)"
proof -
  have "(bs @ r # rs)[len := CHR 0x00] = bs @ CHR 0x00 # rs" using assms(1) by (simp add: list_update_append)
  moreover have "take UNIX_PATH_MAX (drop 14 (bs @ CHR 0x00 # rs)) =
      drop 14 bs @ CHR 0x00 # take (UNIX_PATH_MAX - length (drop 14 bs) - 1) rs"
    using assms by (simp add: take_Cons' vde2_consts)
  ultimately show ?thesis by (simp only: req_sock_def sockaddr_un.simps takeWhile_terminated)
qed

lemma get_request_answers:
  assumes "events_ok E" and "\<And>n. \<not> malloc_null E n" and "requests_valid E" and "w_v2c w arg = Some v" and "ctl_ev v \<noteq> NULL"
    and "v2_transport v \<noteq> NULL" and "w_comp w (v2_transport v) = Some kt" and "ctx_events w (comp_ctx kt)"
  shows "\<exists>w' v'. vde2_srv_get_request E arg w = Inr ((), w') \<and> w_v2c w' arg = Some v' \<and> ctl_ev v' \<noteq> NULL \<and>
    remote_request v' \<noteq> None \<and> v2_conn v' = v2_conn v \<and> v2_transport v' = v2_transport v \<and>
    w_hub w' = w_hub w \<and> w_comp w' = w_comp w \<and> w_tr w' = w_tr w \<and>
    sun_path (remote_sa v') =
      takeWhile (\<lambda>c. c \<noteq> CHR 0x00) (drop 14 (retbytes (sys E (trace w) (Sys_read (ctl_fd v) REQBUFLEN))))"
proof -
  let ?r = "sys E (trace w) (Sys_read (ctl_fd v) REQBUFLEN)"
  let ?len = "nat (retval ?r)"
  have r: "14 < retval ?r" "retval ?r \<le> 121" "length (retbytes ?r) = ?len" "req_magic (retbytes ?r) = SWITCH_MAGIC"
    "req_version (retbytes ?r) = 3" "retbytes ?r ! 14 \<noteq> CHR 0x00" "\<And>tr p. retval (sys E tr (Sys_access p)) = 0"
    using assms(3) by (auto simp: requests_valid_def Let_def)
  have len: "14 < ?len" using r(1) by simp
  define buf where "buf = retbytes ?r @ map (stack_garbage E) [?len..<Suc REQBUFLEN]"
  have "?len < Suc REQBUFLEN" using r(2) by (simp add: vde2_consts)
  then obtain g gs where g: "map (stack_garbage E) [?len..<Suc REQBUFLEN] = g # gs"
    by (metis upt_conv_Cons list.map(2))
  have path: "sun_path (req_sock (buf[?len := CHR 0x00])) = takeWhile (\<lambda>c. c \<noteq> CHR 0x00) (drop 14 (retbytes ?r))"
    unfolding buf_def g by (rule req_path [OF r(3)]) (use r(1,2) in simp_all)
  have head: "req_magic buf = SWITCH_MAGIC" "req_version buf = 3" "buf[?len := CHR 0x00] ! 14 \<noteq> CHR 0x00"
    using r len by (simp_all add: buf_def req_magic_def req_version_def nth_append)
  have "\<exists>path. c_string (buf[?len := CHR 0x00]) 14 = Inr path"
    using request_terminated [OF r(3), of "stack_garbage E"] r(1-3) by (simp add: buf_def REQBUFLEN_def del: upt_Suc)
  then obtain p where p: "c_string (buf[?len := CHR 0x00]) 14 = Inr p" by blast
  let ?add = "vde_context_event_add E (comp_ctx kt) (ctl_fd v) VDE_EV_WRITE None Vde2_srv_send_request arg"
  define ev where "ev u = (SOME p. p \<noteq> NULL \<and> ?add u = Inr (p, u))" for u
  have ev: "ev u \<noteq> NULL \<and> ?add u = Inr (ev u, u)" if "w_ctx u = w_ctx w" for u
    unfolding ev_def by (rule someI_ex, rule event_add_ok [OF assms(1)]) (use assms(8) that in \<open>simp add: ctx_events_def\<close>)
  show ?thesis
    using assms(2,4-7) r(1-3,7) head p path ev event_del_ok [OF assms(1,8,5)]
    by (simp add: vde2_srv_get_request_def mon Let_def buf_def [symmetric] del: upt_Suc)
qed

section \<open>Properties\<close>



lemma example_greeting_inv: "switch_inv 51 50 40 example_greeting"
proof -
  have "pending_ok example_greeting 51 40 32"
    using example_greeting_facts(3) unfolding pending_ok_def greeting_def
    by (intro exI [of _ example_greet_conn] exI [of _ example_greet_v2]) (auto simp: v2_at_def example_greet_v2_def zero_vde2_conn_def)
  moreover have "serves_hub example_greeting 51 50"
    using example_greeting_facts(4) by (simp add: example_greet_v2_def)
  moreover have "heaps_fresh example_greeting"
    by (simp add: heaps_fresh_def example_greeting_def example_switch_def)
  ultimately show ?thesis
    using example_greeting_facts(1) by (simp add: switch_inv_def) (simp add: example_greeting_def)
qed

lemma example_greet_env_facts:
  "events_ok example_greet_env" "\<And>k. \<not> malloc_null example_greet_env k" "recv_ok example_greet_env"
  "requests_whole example_greet_env"
  using example_switch_env_facts(1,2)
  by (simp_all add: example_greet_env_def events_ok_def recv_ok_def requests_whole_def)


definition peer_request :: "char list" where
  "peer_request = [CHR 0xCE, CHR 0xFA, CHR 0xED, CHR 0xFE, CHR 0x03, CHR 0x00, CHR 0x00, CHR 0x00, CHR 0x00, CHR 0x00,
     CHR 0x00, CHR 0x00, CHR 0x01, CHR 0x00] @ ''/tmp/peer''"

definition example_peer_env :: env where
  "example_peer_env = example_greet_env\<lparr>sys := (\<lambda>tr c. case c of
       Sys_read fd n \<Rightarrow> \<lparr>retval = 23, reterrno = 0, retbytes = peer_request\<rparr>
     | _ \<Rightarrow> sys example_greet_env tr c)\<rparr>"

lemma example_peer_env_facts:
  "events_ok example_peer_env" "\<And>k. \<not> malloc_null example_peer_env k" "accept_calls_ok example_peer_env"
  "requests_valid example_peer_env" "socket_calls_ok example_peer_env"
proof -
  have "req_magic peer_request = SWITCH_MAGIC" "req_version peer_request = 3" "length peer_request = 23"
    "peer_request ! 14 = CHR ''/''"
    by (simp_all add: req_magic_def req_version_def le_nat_def peer_request_def SWITCH_MAGIC_def)
  then show "requests_valid example_peer_env"
    by (simp add: requests_valid_def example_peer_env_def example_greet_env_def)
qed (use example_greet_env_facts in \<open>simp_all add: example_peer_env_def events_ok_def accept_calls_ok_def
    socket_calls_ok_def example_greet_env_def\<close>)


section \<open>A defect\<close>

text \<open>A request of fewer than 14 bytes with a valid magic number and version is accepted, and the path is taken from
  the bytes of the buffer that were never written: when these hold no zero byte, the program reads
  beyond the buffer.\<close>

lemma short_request_overruns:
  assumes "events_ok E" and "w_v2c w arg = Some v" and "ctl_ev v \<noteq> NULL"
    and "v2_transport v \<noteq> NULL" and "w_comp w (v2_transport v) = Some kt" and "ctx_events w (comp_ctx kt)"
    and "sys E (trace w) (Sys_read (ctl_fd v) REQBUFLEN) = \<lparr>retval = 8, reterrno = x, retbytes = bs\<rparr>" and "length bs = 8"
    and "req_magic bs = SWITCH_MAGIC" and "req_version bs = 3" and "\<forall>i. stack_garbage E i \<noteq> CHR 0x00"
  shows "vde2_srv_get_request E arg w = Inl Out_Of_Bounds"
proof -
  define buf where "buf = bs @ map (stack_garbage E) [8..<Suc REQBUFLEN]"
  have "req_magic buf = SWITCH_MAGIC" "req_version buf = 3"
    using assms(8-10) by (simp_all add: buf_def req_magic_def req_version_def)
  moreover have "buf[8 := CHR 0x00] ! 14 \<noteq> CHR 0x00"
    using assms(8,11) by (simp add: buf_def nth_append REQBUFLEN_def del: upt_Suc)
  moreover have "drop 14 (buf[8 := CHR 0x00]) = map (stack_garbage E) [14..<Suc REQBUFLEN]"
    using assms(8) by (simp add: buf_def drop_map del: upt_Suc)
  then have "c_string (buf[8 := CHR 0x00]) 14 = Inl Out_Of_Bounds"
    using assms(11) by (auto simp: c_string_def)
  ultimately show ?thesis
    using assms(2-8) event_del_ok [OF assms(1,6,3)]
    by (simp add: vde2_srv_get_request_def mon Let_def buf_def [symmetric] del: upt_Suc)
qed

end
