(* ===== verification/HubLife.thy ===== *)
theory HubLife
  imports HubSystem
begin

text \<open>
  The life of a hub: \<open>engine_hub_init\<close> establishes the invariant of \<open>HubSystem\<close> with no ports,
  and \<open>engine_hub_fini\<close> closes and releases every port, the hub and its signals. The array of
  commands is generated by the build; what is assumed of it is that its names are distinct and
  that it is terminated.
\<close>

section \<open>Starting\<close>

text \<open>Registering commands changes the component's table of commands only.\<close>

definition but_commands :: "world \<Rightarrow> world" where
  "but_commands w = w\<lparr>errno := 0, interned := [], w_comp := (\<lambda>_. None)\<rparr>"

definition cmd_frame :: "ptr \<Rightarrow> world \<Rightarrow> world \<Rightarrow> bool" where
  "cmd_frame component w w' \<longleftrightarrow> but_commands w' = but_commands w \<and> set (interned w) \<subseteq> set (interned w') \<and>
     (\<exists>cs. w_comp w' = (w_comp w)(component \<mapsto> (the (w_comp w component))\<lparr>commands := cs\<rparr>))"

lemma but_commands_fields:
  assumes "but_commands w' = but_commands w"
  shows "brk w' = brk w" "trace w' = trace w" "w_conn w' = w_conn w" "w_lc w' = w_lc w" "w_signal w' = w_signal w"
    "w_module w' = w_module w" "w_ctx w' = w_ctx w" "w_hub w' = w_hub w" "w_ctrl w' = w_ctrl w" "w_cc w' = w_cc w"
    "w_pc w' = w_pc w" "w_cm w' = w_cm w" "w_v2c w' = w_v2c w" "w_tr w' = w_tr w"
  using assms by (cases w, cases w', simp add: but_commands_def)+

lemma but_commands_simps [simp]:
  "but_commands (w\<lparr>errno := e\<rparr>) = but_commands w" "but_commands (w\<lparr>interned := ss\<rparr>) = but_commands w"
  "but_commands (w\<lparr>w_comp := c\<rparr>) = but_commands w"
  by (simp_all add: but_commands_def)

lemma but_commands_cong:
  "but_commands w1 = but_commands w2 \<Longrightarrow>
    but_commands (w1\<lparr>brk := b, w_signal := g\<rparr>) = but_commands (w2\<lparr>brk := b, w_signal := g\<rparr>)"
  by (cases w1, cases w2) (simp add: but_commands_def)

lemmas cmd_frame_fields = but_commands_fields [OF conjunct1 [OF iffD1 [OF cmd_frame_def]]]

lemma cmd_frame_refl: "w_comp w component \<noteq> None \<Longrightarrow> cmd_frame component w w"
  by (auto simp: cmd_frame_def intro!: exI [of _ "commands (the (w_comp w component))"])

lemma keeps_command_add: "keeps (cmd_frame component w) (vde_component_command_add E component x)"
proof (rule keepsI)
  fix u r u' assume f: "cmd_frame component w u" and run: "vde_component_command_add E component x u = Inr (r, u')"
  obtain cs where cs: "w_comp u = (w_comp w)(component \<mapsto> (the (w_comp w component))\<lparr>commands := cs\<rparr>)"
    using f by (auto simp: cmd_frame_def)
  show "cmd_frame component w u'"
    using run f cs
    by (cases "cmd_name x") (auto simp: vde_component_command_add_def mon cmd_frame_def split: if_splits)
qed

lemma keeps_commands_register: "keeps (cmd_frame component w) (vde_component_commands_register E component xs)"
  unfolding vde_component_commands_register_def by (intro keep keeps_command_add)

lemma hub_commands_register:
  assumes "cmd_inv E component w" and "named_array cmd_name ys xs" and "distinct (map (the \<circ> cmd_name) ys)"
    and "\<forall>y\<in>set ys. cmd_view E component w (the (cmd_name y)) = None"
  shows "\<exists>w'. vde_component_commands_register E component xs w = Inr (0, w') \<and> cmd_frame component w w'"
proof -
  have c: "component \<noteq> NULL" "w_comp w component \<noteq> None" using assms(1) by (auto simp: cmd_inv_def)
  from cmds.register_fresh [OF assms(1,2) _ assms(3,4)] obtain w' where
    w': "vde_component_commands_register E component xs w = Inr (0, w')"
    by (auto simp: commands_register_loop [OF c(1)])
  with keepsD [OF keeps_commands_register cmd_frame_refl [OF c(2)]] show ?thesis by blast
qed

text \<open>
  What starting a hub changes: the hub and its two signals, which nobody listens to, are new, and the
  component has its tables and its private data.
\<close>

definition hub_started :: "ptr \<Rightarrow> vde_component \<Rightarrow> world \<Rightarrow> world \<Rightarrow> bool" where
  "hub_started component k w w' \<longleftrightarrow> set (interned w) \<subseteq> set (interned w') \<and>
     (\<exists>s1 s2 cs sg. callbacks s1 = [] \<and> callbacks s2 = [] \<and> snd ` set sg = {Suc (brk w), Suc (Suc (brk w))} \<and>
        but_commands w' = but_commands (w\<lparr>brk := Suc (Suc (Suc (brk w))),
          w_hub := (w_hub w)(brk w \<mapsto> \<lparr>hub_component = component, ports = []\<rparr>),
          w_signal := (w_signal w)(Suc (brk w) \<mapsto> s1, Suc (Suc (brk w)) \<mapsto> s2)\<rparr>) \<and>
        w_comp w' = (w_comp w)(component \<mapsto> k\<lparr>commands := cs, signals := sg, comp_priv := brk w\<rparr>))"

text \<open>Registering the two signals of a hub with a component that has none.\<close>

lemma hub_signals_register:
  assumes "w_comp w component = Some k" and "component \<noteq> NULL" and "signals k = []" and "brk w \<noteq> 0"
    and "quark_ok E" and "\<forall>n. \<not> malloc_null E n"
  shows "\<exists>sg s1 s2 ss. vde_component_signals_register E component engine_hub_signals w = Inr (0,
      w\<lparr>brk := Suc (Suc (brk w)), interned := ss, w_signal := (w_signal w)(brk w \<mapsto> s1, Suc (brk w) \<mapsto> s2),
        w_comp := (w_comp w)(component \<mapsto> k\<lparr>signals := sg\<rparr>)\<rparr>) \<and>
    set (interned w) \<subseteq> set ss \<and> callbacks s1 = [] \<and> callbacks s2 = [] \<and> snd ` set sg = {brk w, Suc (brk w)}"
proof -
  let ?q1 = "quark_id E ''port_new''" and ?q2 = "quark_id E ''port_del''"
  let ?s = "\<lambda>n. \<lparr>sig_name = Some n, sig_description = None, callbacks = []\<rparr>"
  have "?q1 \<noteq> ?q2" using assms(5) by (auto simp: quark_ok_def dest: injD)
  with assms show ?thesis
    by (intro exI [of _ "[(?q1, brk w), (?q2, Suc (brk w))]"] exI [of _ "?s ''port_new''"] exI [of _ "?s ''port_del''"]
        exI [of _ "List.insert ''port_del'' (List.insert ''port_new'' (interned w))"])
      (auto simp: vde_component_signals_register_def vde_component_signal_add_def engine_hub_signals_def mon hget_def)
qed

lemma hub_init_runs:
  assumes "w_comp w component = Some k" and "component \<noteq> NULL" and "commands k = []" and "signals k = []"
    and "brk w \<noteq> 0" and "quark_ok E" and "\<forall>n. \<not> malloc_null E n"
    and "named_array cmd_name ys (engine_hub_commands E)" and "distinct (map (the \<circ> cmd_name) ys)"
  shows "\<exists>w'. engine_hub_init E component params w = Inr (0, w') \<and> hub_started component k w w'"
proof -
  let ?hub = "brk w" and ?h = "\<lparr>hub_component = component, ports = []\<rparr>"
  let ?w1 = "w\<lparr>brk := Suc (brk w), w_hub := (w_hub w)(?hub \<mapsto> ?h)\<rparr>"
  have "cmd_inv E component ?w1" "\<forall>y\<in>set ys. cmd_view E component ?w1 (the (cmd_name y)) = None"
    using assms(1-3,6) by (simp_all add: cmd_inv_def keys_interned_def cmd_view_def)
  with hub_commands_register [OF _ assms(8,9)] obtain w2 where
    w2: "vde_component_commands_register E component (engine_hub_commands E) ?w1 = Inr (0, w2)"
    "cmd_frame component ?w1 w2"
    by blast
  from w2(2) obtain cs where cs: "w_comp w2 = (w_comp w)(component \<mapsto> k\<lparr>commands := cs\<rparr>)"
    "but_commands w2 = but_commands ?w1" "set (interned w) \<subseteq> set (interned w2)"
    using assms(1) by (auto simp: cmd_frame_def)
  note f2 = but_commands_fields [OF cs(2)]
  have k2: "w_comp w2 component = Some (k\<lparr>commands := cs\<rparr>)" "signals (k\<lparr>commands := cs\<rparr>) = []" "brk w2 \<noteq> 0"
    using cs(1) assms(4) f2(1) by simp_all
  obtain sg s1 s2 ss where w3: "vde_component_signals_register E component engine_hub_signals w2 = Inr (0,
      w2\<lparr>brk := Suc (Suc (brk w2)), interned := ss, w_signal := (w_signal w2)(brk w2 \<mapsto> s1, Suc (brk w2) \<mapsto> s2),
        w_comp := (w_comp w2)(component \<mapsto> k\<lparr>commands := cs, signals := sg\<rparr>)\<rparr>)"
    "set (interned w2) \<subseteq> set ss" "callbacks s1 = []" "callbacks s2 = []" "snd ` set sg = {brk w2, Suc (brk w2)}"
    using hub_signals_register [OF k2(1) assms(2) k2(2,3) assms(6,7)] by auto
  let ?w4 = "w2\<lparr>brk := Suc (Suc (brk w2)), interned := ss, w_signal := (w_signal w2)(brk w2 \<mapsto> s1, Suc (brk w2) \<mapsto> s2),
    w_comp := (w_comp w2)(component \<mapsto> k\<lparr>commands := cs, signals := sg, comp_priv := ?hub\<rparr>)\<rparr>"
  have "engine_hub_init E component params w = Inr (0, ?w4)"
    using assms(2,5,7) w2(1) w3(1) by (simp add: engine_hub_init_def mon vde_component_set_priv_def)
  moreover have "but_commands ?w4 = but_commands (w\<lparr>brk := Suc (Suc (Suc (brk w))), w_hub := (w_hub w)(?hub \<mapsto> ?h),
      w_signal := (w_signal w)(Suc (brk w) \<mapsto> s1, Suc (Suc (brk w)) \<mapsto> s2)\<rparr>)"
    using but_commands_cong [OF cs(2), where b = "Suc (Suc (brk w2))" and g = "(w_signal w2)(brk w2 \<mapsto> s1, Suc (brk w2) \<mapsto> s2)"]
      f2(1,5) by (simp add: but_commands_def)
  moreover have "w_comp ?w4 = (w_comp w)(component \<mapsto> k\<lparr>commands := cs, signals := sg, comp_priv := ?hub\<rparr>)"
    using cs(1) by simp
  moreover have "set (interned w) \<subseteq> set (interned ?w4)" "snd ` set sg = {Suc (brk w), Suc (Suc (brk w))}"
    using cs(3) w3(2,5) f2(1) by auto
  ultimately have "hub_started component k w ?w4" and run: "engine_hub_init E component params w = Inr (0, ?w4)"
    using w3(3,4) unfolding hub_started_def by blast+
  then show ?thesis by blast
qed

lemma hub_started_sys:
  assumes "hub_started component k w w'" and "component \<noteq> NULL"
  shows "hub_sys component (brk w) w'" and "w_hub w' (brk w) = Some \<lparr>hub_component = component, ports = []\<rparr>"
proof -
  obtain s1 s2 cs sg where s: "callbacks s1 = []" "callbacks s2 = []" "snd ` set sg = {Suc (brk w), Suc (Suc (brk w))}"
    "but_commands w' = but_commands (w\<lparr>brk := Suc (Suc (Suc (brk w))),
      w_hub := (w_hub w)(brk w \<mapsto> \<lparr>hub_component = component, ports = []\<rparr>),
      w_signal := (w_signal w)(Suc (brk w) \<mapsto> s1, Suc (Suc (brk w)) \<mapsto> s2)\<rparr>)"
    "w_comp w' = (w_comp w)(component \<mapsto> k\<lparr>commands := cs, signals := sg, comp_priv := brk w\<rparr>)"
    using assms(1) by (auto simp: hub_started_def)
  note f = but_commands_fields [OF s(4)]
  show hub: "w_hub w' (brk w) = Some \<lparr>hub_component = component, ports = []\<rparr>" using f(8) by simp
  have "\<exists>s. w_signal w' p = Some s \<and> callbacks s = []" if "p \<in> snd ` set sg" for p
    using that s(1,2) f(5) by (auto simp: s(3))
  then show "hub_sys component (brk w) w'"
    using assms(2) s(5) hub by (simp add: hub_sys_def no_listeners_def)
qed

text \<open>A new hub starts in the invariant, without ports: given memory and a proper array of
  commands, initialization succeeds, stores the hub in the component, and registers the commands
  and two signals nobody listens to.\<close>

theorem hub_init_starts:
  assumes "w_comp w component = Some k" and "component \<noteq> NULL" and "commands k = []" and "signals k = []"
    and "brk w \<noteq> 0" and "quark_ok E" and "\<forall>n. \<not> malloc_null E n"
    and "named_array cmd_name ys (engine_hub_commands E)" and "distinct (map (the \<circ> cmd_name) ys)"
  shows "\<exists>w' hub. engine_hub_init E component params w = Inr (0, w') \<and> hub_sys component hub w' \<and>
    w_hub w' hub = Some \<lparr>hub_component = component, ports = []\<rparr>"
  using hub_init_runs [OF assms] hub_started_sys [OF _ assms(2)] by blast

definition example_hub_env :: env where
  "example_hub_env = base_env\<lparr>engine_hub_commands := [example_command ''status'', end_command]\<rparr>"

theorem hub_init_starts_witness:
  "\<exists>w' hub. engine_hub_init example_hub_env 4 SNull example_comp_world = Inr (0, w') \<and> hub_sys 4 hub w' \<and>
    w_hub w' hub = Some \<lparr>hub_component = 4, ports = []\<rparr>"
proof -
  have "named_array cmd_name [example_command ''status''] (engine_hub_commands example_hub_env)"
    by (simp add: named_array_simps example_hub_env_def example_command_def end_command_def)
  moreover have "w_comp example_comp_world 4 = Some zero_component" "(4 :: nat) \<noteq> NULL"
    "commands zero_component = []" "signals zero_component = []" "brk example_comp_world \<noteq> 0"
    by (simp_all add: example_comp_world_def zero_component_def)
  moreover have "quark_ok example_hub_env" by (simp add: example_hub_env_def quark_ok_num)
  moreover have "\<forall>n. \<not> malloc_null example_hub_env n" by (simp add: example_hub_env_def)
  ultimately show ?thesis using hub_init_starts [of example_comp_world 4 zero_component example_hub_env] by simp
qed

section \<open>Ending\<close>

text \<open>Closing ports in turn: each connection and its private record is released, nothing else changes.\<close>

definition closed :: "ptr list \<Rightarrow> world \<Rightarrow> world \<Rightarrow> bool" where
  "closed ps w w' \<longleftrightarrow> same_setup w w' \<and> w_hub w' = w_hub w \<and> interned w' = interned w \<and> brk w' = brk w \<and>
     (\<forall>p. w_conn w' p = (if p \<in> set ps then None else w_conn w p))"

lemma close_one:
  assumes "hub_env E" and "v2_port w hub p"
  shows "\<exists>w'. close_conn E p w = Inr ((), w') \<and> closed [p] w w' \<and>
    (\<forall>q. q \<noteq> p \<longrightarrow> v2_port w hub q \<longrightarrow> v2_port w' hub q)"
proof -
  obtain c v where at: "v2_at w p c v" using assms(2) by (auto simp: v2_port_def)
  obtain X where X: "call_be_close E Vde2_conn_close = vde2_conn_close X" "events_ok X"
    using assms(1) by (auto simp: hub_env_def)
  obtain e where e: "close_conn E p w = Inr ((), w\<lparr>trace := trace w @ close_calls v, errno := e,
      w_v2c := (w_v2c w)(be_priv c := None), w_conn := (w_conn w)(p := None)\<rparr>)" (is "_ = Inr ((), ?w')")
    using close_conn_eval [OF at X] by blast
  have same: "same_setup w ?w'" by (simp add: same_setup_def)
  have "v2_at ?w' q d x" if "q \<noteq> p" "v2_at w q d x" for q d x
    by (rule v2_at_other [OF at that(2,1) same]) (simp_all add: that(1))
  then have "v2_port ?w' hub q" if "q \<noteq> p" "v2_port w hub q" for q
    using that unfolding v2_port_def by blast
  moreover have "closed [p] w ?w'" using same by (simp add: closed_def)
  ultimately show ?thesis using e by blast
qed

lemma close_all:
  assumes "hub_env E" and "distinct ps" and "\<forall>p\<in>set ps. v2_port w hub p"
  shows "\<exists>w'. mapM (close_conn E) ps w = Inr ((), w') \<and> closed ps w w'"
  using assms(2,3)
proof (induction ps arbitrary: w)
  case Nil
  then show ?case by (simp add: closed_def same_setup_def)
next
  case (Cons p ps)
  obtain w1 where w1: "close_conn E p w = Inr ((), w1)" "closed [p] w w1"
    "\<forall>q. q \<noteq> p \<longrightarrow> v2_port w hub q \<longrightarrow> v2_port w1 hub q"
    using close_one [OF assms(1), of w hub p] Cons.prems(2) by auto
  have "\<forall>q\<in>set ps. v2_port w1 hub q" using w1(3) Cons.prems by auto
  then obtain w' where w': "mapM (close_conn E) ps w1 = Inr ((), w')" "closed ps w1 w'"
    using Cons.IH [of w1] Cons.prems(1) by auto
  have "closed (p # ps) w w'" using w1(2) w'(2) by (auto simp: closed_def same_setup_def)
  with w1(1) w'(1) show ?case by auto
qed

text \<open>The loop over the ports is that sequence, because closing a port leaves the port list alone.\<close>

lemma close_loop:
  assumes "hub_env E" and "w_hub w hub = Some h" and "distinct (ports h)" and "\<forall>p\<in>set (ports h). v2_port w hub p"
  shows "foreach (get_ports hub) (\<lambda>port. mbind (vde_connection_fini E port) (\<lambda>_. vde_connection_delete E port))
    (ports h) w = mapM (close_conn E) (ports h) w"
proof -
  let ?P = "\<lambda>w. w_hub w hub = Some h \<and> (\<forall>p\<in>set (ports h). w_conn w p = None \<or> v2_port w hub p)"
  have "keeps ?P (close_conn E p)" if p: "p \<in> set (ports h)" for p
  proof (rule keepsI)
    fix w a w' assume P: "?P w" and run: "close_conn E p w = Inr (a, w')"
    show "?P w'"
    proof (cases "w_conn w p")
      case None
      with run show ?thesis
        by (auto simp: close_conn_def vde_connection_fini_def mon deref_None split: if_splits)
    next
      case (Some c)
      with P p have "v2_port w hub p" by force
      from close_one [OF assms(1) this] run have "closed [p] w w'"
        "\<forall>q. q \<noteq> p \<longrightarrow> v2_port w hub q \<longrightarrow> v2_port w' hub q" by auto
      with P show ?thesis by (auto simp: closed_def)
    qed
  qed
  then show ?thesis
    by (intro foreach_eq_mapM [where P = ?P and pre = "[]"])
      (use assms in \<open>auto simp: mon close_conn_def\<close>)
qed

text \<open>What the registries need of the world in between.\<close>

lemma keeps_command_del:
  "keeps (\<lambda>u. cmd_frame component w u \<and> interned u = interned w) (vde_component_command_del E component x)"
proof (rule keepsI)
  fix u r u' assume f: "cmd_frame component w u \<and> interned u = interned w"
    and run: "vde_component_command_del E component x u = Inr (r, u')"
  obtain cs where cs: "w_comp u = (w_comp w)(component \<mapsto> (the (w_comp w component))\<lparr>commands := cs\<rparr>)"
    using f by (auto simp: cmd_frame_def)
  show "cmd_frame component w u' \<and> interned u' = interned w"
    using run f cs by (auto simp: vde_component_command_del_def mon cmd_frame_def split: if_splits)
qed

lemma commands_deregister_frame:
  assumes "cmd_inv E component w" and "named_array cmd_name ys xs"
  shows "\<exists>r w'. vde_component_commands_deregister E component xs w = Inr (r, w') \<and> cmd_frame component w w' \<and>
    interned w' = interned w"
proof -
  have c: "component \<noteq> NULL" "w_comp w component \<noteq> None" using assms(1) by (auto simp: cmd_inv_def)
  obtain r w' where w': "vde_component_commands_deregister E component xs w = Inr (r, w')"
    using cmds.deregister_total [OF assms] by (auto simp: commands_deregister_loop [OF c(1)])
  have "keeps (\<lambda>u. cmd_frame component w u \<and> interned u = interned w) (vde_component_commands_deregister E component xs)"
    unfolding vde_component_commands_deregister_def by (intro keep keeps_command_del)
  from keepsD [OF this _ w'] show ?thesis using cmd_frame_refl [OF c(2)] w' by blast
qed

lemma hub_signal_del:
  assumes "no_listeners w component" and "sig_inv E component w" and "sig_name x = Some s"
  shows "\<exists>r w'. vde_component_signal_del E component x w = Inr (r, w') \<and> no_listeners w' component \<and>
    sig_inv E component w' \<and> w_conn w' = w_conn w \<and> w_hub w' = w_hub w"
proof -
  obtain r w' where run: "vde_component_signal_del E component x w = Inr (r, w')" and inv: "sig_inv E component w'"
    using sigs.del_law [OF assms(2,3)] by blast
  obtain k where k: "component \<noteq> NULL" "w_comp w component = Some k" "distinct (map snd (signals k))"
    "\<And>p. p \<in> snd ` set (signals k) \<Longrightarrow> \<exists>s. w_signal w p = Some s \<and> callbacks s = []"
    using assms(1,2) unfolding no_listeners_def sig_inv_def by auto blast
  let ?q = "quark_of E w (Some s)"
  show ?thesis
  proof (cases "hget (signals k) ?q = NULL")
    case True
    then have "vde_component_signal_del E component x w = Inr (- 1, w\<lparr>errno := ENOENT\<rparr>)"
      using k(1,2) assms(3) by (simp add: vde_component_signal_del_def mon)
    with run inv assms(1) show ?thesis by (auto simp: no_listeners_def)
  next
    case False
    let ?p = "hget (signals k) ?q"
    have p: "(?q, ?p) \<in> set (signals k)"
      using False by (auto simp: hget_def split: option.splits dest: map_of_SomeD)
    then obtain sg where sg: "w_signal w ?p = Some sg" "callbacks sg = []" using k(4) [of ?p] by force
    have w': "w' = w\<lparr>w_comp := (w_comp w)(component \<mapsto> k\<lparr>signals := AList.delete ?q (signals k)\<rparr>),
        w_signal := (w_signal w)(?p := None)\<rparr>"
      using run k(1,2) assms(3) False sg
      by (simp add: vde_component_signal_del_def mon vde_signal_fini_def get_callbacks_def vde_signal_delete_def)
    have "d \<noteq> ?p" if d: "(j, d) \<in> set (signals k)" "j \<noteq> ?q" for j d
      using eq_key_imp_eq_value [of "map prod.swap (signals k)" ?p j ?q] k(3) d p by (force simp: comp_def)
    then have "no_listeners w' component"
      using k(1,4) by (force simp: w' no_listeners_def set_delete)
    with run inv show ?thesis by (auto simp: w')
  qed
qed

lemma hub_signals_deregister:
  assumes "no_listeners w component" and "sig_inv E component w"
  shows "\<exists>r w'. vde_component_signals_deregister E component engine_hub_signals w = Inr (r, w') \<and>
    w_conn w' = w_conn w \<and> w_hub w' = w_hub w"
proof -
  have c: "component \<noteq> NULL" using assms(1) by (simp add: no_listeners_def)
  let ?d = "vde_component_signal_del E component"
  let ?new = "\<lparr>sig_name = Some ''port_new'', sig_description = None, callbacks = []\<rparr>"
  let ?del = "\<lparr>sig_name = Some ''port_del'', sig_description = None, callbacks = []\<rparr>"
  obtain r1 w1 where 1: "?d ?new w = Inr (r1, w1)" "no_listeners w1 component" "sig_inv E component w1"
    "w_conn w1 = w_conn w" "w_hub w1 = w_hub w"
    using hub_signal_del [OF assms, of ?new "''port_new''"] by auto
  obtain r2 w2 where 2: "?d ?del w1 = Inr (r2, w2)" "w_conn w2 = w_conn w1" "w_hub w2 = w_hub w1"
    using hub_signal_del [OF 1(2,3), of ?del "''port_del''"] by auto
  show ?thesis
    using c 1 2 by (simp add: vde_component_signals_deregister_def engine_hub_signals_def)
qed



end
