(* ===== verification/Loading.thy ===== *)
theory Loading
  imports Modules
begin

text \<open>
  Loading the modules of a directory (\<open>vde_modules_load\<close>): which of the files it finds end up in the
  registry of the context, whatever their order, and that the modules of the repository are among
  them when they are installed.
\<close>

section \<open>Which modules get registered\<close>

text \<open>The module structure a file provides, if the loader can open it.\<close>

definition provides :: "env \<Rightarrow> string \<Rightarrow> (ptr \<times> vde_module) option" where
  "provides E path = (if is_so_path path \<and> dl_open E path \<noteq> NULL then
     (case dl_sym E (dl_open E path) of
        None \<Rightarrow> None
      | Some (p, m) \<Rightarrow> if p = NULL then None else Some (p, m)) else None)"

text \<open>
  A program that starts with no module in memory and the files \<open>files\<close>: they can be read, and
  two that give the same address give the same structure.
\<close>

definition readable :: "env \<Rightarrow> string list \<Rightarrow> bool" where
  "readable E files \<longleftrightarrow> (\<forall>path\<in>set files. \<forall>tr. retval (sys E tr (Sys_access path)) = 0) \<and>
     (\<forall>path\<in>set files. \<forall>path'\<in>set files. \<forall>p m m'. provides E path = Some (p, m) \<longrightarrow>
        provides E path' = Some (p, m') \<longrightarrow> m = m')"

text \<open>
  The state while they are loaded: the module structures in memory are those of the files but
  for the handle, and what the files in \<open>done\<close> provide is represented among the registered modules.
\<close>

definition module_of :: "vde_module \<Rightarrow> vde_module \<Rightarrow> bool" where
  "module_of m m' \<longleftrightarrow> (\<exists>h. m' = m\<lparr>m_dlhandle := h\<rparr>)"

definition genuine :: "env \<Rightarrow> string list \<Rightarrow> world \<Rightarrow> bool" where
  "genuine E files w \<longleftrightarrow> (\<forall>p m'. w_module w p = Some m' \<longrightarrow>
     (\<exists>path\<in>set files. \<exists>m. provides E path = Some (p, m) \<and> module_of m m'))"

definition registered :: "ptr \<Rightarrow> world \<Rightarrow> (vde_component_kind \<times> string) set" where
  "registered ctx w = (\<lambda>p. module_id (the (w_module w p))) ` set (modules (the (w_ctx w ctx)))"

text \<open>Loading changes modules, interned strings, the trace and \<open>errno\<close> only.\<close>

definition but_modules :: "world \<Rightarrow> world" where
  "but_modules w = w\<lparr>errno := 0, interned := [], trace := [], w_module := (\<lambda>_. None), w_ctx := (\<lambda>_. None)\<rparr>"

definition mod_frame :: "ptr \<Rightarrow> world \<Rightarrow> world \<Rightarrow> bool" where
  "mod_frame ctx w w' \<longleftrightarrow> but_modules w' = but_modules w \<and> set (interned w) \<subseteq> set (interned w') \<and>
     (\<exists>x ms. w_ctx w ctx = Some x \<and> w_ctx w' = (w_ctx w)(ctx \<mapsto> x\<lparr>modules := ms\<rparr>))"

lemma mod_frame_refl: "w_ctx w ctx = Some x \<Longrightarrow> mod_frame ctx w w"
  by (auto simp: mod_frame_def fun_upd_idem intro!: exI [of _ "modules x"])

lemma mod_frame_trans: "mod_frame ctx w w1 \<Longrightarrow> mod_frame ctx w1 w2 \<Longrightarrow> mod_frame ctx w w2"
proof -
  assume f: "mod_frame ctx w w1" "mod_frame ctx w1 w2"
  obtain x ms where x: "w_ctx w ctx = Some x" "w_ctx w1 = (w_ctx w)(ctx \<mapsto> x\<lparr>modules := ms\<rparr>)"
    using f(1) by (auto simp: mod_frame_def)
  then obtain ms2 where ms2: "w_ctx w2 = (w_ctx w)(ctx \<mapsto> x\<lparr>modules := ms2\<rparr>)"
    using f(2) by (auto simp: mod_frame_def)
  have "but_modules w2 = but_modules w" "set (interned w) \<subseteq> set (interned w2)"
    using f by (auto simp: mod_frame_def)
  with x(1) ms2 show ?thesis unfolding mod_frame_def by blast
qed

lemma module_of_simps:
  assumes "module_of m m'"
  shows "module_id m' = module_id m" and "module_ok m' = module_ok m"
  using assms
  by (auto simp: module_of_def module_id_def module_ok_def kind_ops_ok_def component_ops_ok_def
      split: vde_component_kind.splits)

lemma module_of_handle: "module_of m m' \<Longrightarrow> module_of m (m'\<lparr>m_dlhandle := h\<rparr>)"
  by (auto simp: module_of_def)

lemma register_module_registers:
  assumes "modules_inv E ctx w" and "module \<noteq> NULL" and "w_module w module = Some m"
  shows "\<exists>r w'. vde_context_register_module E ctx module w = Inr (r, w') \<and> modules_inv E ctx w' \<and>
    w_module w' = w_module w \<and> mod_frame ctx w w' \<and>
    registered ctx w' = (if module_ok m then insert (module_id m) (registered ctx w) else registered ctx w)"
proof -
  obtain x where x: "w_ctx w ctx = Some x" using assms(1) by (auto simp: modules_inv_def)
  obtain ss where ss: "set (interned w) \<subseteq> set ss" and run: "vde_context_register_module E ctx module w =
      (if module_id m \<in> set (map (\<lambda>p. module_id (the (w_module w p))) (modules x))
       then Inr (- 1, w\<lparr>interned := ss, errno := EEXIST\<rparr>)
       else if \<not> module_ok m then Inr (- 1, w\<lparr>interned := ss, errno := EINVAL\<rparr>)
       else Inr (0, w\<lparr>interned := ss,
              w_ctx := (w_ctx w)(ctx \<mapsto> x\<lparr>modules := module # modules x\<rparr>)\<rparr>))"
    using register_module_eval [OF assms(1) x assms(3)] by blast
  obtain r w' where w': "vde_context_register_module E ctx module w = Inr (r, w')" "modules_inv E ctx w'"
    using register_module_cases [OF assms(1) x assms(2,3)] by blast
  have reg: "registered ctx w = set (map (\<lambda>p. module_id (the (w_module w p))) (modules x))"
    by (simp add: registered_def x)
  have idem: "(w_ctx w)(ctx \<mapsto> x\<lparr>modules := modules x\<rparr>) = w_ctx w" using x by (simp add: fun_upd_idem)
  have fr: "mod_frame ctx w (w\<lparr>interned := ss, errno := e\<rparr>)" for e
    using x ss idem by (auto simp: mod_frame_def but_modules_def intro!: exI [of _ "modules x"])
  have fr': "mod_frame ctx w (w\<lparr>interned := ss, w_ctx := (w_ctx w)(ctx \<mapsto> x\<lparr>modules := module # modules x\<rparr>)\<rparr>)"
    using x ss by (auto simp: mod_frame_def but_modules_def)
  show ?thesis
  proof (cases "module_id m \<in> registered ctx w")
    case True
    with run w'(1) reg have e: "w' = w\<lparr>interned := ss, errno := EEXIST\<rparr>" by simp
    then have "registered ctx w' = registered ctx w" by (simp add: registered_def)
    with True w' e fr show ?thesis by (auto simp: insert_absorb)
  next
    case new: False
    show ?thesis
    proof (cases "module_ok m")
      case False
      with new run w'(1) reg have e: "w' = w\<lparr>interned := ss, errno := EINVAL\<rparr>" by simp
      then have "registered ctx w' = registered ctx w" by (simp add: registered_def)
      with False w' e fr show ?thesis by auto
    next
      case True
      with new run w'(1) reg have e: "w' = w\<lparr>interned := ss, w_ctx := (w_ctx w)(ctx \<mapsto> x\<lparr>modules := module # modules x\<rparr>)\<rparr>" by simp
      then have "registered ctx w' = insert (module_id m) (registered ctx w)" by (simp add: registered_def x assms(3))
      with True w' e fr' show ?thesis by auto
    qed
  qed
qed

lemma registered_cong:
  "w_ctx w' ctx = w_ctx w ctx \<Longrightarrow> (\<And>p. p \<in> set (modules (the (w_ctx w ctx))) \<Longrightarrow> module_id (the (w_module w' p)) = module_id (the (w_module w p))) \<Longrightarrow>
    registered ctx w' = registered ctx w"
  by (simp add: registered_def)

lemma try_load_registers:
  assumes "modules_inv E ctx w" and "genuine E files w" and "readable E files" and "path \<in> set files"
    and "provides E path = Some (p, m)"
  shows "\<exists>r w'. module_try_load E ctx path w = Inr (r, w') \<and> modules_inv E ctx w' \<and> genuine E files w' \<and>
    mod_frame ctx w w' \<and> registered ctx w' = (if module_ok m then insert (module_id m) (registered ctx w) else registered ctx w)"
proof -
  have p: "dl_open E path \<noteq> NULL" "dl_sym E (dl_open E path) = Some (p, m)" "p \<noteq> NULL"
    using assms(5) by (auto simp: provides_def split: if_splits option.splits)
  obtain x where x: "w_ctx w ctx = Some x" "\<And>q. q \<in> set (modules x) \<Longrightarrow> w_module w q \<noteq> None"
    using assms(1) by (fastforce simp: modules_inv_def modules_ok_def)
  define w1 where "w1 = (if w_module w p = None then w\<lparr>w_module := (w_module w)(p \<mapsto> m)\<rparr> else w)"
  have inv1: "modules_inv E ctx w1"
    by (rule modules_inv_extend [OF assms(1)]) (auto simp: w1_def)
  obtain m1 where m1: "w_module w1 p = Some m1" "module_of m m1"
  proof (cases "w_module w p")
    case None
    then show thesis using that [of m] dlhandle_self [of m] by (simp add: w1_def module_of_def)
  next
    case (Some m1)
    then obtain path' m0 where "path' \<in> set files" "provides E path' = Some (p, m0)" "module_of m0 m1"
      using assms(2) unfolding genuine_def by blast
    moreover from this have "m0 = m" using assms(3-5) by (auto simp: readable_def)
    ultimately show thesis using that [of m1] Some by (simp add: w1_def)
  qed
  have reg1: "registered ctx w1 = registered ctx w"
    by (rule registered_cong) (use x(1) in \<open>simp add: w1_def\<close>, use x in \<open>fastforce simp: w1_def\<close>)
  have gen1: "genuine E files w1"
    using assms(2,4,5) dlhandle_self [of m] by (auto simp: genuine_def w1_def module_of_def)
  have fr1: "mod_frame ctx w w1"
    using mod_frame_refl [OF x(1)] by (auto simp: mod_frame_def w1_def but_modules_def)
  obtain r w2 where w2: "vde_context_register_module E ctx p w1 = Inr (r, w2)" "modules_inv E ctx w2"
    "w_module w2 = w_module w1" "mod_frame ctx w1 w2"
    "registered ctx w2 = (if module_ok m then insert (module_id m) (registered ctx w) else registered ctx w)"
    using register_module_registers [OF inv1 p(3) m1(1)] module_of_simps [OF m1(2)] reg1 by auto
  let ?w3 = "w2\<lparr>w_module := (w_module w2)(p \<mapsto> m1\<lparr>m_dlhandle := dl_open E path\<rparr>)\<rparr>"
  have m2: "w_module w2 p = Some m1" using w2(3) m1(1) by simp
  have "module_try_load E ctx path w = (if r \<noteq> 0 then Inr (- 1, w2) else Inr (0, ?w3))"
    using p w2(1) m2 by (simp add: module_try_load_def Let_def mon w1_def [symmetric])
  moreover have gen2: "genuine E files w2" using gen1 w2(3) by (simp add: genuine_def)
  moreover have "genuine E files ?w3"
    using gen2 module_of_handle [OF m1(2)] assms(4,5) unfolding genuine_def by (simp split: if_splits) blast
  moreover have "modules_inv E ctx ?w3"
    by (rule modules_inv_frame [OF w2(2)]) (use m2 in \<open>auto intro: dlhandle_self\<close>)
  moreover have "registered ctx ?w3 = registered ctx w2"
    by (rule registered_cong) (use m2 in \<open>auto simp: module_id_def\<close>)
  moreover have fr2: "mod_frame ctx w w2" by (rule mod_frame_trans [OF fr1 w2(4)])
  moreover have "mod_frame ctx w ?w3" using fr2 by (simp add: mod_frame_def but_modules_def)
  ultimately show ?thesis using w2(2,5) by (cases "r = 0") auto
qed

definition offered :: "env \<Rightarrow> string \<Rightarrow> (vde_component_kind \<times> string) set" where
  "offered E path = (case provides E path of
     None \<Rightarrow> {} | Some (p, m) \<Rightarrow> if module_ok m then {module_id m} else {})"

text \<open>What loading maintains, and how the set of registered modules grows.\<close>

definition loaded :: "env \<Rightarrow> ptr \<Rightarrow> string list \<Rightarrow> world \<Rightarrow> (vde_component_kind \<times> string) set \<Rightarrow> world \<Rightarrow> bool" where
  "loaded E ctx files w A w' \<longleftrightarrow> modules_inv E ctx w' \<and> genuine E files w' \<and> mod_frame ctx w w' \<and>
     registered ctx w' = registered ctx w \<union> A"

lemma loaded_trans: "loaded E ctx files w A w1 \<Longrightarrow> loaded E ctx files w1 B w2 \<Longrightarrow> loaded E ctx files w (A \<union> B) w2"
  unfolding loaded_def by (auto intro: mod_frame_trans)

lemma loaded_refl:
  assumes "modules_inv E ctx w" and "genuine E files w" and "w' = w\<lparr>errno := e, trace := tr\<rparr>"
  shows "loaded E ctx files w {} w'"
proof -
  obtain x where x: "w_ctx w ctx = Some x" using assms(1) by (auto simp: modules_inv_def)
  have "modules_inv E ctx w'"
    by (rule modules_inv_frame [OF assms(1)]) (use assms(3) in \<open>auto intro: dlhandle_self\<close>)
  moreover have "mod_frame ctx w w'"
    using mod_frame_refl [OF x] assms(3) by (simp add: mod_frame_def but_modules_def)
  ultimately show ?thesis using assms(2,3) by (simp add: loaded_def genuine_def registered_def)
qed

lemma load_file_registers:
  assumes "modules_inv E ctx w" and "genuine E files w" and "readable E files" and "path \<in> set files"
  shows "\<exists>w'. load_file E ctx path w = Inr ((), w') \<and> loaded E ctx files w (offered E path) w'"
proof (cases "is_so_path path")
  case False
  then have "offered E path = {}" by (simp add: offered_def provides_def)
  with False loaded_refl [OF assms(1,2), where w' = w and e = "errno w" and tr = "trace w"] show ?thesis by (simp add: load_file_def)
next
  case True
  have acc: "retval (sys E (trace w) (Sys_access path)) = 0" using assms(3,4) by (simp add: readable_def)
  define w1 where "w1 = w\<lparr>trace := trace w @ [Sys_access path]\<rparr>"
  have l1: "loaded E ctx files w {} w1"
    by (rule loaded_refl [OF assms(1,2), where e = "errno w" and tr = "trace w1"]) (simp add: w1_def)
  then have w1: "modules_inv E ctx w1" "genuine E files w1" by (simp_all add: loaded_def)
  have head: "load_file E ctx path w = mbind (module_try_load E ctx path) (\<lambda>_. ret ()) w1"
    using True acc by (simp add: load_file_def syscall_apply mon w1_def)
  show ?thesis
  proof (cases "provides E path")
    case None
    obtain e r where "module_try_load E ctx path w1 = Inr (r, w1\<lparr>errno := e\<rparr>)"
      using None True
      by (auto simp: provides_def module_try_load_def Let_def mon split: if_splits option.splits)
    moreover have "loaded E ctx files w1 {} (w1\<lparr>errno := e\<rparr>)"
      by (rule loaded_refl [OF w1, where e = e and tr = "trace w1"]) simp
    ultimately show ?thesis
      using None head loaded_trans [OF l1] by (simp add: offered_def mon)
  next
    case (Some pm)
    obtain p m where pm: "provides E path = Some (p, m)" using Some by (cases pm) simp
    obtain r w2 where w2: "module_try_load E ctx path w1 = Inr (r, w2)" "modules_inv E ctx w2" "genuine E files w2"
      "mod_frame ctx w1 w2" "registered ctx w2 = (if module_ok m then insert (module_id m) (registered ctx w1) else registered ctx w1)"
      using try_load_registers [OF w1 assms(3,4) pm] by blast
    then have "loaded E ctx files w1 (offered E path) w2" by (simp add: loaded_def offered_def pm)
    with w2(1) head loaded_trans [OF l1] show ?thesis by (fastforce simp: mon)
  qed
qed

lemma load_files_registers:
  assumes "readable E files" and "set fs \<subseteq> set files" and "modules_inv E ctx w" and "genuine E files w"
  shows "\<exists>w'. mapM (load_file E ctx) fs w = Inr ((), w') \<and> loaded E ctx files w (\<Union>path\<in>set fs. offered E path) w'"
  using assms(2-4)
proof (induction fs arbitrary: w)
  case Nil
  with loaded_refl [OF Nil(2,3), where w' = w and e = "errno w" and tr = "trace w"] show ?case by simp
next
  case (Cons path fs)
  obtain w1 where w1: "load_file E ctx path w = Inr ((), w1)" "loaded E ctx files w (offered E path) w1"
    using load_file_registers [OF Cons.prems(2,3) assms(1), of path] Cons.prems(1) by auto
  then obtain w2 where w2: "mapM (load_file E ctx) fs w1 = Inr ((), w2)"
    "loaded E ctx files w1 (\<Union>path\<in>set fs. offered E path) w2"
    using Cons.IH [of w1] Cons.prems(1) by (auto simp: loaded_def)
  from w1(1) w2(1) loaded_trans [OF w1(2) w2(2)] show ?case by (simp add: mon)
qed

lemma modules_load_registers:
  assumes "readable E (fts_files 0 tree)" and "modules_inv E ctx w" and "genuine E (fts_files 0 tree) w"
    and "fts_open E (default_modules_path E) = Inr tree" and "fts_close E (default_modules_path E) = 0"
  shows "\<exists>w'. vde_modules_load E ctx None w = Inr (0, w') \<and>
    loaded E ctx (fts_files 0 tree) w (\<Union>path\<in>set (fts_files 0 tree). offered E path) w'"
proof -
  obtain w' where "mapM (load_file E ctx) (fts_files 0 tree) w = Inr ((), w')"
    "loaded E ctx (fts_files 0 tree) w (\<Union>path\<in>set (fts_files 0 tree). offered E path) w'"
    using load_files_registers [OF assms(1) order_refl assms(2,3)] by blast
  with assms(4,5) show ?thesis by (auto simp: vde_modules_load_def vde_modules_default_path_def mon)
qed

text \<open>A module that a file provides, when every file that provides a module of its kind and family provides it.\<close>

definition installed :: "env \<Rightarrow> string list \<Rightarrow> vde_module \<Rightarrow> bool" where
  "installed E files m \<longleftrightarrow> module_ok m \<and> (\<exists>path\<in>set files. \<exists>p. provides E path = Some (p, m)) \<and>
     (\<forall>path\<in>set files. \<forall>p m'. provides E path = Some (p, m') \<longrightarrow> module_id m' = module_id m \<longrightarrow> m' = m)"

definition has_module :: "world \<Rightarrow> ptr \<Rightarrow> vde_module \<Rightarrow> bool" where
  "has_module w ctx m \<longleftrightarrow> (\<exists>x p m'. w_ctx w ctx = Some x \<and> p \<in> set (modules x) \<and> w_module w p = Some m' \<and> module_of m m')"

lemma installed_loaded:
  assumes "loaded E ctx files w (\<Union>path\<in>set files. offered E path) w'" and "installed E files m"
    and "registered ctx w = {}"
  shows "has_module w' ctx m"
proof -
  have ok: "module_ok m" using assms(2) by (simp add: installed_def)
  obtain path p where "path \<in> set files" "provides E path = Some (p, m)" using assms(2) by (auto simp: installed_def)
  with ok have "module_id m \<in> registered ctx w'"
    using assms(1) by (force simp: loaded_def offered_def)
  moreover obtain x where x: "w_ctx w' ctx = Some x" "modules_ok w' (modules x)"
    using assms(1) by (auto simp: loaded_def modules_inv_def)
  ultimately obtain q where q: "q \<in> set (modules x)" "module_id (the (w_module w' q)) = module_id m"
    by (auto simp: registered_def)
  then obtain m' where m': "w_module w' q = Some m'" using x(2) by (auto simp: modules_ok_def)
  then obtain path' m0 where m0: "path' \<in> set files" "provides E path' = Some (q, m0)" "module_of m0 m'"
    using assms(1) unfolding loaded_def genuine_def by blast
  have "module_id m0 = module_id m" using q(2) m' module_of_simps [OF m0(3)] by simp
  then have "m0 = m" using assms(2) m0(1,2) unfolding installed_def by blast
  with x(1) q(1) m' m0(3) show ?thesis unfolding has_module_def by blast
qed

lemma find_has_module:
  assumes "modules_inv E ctx w" and "has_module w ctx m" and "w_ctx w ctx = Some x"
  shows "\<exists>p m'. find_module w (m_kind m) (m_family m) (modules x) = p \<and> p \<noteq> NULL \<and> w_module w p = Some m' \<and> module_of m m'"
proof -
  have ok: "modules_ok w (modules x)" using assms(1,3) by (auto simp: modules_inv_def)
  obtain p m' where p: "p \<in> set (modules x)" "w_module w p = Some m'" "module_of m m'"
    using assms(2,3) by (auto simp: has_module_def)
  let ?q = "find_module w (m_kind m) (m_family m) (modules x)"
  have id: "module_id (the (w_module w p)) = (m_kind m, m_family m)"
    using p(2) module_of_simps(1) [OF p(3)] by (simp add: module_id_def)
  then have "?q \<noteq> NULL" using find_module_NULL [of "modules x" w] p(1) ok by (force simp: modules_ok_def)
  moreover from find_module_Some [OF refl this] have "?q \<in> set (modules x)" "module_id (the (w_module w ?q)) = (m_kind m, m_family m)"
    by simp_all
  then have "?q = p" using ok p(1) id by (auto simp: modules_ok_def distinct_map inj_on_def)
  ultimately show ?thesis using p by auto
qed

end
