(* ===== verification/Startup.thy ===== *)
theory Startup
  imports Switch HubLife Loading
begin

text \<open>
  Starting up: a context with the repository's modules, and what creating each kind of component
  in it does. A step of the startup only adds: \<open>grown b w w'\<close> says that every record at an address
  below \<open>b\<close> is untouched, and \<open>booted\<close> is what holds of the context between two steps.
\<close>

section \<open>The context between two steps\<close>

definition repo_modules :: "vde_module list" where
  "repo_modules = [transport_vde2_module, engine_hub_module, engine_ctrl_module, conn_manager_module]"

definition booted :: "env \<Rightarrow> ptr \<Rightarrow> world \<Rightarrow> bool" where
  "booted E ctx w \<longleftrightarrow> fresh_above w \<and> ctx_inv E ctx w \<and> modules_inv E ctx w \<and> ctx_events w ctx \<and>
     (\<forall>m\<in>set repo_modules. has_module w ctx m)"

definition grown :: "nat \<Rightarrow> world \<Rightarrow> world \<Rightarrow> bool" where
  "grown b w w' \<longleftrightarrow> brk w \<le> brk w' \<and> w_conn w' = w_conn w \<and> w_lc w' = w_lc w \<and> w_cc w' = w_cc w \<and> w_pc w' = w_pc w \<and>
     w_v2c w' = w_v2c w \<and> w_module w' = w_module w \<and> (\<forall>x. ctx_events w x \<longrightarrow> ctx_events w' x) \<and>
     (\<forall>p<b. w_comp w' p = w_comp w p \<and> w_signal w' p = w_signal w p \<and> w_hub w' p = w_hub w p \<and>
        w_ctrl w' p = w_ctrl w p \<and> w_cm w' p = w_cm w p \<and> w_tr w' p = w_tr w p)"

lemma grown_refl [simp]: "grown b w w"
  by (simp add: grown_def)

lemma grown_trans: "grown b w w1 \<Longrightarrow> grown b w1 w2 \<Longrightarrow> grown b w w2"
  by (simp add: grown_def)

lemma grown_mono: "grown b w w' \<Longrightarrow> a \<le> b \<Longrightarrow> grown a w w'"
  unfolding grown_def by (meson less_le_trans)

lemma fresh_above_below:
  assumes "fresh_above w"
  shows "w_comp w p = Some c \<Longrightarrow> p < brk w" "w_hub w p = Some h \<Longrightarrow> p < brk w" "w_signal w p = Some s \<Longrightarrow> p < brk w"
    "w_cm w p = Some m \<Longrightarrow> p < brk w" "w_tr w p = Some t \<Longrightarrow> p < brk w" "brk w \<noteq> NULL" "w_comp w (brk w) = None"
proof -
  have n: "w_comp w p = None \<and> w_hub w p = None \<and> w_signal w p = None \<and> w_cm w p = None \<and> w_tr w p = None"
    if "\<not> p < brk w" for p
    using assms that by (simp add: fresh_above_def)
  show "w_comp w p = Some c \<Longrightarrow> p < brk w" "w_hub w p = Some h \<Longrightarrow> p < brk w" "w_signal w p = Some s \<Longrightarrow> p < brk w"
    "w_cm w p = Some m \<Longrightarrow> p < brk w" "w_tr w p = Some t \<Longrightarrow> p < brk w"
    by (rule ccontr, drule n, simp)+
  show "brk w \<noteq> NULL" "w_comp w (brk w) = None" using assms n [of "brk w"] by (simp_all add: fresh_above_def)
qed

lemma fresh_above_upd:
  "fresh_above u \<Longrightarrow> w_ctx u ctx \<noteq> None \<Longrightarrow> w_comp u p \<noteq> None \<Longrightarrow>
    fresh_above (u\<lparr>w_ctx := (w_ctx u)(ctx \<mapsto> x), w_comp := (w_comp u)(p \<mapsto> c)\<rparr>)"
  by (auto simp: fresh_above_def)

lemma ctx_events_components:
  assumes "w_ctx w ctx = Some x" and "w_ctx w' = (w_ctx w)(ctx \<mapsto> x\<lparr>components := oh\<rparr>)"
  shows "ctx_events w' = ctx_events w"
  using assms by (auto simp: ctx_events_def fun_eq_iff)

lemma booted_keep:
  assumes "booted E ctx w" and "fresh_above w'" and "ctx_inv E ctx w'" and "w_module w' = w_module w"
    and "w_ctx w ctx = Some x" and "w_ctx w' = (w_ctx w)(ctx \<mapsto> x\<lparr>components := oh\<rparr>)"
  shows "booted E ctx w'"
proof -
  have "modules_inv E ctx w'"
    using assms(1,4-6) by (auto simp: booted_def modules_inv_def modules_ok_def)
  moreover have "has_module w' ctx m" if "has_module w ctx m" for m
    using that assms(4-6) by (auto simp: has_module_def)
  ultimately show ?thesis
    using assms(1-3) ctx_events_components [OF assms(5,6)] by (simp add: booted_def)
qed

text \<open>A new component's own record exists while its \<open>init\<close> runs, but not yet in the table of the context.\<close>

lemma ctx_inv_start:
  assumes "ctx_inv E ctx w" and "w_comp w p = None" and "set (interned w) \<subseteq> set ss"
  shows "ctx_inv E ctx (w\<lparr>brk := b, interned := ss, w_comp := (w_comp w)(p \<mapsto> c)\<rparr>)" (is "ctx_inv E ctx ?u")
    and "ctx_ents ctx (w\<lparr>brk := b, interned := ss, w_comp := (w_comp w)(p \<mapsto> c)\<rparr>) = ctx_ents ctx w"
    and "p \<notin> snd ` set (ctx_ents ctx w)"
proof -
  from assms(1) obtain x oh where x: "quark_ok E" "ctx \<noteq> NULL" "w_ctx w ctx = Some x" "ctx_initialized x = 1"
    "components x = Some oh" "oh_inv oh" "keys_interned E w (oh_ents oh)"
    and ok: "\<And>e. e \<in> set (oh_ents oh) \<Longrightarrow> entry_ok w e" and ents: "ctx_ents ctx w = oh_ents oh"
    by (rule ctx_invE) (rule that)
  have ne: "snd e \<noteq> p" if "e \<in> set (oh_ents oh)" for e using ok [OF that] assms(2) by (auto simp: entry_ok_def)
  then have "entry_ok ?u e" if "e \<in> set (oh_ents oh)" for e using ok [OF that] that by (simp add: entry_ok_def)
  moreover have "keys_interned E ?u (oh_ents oh)" using x(7) assms(3) by (fastforce simp: keys_interned_def)
  ultimately show "ctx_inv E ctx ?u" using x by (auto simp: ctx_inv_def)
  show "ctx_ents ctx ?u = ctx_ents ctx w" by (simp add: ctx_ents_def)
  show "p \<notin> snd ` set (ctx_ents ctx w)" using ne ents by auto
qed

section \<open>New components\<close>

lemma hget_snoc: "hget h q = NULL \<Longrightarrow> q \<noteq> k \<Longrightarrow> hget (h @ [(k, p)]) q = NULL"
  by (auto simp: hget_def map_add_def split: option.splits)

text \<open>The record of a component between its set-up from a module and the end of \<open>vde_context_new_component\<close>.\<close>

lemma component_setup_handle: "module_of m m' \<Longrightarrow> component_setup q m' ctx c = component_setup q m ctx c"
  by (auto simp: module_of_def component_setup_def Let_def split: vde_component_kind.splits)

lemma booted_new_component:
  assumes "booted E ctx w" and "m \<in> set repo_modules" and "m_cops m = Some ops" and "ops_init ops = Some f"
    and "hget (ctx_ents ctx w) (quark_id E name) = NULL" and "\<And>n. \<not> malloc_null E n"
    and init: "\<And>ss u. u = w\<lparr>brk := Suc (brk w), interned := ss,
        w_comp := (w_comp w)(brk w \<mapsto> component_setup (quark_id E name) m ctx zero_component)\<rparr> \<Longrightarrow>
      set (interned w) \<subseteq> set ss \<Longrightarrow> init_runs E f params (brk w) (\<lambda>u'. fresh_above u' \<and> grown b u u' \<and> Q u') u"
    and "b \<le> brk w"
  shows "\<exists>w' u' cx c2. vde_context_new_component E ctx (m_kind m) (Some (m_family m)) (Some name) params w =
      Inr ((0, Some (brk w)), w') \<and> booted E ctx w' \<and> grown b w w' \<and>
    ctx_ents ctx w' = ctx_ents ctx w @ [(quark_id E name, brk w)] \<and> Q u' \<and> w_comp u' (brk w) = Some c2 \<and>
    w' = u'\<lparr>w_ctx := cx, w_comp := (w_comp u')(brk w \<mapsto> c2\<lparr>initialized := True, refcount := 1\<rparr>)\<rparr>"
proof -
  have b: "fresh_above w" "ctx_inv E ctx w" "modules_inv E ctx w" "has_module w ctx m"
    using assms(1,2) by (simp_all add: booted_def)
  obtain x where x: "w_ctx w ctx = Some x" using b(2) by (auto simp: ctx_inv_def)
  obtain p m' where p: "find_module w (m_kind m) (m_family m) (modules x) = p" "p \<noteq> NULL" "w_module w p = Some m'"
    "module_of m m'"
    using find_has_module [OF b(3,4) x] by blast
  have cops: "m_cops m' = Some ops" using p(4) assms(3) by (auto simp: module_of_def)
  let ?u = "\<lambda>ss. w\<lparr>brk := Suc (brk w), interned := ss,
    w_comp := (w_comp w)(brk w \<mapsto> component_setup (quark_id E name) m ctx zero_component)\<rparr>"
  have "init_runs E f params (brk w) (\<lambda>u'. fresh_above u' \<and> (\<exists>ss. grown b (?u ss) u') \<and> Q u')
      (w\<lparr>brk := Suc (brk w), interned := ss,
         w_comp := (w_comp w)(brk w \<mapsto> component_setup (quark_id E name) m' ctx zero_component)\<rparr>)"
    if "set (interned w) \<subseteq> set ss" for ss
    using init [OF refl that] unfolding component_setup_handle [OF p(4)] init_runs_def by blast
  from new_component_runs [OF b(2,3) x assms(5) p(1-3) cops assms(4,6) fresh_above_below(6,7) [OF b(1)] this]
  obtain u' c2 oh' where w': "vde_context_new_component E ctx (m_kind m) (Some (m_family m)) (Some name) params w =
      Inr ((0, Some (brk w)), u'\<lparr>w_ctx := (w_ctx w)(ctx \<mapsto> x\<lparr>components := Some oh'\<rparr>),
        w_comp := (w_comp u')(brk w \<mapsto> c2\<lparr>initialized := True, refcount := 1\<rparr>)\<rparr>)"
      "w_ctx u' = w_ctx w" "w_comp u' (brk w) = Some c2" "fresh_above u'" "\<exists>ss. grown b (?u ss) u'" "Q u'"
      "ctx_inv E ctx (u'\<lparr>w_ctx := (w_ctx w)(ctx \<mapsto> x\<lparr>components := Some oh'\<rparr>),
        w_comp := (w_comp u')(brk w \<mapsto> c2\<lparr>initialized := True, refcount := 1\<rparr>)\<rparr>)"
      "oh_ents oh' = ctx_ents ctx w @ [(quark_id E name, brk w)]"
    by auto
  define w' where "w' = u'\<lparr>w_ctx := (w_ctx w)(ctx \<mapsto> x\<lparr>components := Some oh'\<rparr>),
    w_comp := (w_comp u')(brk w \<mapsto> c2\<lparr>initialized := True, refcount := 1\<rparr>)\<rparr>"
  obtain ss where ss: "grown b (?u ss) u'" using w'(5) by blast
  have fresh: "fresh_above w'"
    using fresh_above_upd [OF w'(4), of ctx "brk w"] w'(2,3) x by (simp add: w'_def)
  have mods: "w_module w' = w_module w" using ss by (simp add: w'_def grown_def)
  have "booted E ctx w'"
    by (rule booted_keep [OF assms(1) fresh w'(7) [folded w'_def] mods x]) (simp add: w'_def)
  moreover have "grown b w w'"
  proof -
    have ev: "ctx_events w' = ctx_events w" by (rule ctx_events_components [OF x]) (simp add: w'_def)
    show ?thesis using ss assms(8) unfolding grown_def ev by (auto simp: w'_def)
  qed
  moreover have "ctx_ents ctx w' = ctx_ents ctx w @ [(quark_id E name, brk w)]"
    using w'(8) by (simp add: ctx_ents_def w'_def)
  ultimately show ?thesis using w'(1,3,6) w'_def by blast
qed

lemma repo_module_simps:
  "m_kind transport_vde2_module = VDE_TRANSPORT" "m_family transport_vde2_module = ''vde2''"
  "m_kind engine_hub_module = VDE_ENGINE" "m_family engine_hub_module = ''hub''"
  "m_kind engine_ctrl_module = VDE_ENGINE" "m_family engine_ctrl_module = ''ctrl''"
  "m_kind conn_manager_module = VDE_CONNECTION_MANAGER" "m_family conn_manager_module = ''default''"
  by (simp_all add: transport_vde2_module_def engine_hub_module_def engine_ctrl_module_def conn_manager_module_def)

lemma repo_module_cops:
  "m_cops transport_vde2_module = Some \<lparr>ops_init = Some Transport_vde2_init, ops_fini = Some Transport_vde2_fini\<rparr>"
  "m_cops engine_hub_module = Some \<lparr>ops_init = Some Engine_hub_init, ops_fini = Some Engine_hub_fini\<rparr>"
  "m_cops engine_ctrl_module = Some \<lparr>ops_init = Some Engine_ctrl_init, ops_fini = Some Engine_ctrl_fini\<rparr>"
  "m_cops conn_manager_module = Some \<lparr>ops_init = Some Conn_manager_init, ops_fini = Some Conn_manager_fini\<rparr>"
  by (simp_all add: transport_vde2_module_def engine_hub_module_def engine_ctrl_module_def conn_manager_module_def)

lemma repo_modules_mem:
  "transport_vde2_module \<in> set repo_modules" "engine_hub_module \<in> set repo_modules"
  "engine_ctrl_module \<in> set repo_modules" "conn_manager_module \<in> set repo_modules"
  by (simp_all add: repo_modules_def)

lemma component_setup_fields [simp]:
  "comp_ctx (component_setup q m ctx c) = ctx" "commands (component_setup q m ctx c) = []"
  "signals (component_setup q m ctx c) = []"
  by (simp_all add: component_setup_def Let_def split: vde_component_kind.splits)

text \<open>The operations that the components of this repository get from their modules.\<close>

lemma component_setup_ops [simp]:
  "c_tr_listen (component_setup q transport_vde2_module ctx c) = Some Vde2_listen"
  "c_eng_new_conn (component_setup q engine_hub_module ctx c) = Some Hub_engine_newconn"
  "c_cm_listen (component_setup q conn_manager_module ctx c) = Some Conn_manager_listen"
  by (simp_all add: component_setup_def transport_vde2_module_def engine_hub_module_def conn_manager_module_def)

lemma fresh_start:
  assumes "fresh_above w"
  shows "fresh_above (w\<lparr>brk := Suc (brk w), interned := ss, w_comp := (w_comp w)(brk w \<mapsto> c)\<rparr>)"
  using assms by (auto simp: fresh_above_def)

lemma new_transport:
  assumes "booted (dispatch X (Suc n)) ctx w" and "\<And>k. \<not> malloc_null X k" and "length dir \<le> 104"
    and "hget (ctx_ents ctx w) (quark_id X name) = NULL"
  shows "\<exists>w' kt. vde_context_new_component (dispatch X (Suc n)) ctx VDE_TRANSPORT (Some ''vde2'') (Some name)
      (SHash [(''path'', SString dir)]) w = Inr ((0, Some (brk w)), w') \<and> booted (dispatch X (Suc n)) ctx w' \<and>
    grown (brk w) w w' \<and> ctx_ents ctx w' = ctx_ents ctx w @ [(quark_id X name, brk w)] \<and> brk w < brk w' \<and>
    w_comp w' (brk w) = Some kt \<and> comp_kind kt = VDE_TRANSPORT \<and> comp_ctx kt = ctx \<and>
    c_tr_listen kt = Some Vde2_listen \<and> comp_priv kt = Suc (brk w) \<and> w_tr w' (comp_priv kt) = Some \<lparr>vdesock_dir = dir, listen_fd = 0,
      listen_event = NULL, connections = 0, tr_pending_conns = []\<rparr>"
proof -
  let ?E = "dispatch X (Suc n)" and ?p = "brk w" and ?c = "component_setup (quark_id X name) transport_vde2_module ctx zero_component"
  let ?t = "\<lparr>vdesock_dir = dir, listen_fd = 0, listen_event = NULL, connections = 0, tr_pending_conns = []\<rparr>"
  let ?Q = "\<lambda>u'. brk w < brk u' \<and> w_comp u' ?p = Some (?c\<lparr>comp_priv := Suc ?p\<rparr>) \<and> w_tr u' (Suc ?p) = Some ?t"
  have fresh: "fresh_above w" using assms(1) by (simp add: booted_def)
  have p: "?p \<noteq> NULL" by (rule fresh_above_below(6) [OF fresh])
  have init: "init_runs ?E Transport_vde2_init (SHash [(''path'', SString dir)]) ?p (\<lambda>u'. fresh_above u' \<and> grown ?p u u' \<and> ?Q u') u"
    if u: "u = w\<lparr>brk := Suc ?p, interned := ss, w_comp := (w_comp w)(?p \<mapsto> component_setup (quark_id ?E name) transport_vde2_module ctx zero_component)\<rparr>"
    for u ss
  proof -
    let ?u' = "u\<lparr>brk := Suc (Suc (Suc ?p)), w_tr := (w_tr u)(Suc ?p \<mapsto> ?t), w_comp := (w_comp u)(?p \<mapsto> ?c\<lparr>comp_priv := Suc ?p\<rparr>)\<rparr>"
    have "call_init ?E Transport_vde2_init ?p (SHash [(''path'', SString dir)]) u = Inr (0, ?u')"
      using assms(2,3) p by (simp add: u transport_vde2_init_def mon vde2_consts vde_component_set_priv_def)
    moreover have "fresh_above ?u'" using fresh by (auto simp: u fresh_above_def)
    moreover have "grown ?p u ?u'" by (simp add: grown_def u)
    ultimately show ?thesis unfolding init_runs_def
      by (intro exI [of _ ?u'] exI [of _ "?c\<lparr>comp_priv := Suc ?p\<rparr>"]) (auto simp: u same_core_def core_def)
  qed
  obtain w' u' cx c2 where w': "vde_context_new_component ?E ctx VDE_TRANSPORT (Some ''vde2'') (Some name)
      (SHash [(''path'', SString dir)]) w = Inr ((0, Some ?p), w')" "booted ?E ctx w'" "grown ?p w w'"
    "ctx_ents ctx w' = ctx_ents ctx w @ [(quark_id X name, ?p)]" "?Q u'" "w_comp u' ?p = Some c2"
    "w' = u'\<lparr>w_ctx := cx, w_comp := (w_comp u')(?p \<mapsto> c2\<lparr>initialized := True, refcount := 1\<rparr>)\<rparr>"
    using booted_new_component [OF assms(1) repo_modules_mem(1) repo_module_cops(1), of Transport_vde2_init name
        "SHash [(''path'', SString dir)]" ?p ?Q] init assms(2,4)
    unfolding repo_module_simps dispatch_outside component_ops.select_convs by blast
  then show ?thesis
    by (intro exI [of _ w'] exI [of _ "c2\<lparr>initialized := True, refcount := 1\<rparr>"]) (simp add: repo_module_simps)
qed

lemma hub_started_frame:
  assumes "hub_started p k u u'" and "fresh_above u" and "w_comp u p = Some k" and "b \<le> p" and "b \<le> brk u"
  shows "fresh_above u'" "grown b u u'" "brk u \<le> brk u'" "w_ctx u' = w_ctx u"
    "\<exists>cs sg. w_comp u' = (w_comp u)(p \<mapsto> k\<lparr>commands := cs, signals := sg, comp_priv := brk u\<rparr>)"
proof -
  obtain s1 s2 cs sg where s: "but_commands u' = but_commands (u\<lparr>brk := Suc (Suc (Suc (brk u))),
      w_hub := (w_hub u)(brk u \<mapsto> \<lparr>hub_component = p, ports = []\<rparr>),
      w_signal := (w_signal u)(Suc (brk u) \<mapsto> s1, Suc (Suc (brk u)) \<mapsto> s2)\<rparr>)"
    "w_comp u' = (w_comp u)(p \<mapsto> k\<lparr>commands := cs, signals := sg, comp_priv := brk u\<rparr>)"
    using assms(1) by (auto simp: hub_started_def)
  note f = but_commands_fields [OF s(1)]
  show "brk u \<le> brk u'" "w_ctx u' = w_ctx u" using f(1,7) by simp_all
  then have ev: "ctx_events u' = ctx_events u" by (intro ctx_events_cong)
  have "p \<noteq> NULL" using assms(2,3) by (auto simp: fresh_above_def)
  moreover have "p < brk u" by (rule fresh_above_below(1) [OF assms(2,3)])
  ultimately show "fresh_above u'" using assms(2) unfolding fresh_above_def f s(2) by simp
  show "grown b u u'" using assms(4,5) unfolding grown_def f s(2) ev by simp
  show "\<exists>cs sg. w_comp u' = (w_comp u)(p \<mapsto> k\<lparr>commands := cs, signals := sg, comp_priv := brk u\<rparr>)" using s(2) by blast
qed

text \<open>What the startup needs of the generated arrays of commands.\<close>

definition commands_ok :: "vde_command list \<Rightarrow> bool" where
  "commands_ok xs \<longleftrightarrow> (\<exists>ys. named_array cmd_name ys xs \<and> distinct (map (the \<circ> cmd_name) ys))"

lemma no_listeners_keep:
  assumes "no_listeners u p" and "w_signal w' = w_signal u" and "w_comp w' p = Some c'" and "w_comp u p = Some c"
    and "signals c' = signals c"
  shows "no_listeners w' p"
  using assms by (auto simp: no_listeners_def)

lemma hub_sys_keep:
  assumes "hub_sys p hub u" and "w_hub u hub = Some \<lparr>hub_component = p, ports = []\<rparr>" and "w_signal w' = w_signal u"
    and "w_hub w' = w_hub u" and "w_comp w' p = Some c'" and "w_comp u p = Some c"
    and "signals c' = signals c" and "comp_priv c' = comp_priv c"
  shows "hub_sys p hub w'"
  using assms no_listeners_keep [of u p w' c' c] by (auto simp: hub_sys_def)

lemma new_hub:
  assumes "booted (dispatch X (Suc n)) ctx w" and "\<And>k. \<not> malloc_null X k" and "commands_ok (engine_hub_commands X)"
    and "hget (ctx_ents ctx w) (quark_id X name) = NULL"
  shows "\<exists>w' g. vde_context_new_component (dispatch X (Suc n)) ctx VDE_ENGINE (Some ''hub'') (Some name) SNull w =
      Inr ((0, Some (brk w)), w') \<and> booted (dispatch X (Suc n)) ctx w' \<and>
    grown (brk w) w w' \<and> ctx_ents ctx w' = ctx_ents ctx w @ [(quark_id X name, brk w)] \<and> brk w < brk w' \<and>
    w_comp w' (brk w) = Some g \<and> comp_kind g = VDE_ENGINE \<and> c_eng_new_conn g = Some Hub_engine_newconn \<and>
    hub_sys (brk w) (Suc (brk w)) w' \<and> w_hub w' (Suc (brk w)) = Some \<lparr>hub_component = brk w, ports = []\<rparr>"
proof -
  let ?E = "dispatch X (Suc n)" and ?p = "brk w" and ?c = "component_setup (quark_id X name) engine_hub_module ctx zero_component"
  let ?Q = "\<lambda>u'. brk w < brk u' \<and> hub_sys ?p (Suc ?p) u' \<and> w_hub u' (Suc ?p) = Some \<lparr>hub_component = ?p, ports = []\<rparr> \<and>
    (\<exists>cs sg. w_comp u' ?p = Some (?c\<lparr>commands := cs, signals := sg, comp_priv := Suc ?p\<rparr>))"
  have fresh: "fresh_above w" and q: "quark_ok X" using assms(1) by (simp_all add: booted_def ctx_inv_def quark_ok_def)
  have p: "?p \<noteq> NULL" by (rule fresh_above_below(6) [OF fresh])
  obtain ys where ys: "named_array cmd_name ys (engine_hub_commands X)" "distinct (map (the \<circ> cmd_name) ys)"
    using assms(3) by (auto simp: commands_ok_def)
  have init: "init_runs ?E Engine_hub_init SNull ?p (\<lambda>u'. fresh_above u' \<and> grown ?p u u' \<and> ?Q u') u"
    if u: "u = w\<lparr>brk := Suc ?p, interned := ss, w_comp := (w_comp w)(?p \<mapsto> component_setup (quark_id ?E name) engine_hub_module ctx zero_component)\<rparr>"
    for u ss
  proof -
    have fu: "fresh_above u" unfolding u by (rule fresh_start [OF fresh])
    have c: "w_comp u ?p = Some ?c" and b: "brk u = Suc ?p" by (simp_all add: u)
    obtain u' where u': "engine_hub_init (dispatch X n) ?p SNull u = Inr (0, u')" "hub_started ?p ?c u u'"
      using hub_init_runs [OF c p, where E = "dispatch X n" and params = SNull and ys = ys] assms(2) ys q b
      by (auto simp: quark_ok_def)
    note f = hub_started_frame [OF u'(2) fu c order_refl, simplified b, OF le_SucI [OF order_refl]]
    have int: "set (interned u) \<subseteq> set (interned u')" using u'(2) by (simp add: hub_started_def)
    obtain cs sg where cs: "w_comp u' = (w_comp u)(?p \<mapsto> ?c\<lparr>commands := cs, signals := sg, comp_priv := Suc ?p\<rparr>)"
      using f(5) by blast
    have "?Q u'" using hub_started_sys [OF u'(2) p] f(3) cs b by auto
    moreover have "\<forall>q. same_core u u' q" using c cs by (auto simp: same_core_def core_def)
    ultimately show ?thesis unfolding init_runs_def
      using u'(1) f(1,2,4) int cs c
      by (intro exI [of _ u'] exI [of _ "?c\<lparr>commands := cs, signals := sg, comp_priv := Suc ?p\<rparr>"]) simp
  qed
  obtain w' u' cx c2 where w': "vde_context_new_component ?E ctx VDE_ENGINE (Some ''hub'') (Some name)
      SNull w = Inr ((0, Some ?p), w')" "booted ?E ctx w'" "grown ?p w w'"
    "ctx_ents ctx w' = ctx_ents ctx w @ [(quark_id X name, ?p)]" "?Q u'" "w_comp u' ?p = Some c2"
    "w' = u'\<lparr>w_ctx := cx, w_comp := (w_comp u')(?p \<mapsto> c2\<lparr>initialized := True, refcount := 1\<rparr>)\<rparr>"
    using booted_new_component [OF assms(1) repo_modules_mem(2) repo_module_cops(2), of Engine_hub_init name SNull ?p ?Q] init assms(2,4)
    unfolding repo_module_simps dispatch_outside component_ops.select_convs by blast
  let ?g = "c2\<lparr>initialized := True, refcount := 1\<rparr>"
  have g: "w_comp w' ?p = Some ?g" "w_signal w' = w_signal u'" "w_hub w' = w_hub u'" using w'(7) by simp_all
  have "hub_sys ?p (Suc ?p) w'"
    by (rule hub_sys_keep [OF _ _ g(2,3,1) w'(6)]) (use w'(5) in simp_all)
  moreover have "comp_kind ?g = VDE_ENGINE" "c_eng_new_conn ?g = Some Hub_engine_newconn"
    using w'(5,6) by (auto simp: repo_module_simps)
  moreover have "brk w < brk w'" "w_hub w' (Suc ?p) = Some \<lparr>hub_component = ?p, ports = []\<rparr>" using w'(5,7) by auto
  ultimately show ?thesis using w'(1-4) g(1) by blast
qed

lemma new_ctrl:
  assumes "booted (dispatch X (Suc n)) ctx w" and "\<And>k. \<not> malloc_null X k" and "commands_ok (engine_ctrl_commands X)"
    and "hget (ctx_ents ctx w) (quark_id X name) = NULL"
  shows "\<exists>w' g. vde_context_new_component (dispatch X (Suc n)) ctx VDE_ENGINE (Some ''ctrl'') (Some name) SNull w =
      Inr ((0, Some (brk w)), w') \<and> booted (dispatch X (Suc n)) ctx w' \<and>
    grown (brk w) w w' \<and> ctx_ents ctx w' = ctx_ents ctx w @ [(quark_id X name, brk w)] \<and> brk w < brk w' \<and>
    w_comp w' (brk w) = Some g \<and> comp_kind g = VDE_ENGINE"
proof -
  let ?E = "dispatch X (Suc n)" and ?p = "brk w" and ?c = "component_setup (quark_id X name) engine_ctrl_module ctx zero_component"
  let ?Q = "\<lambda>u'. brk w < brk u' \<and> (\<exists>cs. w_comp u' ?p = Some (?c\<lparr>commands := cs, comp_priv := Suc ?p\<rparr>))"
  have fresh: "fresh_above w" and q: "quark_ok X" using assms(1) by (simp_all add: booted_def ctx_inv_def quark_ok_def)
  have p: "?p \<noteq> NULL" by (rule fresh_above_below(6) [OF fresh])
  obtain ys where ys: "named_array cmd_name ys (engine_ctrl_commands X)" "distinct (map (the \<circ> cmd_name) ys)"
    using assms(3) by (auto simp: commands_ok_def)
  have init: "init_runs ?E Engine_ctrl_init SNull ?p (\<lambda>u'. fresh_above u' \<and> grown ?p u u' \<and> ?Q u') u"
    if u: "u = w\<lparr>brk := Suc ?p, interned := ss, w_comp := (w_comp w)(?p \<mapsto> component_setup (quark_id ?E name) engine_ctrl_module ctx zero_component)\<rparr>"
    for u ss
  proof -
    let ?F = "dispatch X n"
    have fu: "fresh_above u" unfolding u by (rule fresh_start [OF fresh])
    have c: "w_comp u ?p = Some ?c" and b: "brk u = Suc ?p" by (simp_all add: u)
    define u1 where "u1 = u\<lparr>brk := Suc (Suc ?p), w_ctrl := (w_ctrl u)(Suc ?p \<mapsto> \<lparr>ctrl_conns = [], ctrl_component = ?p\<rparr>)\<rparr>"
    have "cmd_inv ?F ?p u1" "\<forall>y\<in>set ys. cmd_view ?F ?p u1 (the (cmd_name y)) = None"
      using c p q by (simp_all add: u1_def cmd_inv_def keys_interned_def cmd_view_def quark_ok_def)
    from hub_commands_register [OF this(1) ys this(2)] obtain u2 where
      u2: "vde_component_commands_register ?F ?p (engine_ctrl_commands X) u1 = Inr (0, u2)" "cmd_frame ?p u1 u2"
      by blast
    from u2(2) obtain cs where cs: "w_comp u2 = (w_comp u)(?p \<mapsto> ?c\<lparr>commands := cs\<rparr>)" "set (interned u) \<subseteq> set (interned u2)"
      using c by (auto simp: cmd_frame_def u1_def)
    note f2 = cmd_frame_fields [OF u2(2)]
    let ?u' = "u2\<lparr>w_comp := (w_comp u2)(?p \<mapsto> ?c\<lparr>commands := cs, comp_priv := Suc ?p\<rparr>)\<rparr>"
    have "engine_ctrl_init ?F ?p SNull u = Inr (0, ?u')"
      using p b assms(2) u2(1) cs(1) by (simp add: engine_ctrl_init_def mon vde_component_set_priv_def u1_def)
    moreover have "fresh_above ?u'" using fu p unfolding fresh_above_def by (simp add: f2 u1_def cs(1) b)
    moreover have "ctx_events ?u' = ctx_events u" by (rule ctx_events_cong) (simp add: f2 u1_def)
    then have "grown ?p u ?u'" unfolding grown_def by (simp add: f2 u1_def cs(1) b)
    moreover have "?Q ?u'" using f2(1) by (auto simp: u1_def)
    moreover have "\<forall>q. same_core u ?u' q" using c cs(1) by (auto simp: same_core_def core_def)
    moreover have "w_ctx ?u' = w_ctx u" using f2(7) by (simp add: u1_def)
    ultimately show ?thesis unfolding init_runs_def
      using cs(2) c
      by (intro exI [of _ ?u'] exI [of _ "?c\<lparr>commands := cs, comp_priv := Suc ?p\<rparr>"]) simp
  qed
  obtain w' u' cx c2 where w': "vde_context_new_component ?E ctx VDE_ENGINE (Some ''ctrl'') (Some name)
      SNull w = Inr ((0, Some ?p), w')" "booted ?E ctx w'" "grown ?p w w'"
    "ctx_ents ctx w' = ctx_ents ctx w @ [(quark_id X name, ?p)]" "?Q u'" "w_comp u' ?p = Some c2"
    "w' = u'\<lparr>w_ctx := cx, w_comp := (w_comp u')(?p \<mapsto> c2\<lparr>initialized := True, refcount := 1\<rparr>)\<rparr>"
    using booted_new_component [OF assms(1) repo_modules_mem(3) repo_module_cops(3), of Engine_ctrl_init name SNull ?p ?Q] init assms(2,4)
    unfolding repo_module_simps dispatch_outside component_ops.select_convs by blast
  moreover have "comp_kind c2 = VDE_ENGINE" using w'(5,6) by (auto simp: repo_module_simps)
  ultimately show ?thesis
    by (intro exI [of _ w'] exI [of _ "c2\<lparr>initialized := True, refcount := 1\<rparr>"]) simp
qed

text \<open>
  A connection manager between a transport and an engine of the context: besides the new records,
  the two components change by a reference each, and the transport by its callbacks.
\<close>

definition managed :: "ptr \<Rightarrow> ptr \<Rightarrow> ptr \<Rightarrow> world \<Rightarrow> world \<Rightarrow> bool" where
  "managed t e component w w' \<longleftrightarrow> w_tr w' = w_tr w \<and> w_hub w' = w_hub w \<and> w_signal w' = w_signal w \<and>
     (\<exists>ct ce kc. w_comp w t = Some ct \<and> w_comp w e = Some ce \<and> w_comp w' component = Some kc \<and>
        comp_kind kc = VDE_CONNECTION_MANAGER \<and> c_cm_listen kc = Some Conn_manager_listen \<and>
        w_cm w' (comp_priv kc) = Some \<lparr>cm_transport = t, cm_engine = e, cm_component = component,
          pending_conns = [], do_remote_authorization = 0\<rparr> \<and>
        w_comp w' t = Some (ct\<lparr>refcount := refcount ct + 1, c_cm_connect_cb := Some Conn_manager_connect_cb,
          c_cm_accept_cb := Some Conn_manager_accept_cb, c_cm_error_cb := Some Conn_manager_error_cb,
          cm_cb_arg := component\<rparr>) \<and>
        w_comp w' e = Some (ce\<lparr>refcount := refcount ce + 1\<rparr>))"

lemma named_in_ctx:
  assumes "ctx_inv E ctx w" and "(quark_id E s, p) \<in> set (ctx_ents ctx w)" and "w_comp w p = Some c" and "comp_kind c = kind"
  shows "named_component E ctx w kind (SString s) = Some p"
  using ents_lookup [OF assms(1,2)] assms(3,4) by (simp add: named_component_def Let_def)

lemma new_conn_manager:
  assumes "booted (dispatch X (Suc n)) ctx w" and "\<And>k. \<not> malloc_null X k"
    and "hget (ctx_ents ctx w) (quark_id X name) = NULL"
    and "(quark_id X tname, t) \<in> set (ctx_ents ctx w)" and "w_comp w t = Some ct" and "comp_kind ct = VDE_TRANSPORT"
    and "(quark_id X ename, e) \<in> set (ctx_ents ctx w)" and "w_comp w e = Some ce" and "comp_kind ce = VDE_ENGINE"
    and "b \<le> t" and "b \<le> e" and "b \<le> brk w"
  shows "\<exists>w'. vde_context_new_component (dispatch X (Suc n)) ctx VDE_CONNECTION_MANAGER (Some ''default'') (Some name)
      (SHash [(''engine'', SString ename), (''transport'', SString tname)]) w =
      Inr ((0, Some (brk w)), w') \<and> booted (dispatch X (Suc n)) ctx w' \<and> grown b w w' \<and>
    ctx_ents ctx w' = ctx_ents ctx w @ [(quark_id X name, brk w)] \<and> managed t e (brk w) w w'"
proof -
  let ?E = "dispatch X (Suc n)" and ?p = "brk w" and ?c = "component_setup (quark_id X name) conn_manager_module ctx zero_component"
  let ?par = "SHash [(''engine'', SString ename), (''transport'', SString tname)]"
  let ?m = "\<lparr>cm_transport = t, cm_engine = e, cm_component = ?p, pending_conns = [], do_remote_authorization = 0\<rparr>"
  let ?ct = "ct\<lparr>refcount := refcount ct + 1, c_cm_connect_cb := Some Conn_manager_connect_cb,
    c_cm_accept_cb := Some Conn_manager_accept_cb, c_cm_error_cb := Some Conn_manager_error_cb, cm_cb_arg := ?p\<rparr>"
  let ?ce = "ce\<lparr>refcount := refcount ce + 1\<rparr>" and ?k = "?c\<lparr>comp_priv := Suc ?p\<rparr>"
  let ?Q = "\<lambda>u'. w_tr u' = w_tr w \<and> w_hub u' = w_hub w \<and> w_signal u' = w_signal w \<and> w_cm u' (Suc ?p) = Some ?m \<and>
    w_comp u' t = Some ?ct \<and> w_comp u' e = Some ?ce \<and> w_comp u' ?p = Some ?k"
  have fresh: "fresh_above w" and inv: "ctx_inv ?E ctx w" using assms(1) by (simp_all add: booted_def)
  have p: "?p \<noteq> NULL" "w_comp w ?p = None" by (rule fresh_above_below(6,7) [OF fresh])+
  have d: "t \<noteq> e" "t \<noteq> ?p" "e \<noteq> ?p" using assms(5,6,8,9) p(2) by auto
  have init: "init_runs ?E Conn_manager_init ?par ?p (\<lambda>u'. fresh_above u' \<and> grown b u u' \<and> ?Q u') u"
    if u: "u = w\<lparr>brk := Suc ?p, interned := ss, w_comp := (w_comp w)(?p \<mapsto> component_setup (quark_id ?E name) conn_manager_module ctx zero_component)\<rparr>"
      and ss: "set (interned w) \<subseteq> set ss" for u ss
  proof -
    let ?F = "dispatch X n"
    have fu: "fresh_above u" unfolding u by (rule fresh_start [OF fresh])
    have inv': "ctx_inv ?F ctx w" using inv by (simp add: ctx_inv_def quark_ok_def keys_interned_def)
    note st = ctx_inv_start(1,2) [OF inv' p(2) ss, where b = "Suc ?p" and c = ?c] ctx_inv_start(3) [OF inv' p(2) ss]
    have c: "w_comp u ?p = Some ?c" "comp_ctx ?c = ctx" and b: "brk u = Suc ?p" by (simp_all add: u)
    have uw: "u = w\<lparr>brk := Suc ?p, interned := ss, w_comp := (w_comp w)(?p \<mapsto> ?c)\<rparr>" using u by simp
    have inv_u: "ctx_inv ?F ctx u" "ctx_ents ctx u = ctx_ents ctx w" "?p \<notin> snd ` set (ctx_ents ctx u)"
      using st unfolding uw by simp_all
    have "named_component ?F ctx u VDE_TRANSPORT (SString tname) = Some t"
      by (rule named_in_ctx [OF inv_u(1)]) (use assms(4-6) d inv_u(2) in \<open>simp_all add: u\<close>)
    moreover have "named_component ?F ctx u VDE_ENGINE (SString ename) = Some e"
      by (rule named_in_ctx [OF inv_u(1)]) (use assms(7-9) d inv_u(2) in \<open>simp_all add: u\<close>)
    ultimately have par: "cm_params ?F ctx u ?par = Some (t, e, 0)"
      by (simp add: cm_params_def auth_flag_def)
    let ?u' = "cm_started ?p t e 0 u"
    have run: "conn_manager_init ?F ?p ?par u = Inr (0, ?u')"
      using conn_manager_init_eval [OF inv_u(1) c(1) p(1) c(2) inv_u(3), of ?par] par assms(2) b by simp
    have u': "?u' = u\<lparr>brk := Suc (Suc ?p), w_cm := (w_cm u)(Suc ?p \<mapsto> ?m),
        w_comp := (w_comp u)(t \<mapsto> ?ct, e \<mapsto> ?ce, ?p \<mapsto> ?k)\<rparr>"
      using assms(5,8) d by (simp add: cm_started_def Let_def u)
    have tw: "t < ?p" "e < ?p" "t \<noteq> NULL" "e \<noteq> NULL"
      using fresh_above_below(1) [OF fresh] assms(5,8) fresh by (auto simp: fresh_above_def)
    have "fresh_above ?u'" using fu p(1) tw unfolding fresh_above_def u' by (simp add: b)
    moreover have "grown b u ?u'" using assms(10-12) unfolding grown_def u' by (simp add: b u)
    moreover have "?Q ?u'" using d unfolding u' by (simp add: u)
    moreover have "\<forall>q. same_core u ?u' q"
      using assms(5,8) d c(1) unfolding u' by (auto simp: same_core_def core_def u)
    ultimately show ?thesis unfolding init_runs_def
      using run c by (intro exI [of _ ?u'] exI [of _ ?k]) (simp add: u')
  qed
  obtain w' u' cx c2 where w': "vde_context_new_component ?E ctx VDE_CONNECTION_MANAGER (Some ''default'') (Some name)
      ?par w = Inr ((0, Some ?p), w')" "booted ?E ctx w'" "grown b w w'"
    "ctx_ents ctx w' = ctx_ents ctx w @ [(quark_id X name, ?p)]" "?Q u'" "w_comp u' ?p = Some c2"
    "w' = u'\<lparr>w_ctx := cx, w_comp := (w_comp u')(?p \<mapsto> c2\<lparr>initialized := True, refcount := 1\<rparr>)\<rparr>"
    using booted_new_component [OF assms(1) repo_modules_mem(4) repo_module_cops(4), of Conn_manager_init name ?par b ?Q] init assms(2,3,12)
    unfolding repo_module_simps dispatch_outside component_ops.select_convs by blast
  have "managed t e ?p w w'"
    unfolding managed_def
    by (intro conjI exI [of _ ct] exI [of _ ce] exI [of _ "c2\<lparr>initialized := True, refcount := 1\<rparr>"])
      (use w'(5-7) assms(5,8) d in \<open>simp_all add: repo_module_simps\<close>)
  with w'(1-4) show ?thesis by blast
qed

section \<open>Listening\<close>

text \<open>The system calls of \<open>vde2_listen\<close> succeed; the directory may be there already.\<close>

definition listen_calls_ok :: "env \<Rightarrow> bool" where
  "listen_calls_ok X \<longleftrightarrow> (\<forall>tr fd dir sa n. 0 \<le> retval (sys X tr Sys_socket_stream) \<and>
     0 \<le> retval (sys X tr (Sys_setsockopt fd)) \<and> 0 \<le> retval (sys X tr (Sys_fcntl_nonblock fd)) \<and>
     (0 \<le> retval (sys X tr (Sys_mkdir dir)) \<or> reterrno (sys X tr (Sys_mkdir dir)) = EEXIST) \<and>
     0 \<le> retval (sys X tr (Sys_bind fd sa)) \<and> 0 \<le> retval (sys X tr (Sys_listen fd n)))"

definition listening :: "ptr \<Rightarrow> vde2_tr \<Rightarrow> world \<Rightarrow> world \<Rightarrow> bool" where
  "listening tr t w w' \<longleftrightarrow> (\<exists>ev fd. ev \<noteq> NULL \<and>
     quiet (w\<lparr>w_tr := (w_tr w)(tr \<mapsto> t\<lparr>listen_fd := fd, listen_event := ev\<rparr>)\<rparr>) w')"

lemma listening_state:
  assumes "ev \<noteq> NULL"
  shows "listening tr t w (w\<lparr>errno := e, trace := l, w_tr := (w_tr w)(tr \<mapsto> t\<lparr>listen_fd := fd, listen_event := ev\<rparr>)\<rparr>)"
    "listening tr t w (w\<lparr>trace := l, w_tr := (w_tr w)(tr \<mapsto> t\<lparr>listen_fd := fd, listen_event := ev\<rparr>)\<rparr>)"
  using assms unfolding listening_def quiet_def by (auto intro!: exI [of _ ev] exI [of _ fd])

lemma listen_succeeds:
  assumes "listen_calls_ok E" and "events_ok E" and "w_comp w component = Some k" and "component \<noteq> NULL"
    and "w_tr w (comp_priv k) = Some t" and "ctx_events w (comp_ctx k)"
  shows "\<exists>w'. vde2_listen E component w = Inr (0, w') \<and> listening (comp_priv k) t w w'"
proof -
  define fd where "fd = retval (sys E (trace w) Sys_socket_stream)"
  let ?add = "vde_context_event_add E (comp_ctx k) fd (VDE_EV_READ + VDE_EV_PERSIST) None Vde2_accept component"
  define ev where "ev u = (SOME p. p \<noteq> NULL \<and> ?add u = Inr (p, u))" for u
  have ev: "ev u \<noteq> NULL \<and> ?add u = Inr (ev u, u)" if "w_ctx u = w_ctx w" for u
    unfolding ev_def by (rule someI_ex, rule event_add_ok [OF assms(2)]) (use assms(6) that in \<open>simp add: ctx_events_def\<close>)
  have calls: "\<not> retval (sys E tr Sys_socket_stream) < 0" "\<not> retval (sys E tr (Sys_setsockopt n)) < 0"
    "\<not> retval (sys E tr (Sys_fcntl_nonblock n)) < 0" "\<not> retval (sys E tr (Sys_bind n sa)) < 0"
    "\<not> retval (sys E tr (Sys_listen n j)) < 0"
    "retval (sys E tr (Sys_mkdir dir)) < 0 \<Longrightarrow> reterrno (sys E tr (Sys_mkdir dir)) = EEXIST" for tr n sa j dir
    using assms(1) unfolding listen_calls_ok_def by (simp_all add: not_less) (meson not_le)
  show ?thesis
    using assms(3-5) calls ev
    by (simp add: vde2_listen_def mon Let_def fd_def listening_state)
qed

lemma quiet_all:
  assumes "quiet w w'"
  shows "brk w' = brk w" "interned w' = interned w" "w_conn w' = w_conn w" "w_lc w' = w_lc w" "w_signal w' = w_signal w"
    "w_module w' = w_module w" "w_ctx w' = w_ctx w" "w_hub w' = w_hub w" "w_ctrl w' = w_ctrl w" "w_cc w' = w_cc w"
    "w_pc w' = w_pc w" "w_cm w' = w_cm w" "w_v2c w' = w_v2c w" "w_tr w' = w_tr w" "w_comp w' = w_comp w"
  using assms by (cases w, cases w', simp add: quiet_def)+

lemma manager_listens:
  assumes "listen_calls_ok X" and "events_ok X" and "booted E ctx w" and "managed t e component w0 w"
    and "w_comp w0 t = Some ct" and "comp_kind ct = VDE_TRANSPORT" and "c_tr_listen ct = Some Vde2_listen"
    and "comp_ctx ct = ctx" and "w_tr w0 (comp_priv ct) = Some tt"
  shows "\<exists>w'. vde_conn_manager_listen (dispatch X (Suc (Suc d))) component w = Inr (0, w') \<and>
    listening (comp_priv ct) tt w w'"
proof -
  obtain kc where kc: "w_comp w component = Some kc" "comp_kind kc = VDE_CONNECTION_MANAGER"
    "c_cm_listen kc = Some Conn_manager_listen" "w_cm w (comp_priv kc) = Some \<lparr>cm_transport = t, cm_engine = e,
      cm_component = component, pending_conns = [], do_remote_authorization = 0\<rparr>"
    and t: "w_comp w t = Some (ct\<lparr>refcount := refcount ct + 1, c_cm_connect_cb := Some Conn_manager_connect_cb,
      c_cm_accept_cb := Some Conn_manager_accept_cb, c_cm_error_cb := Some Conn_manager_error_cb,
      cm_cb_arg := component\<rparr>)" (is "_ = Some ?ct")
    and tr: "w_tr w = w_tr w0"
    using assms(4,5) by (auto simp: managed_def)
  have ne: "component \<noteq> NULL" "t \<noteq> NULL" and ev: "ctx_events w ctx"
    using assms(3) kc(1) t by (auto simp: booted_def fresh_above_def)
  obtain w' where w': "vde2_listen (dispatch X d) t w = Inr (0, w')" "listening (comp_priv ct) tt w w'"
    using listen_succeeds [OF _ _ t ne(2), of "dispatch X d" tt] assms(1,2,8,9) ev tr
    by (auto simp: listen_calls_ok_def events_ok_def)
  then show ?thesis
    using kc t ne assms(6,7)
    by (simp add: vde_conn_manager_listen_def conn_manager_listen_def vde_transport_listen_def
        vde_component_get_priv_def mon)
qed

lemma listening_keeps:
  assumes "listening tr t w w'" and "booted E ctx w" and "w_tr w tr \<noteq> None" and "b \<le> tr"
  shows "booted E ctx w'" and "grown b w w'" and "ctx_ents ctx w' = ctx_ents ctx w"
proof -
  obtain fd ev where q: "quiet (w\<lparr>w_tr := (w_tr w)(tr \<mapsto> t\<lparr>listen_fd := fd, listen_event := ev\<rparr>)\<rparr>) w'"
    using assms(1) by (auto simp: listening_def)
  note f = quiet_all [OF q, simplified]
  have b: "fresh_above w" "ctx_inv E ctx w" "modules_inv E ctx w" "ctx_events w ctx" "\<forall>m\<in>set repo_modules. has_module w ctx m"
    using assms(2) by (simp_all add: booted_def)
  have ev: "ctx_events w' = ctx_events w" by (rule ctx_events_cong) (rule f)
  show ents: "ctx_ents ctx w' = ctx_ents ctx w" unfolding ctx_ents_def f ..
  have "tr < brk w" "tr \<noteq> NULL" using assms(3) b(1) fresh_above_below(5) [OF b(1)] by (auto simp: fresh_above_def)
  then have "fresh_above w'" using b(1) unfolding fresh_above_def f by simp
  moreover have "ctx_inv E ctx w'"
    using b(2) unfolding ctx_inv_def f keys_interned_def entry_ok_def .
  moreover have "modules_inv E ctx w'" "\<forall>m\<in>set repo_modules. has_module w' ctx m"
    using b(3,5) unfolding modules_inv_def modules_ok_def has_module_def f by simp_all
  ultimately show "booted E ctx w'" using b(4) ev by (simp add: booted_def)
  show "grown b w w'" using assms(4) unfolding grown_def f ev by simp
qed

end
