(* ===== verification/HubSpec.thy ===== *)
theory HubSpec
  imports Switch "HOL-Library.Sublist"
begin

text \<open>
  What a hub promises, without memory, packets or events: a list of ports, each with the frames
  that wait there. The specification moves by labelled steps; the switch of \<open>Switch\<close>, with the
  same labels on its steps, refines it: every run of the program is a run of the
  specification between the abstractions of its states. What holds of every run of the
  specification (frames leave a port in order, at most once, and only frames of other ports)
  then holds of the program.
\<close>

section \<open>Runs and simulations\<close>

inductive lts_run :: "('s \<Rightarrow> 'l \<Rightarrow> 's \<Rightarrow> bool) \<Rightarrow> 's \<Rightarrow> 'l list \<Rightarrow> 's \<Rightarrow> bool" for step where
  run_nil: "lts_run step s [] s"
| run_snoc: "lts_run step s ls t \<Longrightarrow> step t l u \<Longrightarrow> lts_run step s (ls @ [l]) u"

lemma lts_run_reach: "lts_run step s ls t \<Longrightarrow> (\<lambda>a b. \<exists>l. step a l b)\<^sup>*\<^sup>* s t"
  by (induction rule: lts_run.induct) (auto intro: rtranclp.rtrancl_into_rtrancl)

text \<open>A functional forward simulation, label by label, under an invariant of the detailed system.\<close>

locale lts_simulation =
  fixes cstep :: "'s \<Rightarrow> 'l \<Rightarrow> 's \<Rightarrow> bool" and astep :: "'t \<Rightarrow> 'l \<Rightarrow> 't \<Rightarrow> bool"
    and good :: "'s \<Rightarrow> bool" and abst :: "'s \<Rightarrow> 't"
  assumes good_step: "good s \<Longrightarrow> cstep s l t \<Longrightarrow> good t"
    and sim_step: "good s \<Longrightarrow> cstep s l t \<Longrightarrow> astep (abst s) l (abst t)"
begin

lemma run_simulated:
  assumes "lts_run cstep s ls t" and "good s"
  shows "lts_run astep (abst s) ls (abst t) \<and> good t"
  using assms
proof induction
  case (run_snoc s ls t l u)
  then show ?case using sim_step good_step by (blast intro: lts_run.run_snoc)
qed (simp add: lts_run.run_nil)

lemma spec_property:
  assumes "\<And>a ls b. lts_run astep a ls b \<Longrightarrow> P a \<Longrightarrow> Q a ls b" and "lts_run cstep s ls t" and "good s" and "P (abst s)"
  shows "Q (abst s) ls (abst t)"
  using run_simulated assms by blast

end

section \<open>The specification\<close>

type_synonym frame = "char list"

datatype hub_label =
    Join ptr
  | Frame ptr frame
  | Unqueued ptr "frame list"
  | Gone ptr
  | Idle

type_synonym port_view = "(ptr \<times> frame list) list"

definition spec_room :: nat where
  "spec_room = 4192"

definition spec_deliver :: "ptr \<Rightarrow> frame \<Rightarrow> ptr \<times> frame list \<Rightarrow> ptr \<times> frame list" where
  "spec_deliver p bs = (\<lambda>(q, fs).
     (q, if q \<noteq> p \<and> 14 \<le> length bs \<and> length fs < spec_room then fs @ [bs] else fs))"

inductive hub_spec :: "port_view \<Rightarrow> hub_label \<Rightarrow> port_view \<Rightarrow> bool" where
  spec_join: "p \<notin> fst ` set S \<Longrightarrow> hub_spec S (Join p) ((p, []) # S)"
| spec_frame: "p \<in> fst ` set S \<Longrightarrow> hub_spec S (Frame p bs) (map (spec_deliver p bs) S)"
| spec_unqueued: "(p, fs @ rest) \<in> set S \<Longrightarrow>
    hub_spec S (Unqueued p fs) (map (\<lambda>(q, gs). (q, if q = p then rest else gs)) S)"
| spec_gone: "p \<in> fst ` set S \<Longrightarrow> hub_spec S (Gone p) (filter (\<lambda>(q, _). q \<noteq> p) S)"
| spec_idle: "hub_spec S Idle S"

inductive_cases hub_specE: "hub_spec S l S'"

text \<open>The frames that other ports received for a port, and those that left its queue.\<close>

fun arrived :: "ptr \<Rightarrow> hub_label list \<Rightarrow> frame list" where
  "arrived q [] = []"
| "arrived q (Frame p bs # ls) = (if p \<noteq> q \<and> 14 \<le> length bs then bs # arrived q ls else arrived q ls)"
| "arrived q (_ # ls) = arrived q ls"

fun departed :: "ptr \<Rightarrow> hub_label list \<Rightarrow> frame list" where
  "departed q [] = []"
| "departed q (Unqueued p fs # ls) = (if p = q then fs @ departed q ls else departed q ls)"
| "departed q (_ # ls) = departed q ls"

lemma arrived_append [simp]: "arrived q (ls @ ms) = arrived q ls @ arrived q ms"
  by (induction q ls rule: arrived.induct) auto

lemma departed_append [simp]: "departed q (ls @ ms) = departed q ls @ departed q ms"
  by (induction q ls rule: departed.induct) auto

lemma hub_spec_distinct: "hub_spec S l S' \<Longrightarrow> distinct (map fst S) \<Longrightarrow> distinct (map fst S')"
  by (induction rule: hub_spec.induct)
    (auto simp: spec_deliver_def comp_def case_prod_unfold distinct_map_filter)

lemma map_of_map_snd: "map_of (map (\<lambda>(q, gs). (q, f q gs)) S) q = map_option (f q) (map_of S q)"
  by (induction S) auto

lemma map_of_filter_key: "q \<noteq> p \<Longrightarrow> map_of (filter (\<lambda>(q, _). q \<noteq> p) S) q = map_of S q"
  by (induction S) auto

text \<open>One step, seen from a port that stays.\<close>

lemma hub_spec_port:
  assumes "hub_spec S l S'" and "distinct (map fst S)" and "map_of S q = Some fs" and "l \<noteq> Gone q"
  shows "\<exists>gs. map_of S' q = Some gs \<and> subseq (departed q [l] @ gs) (fs @ arrived q [l])"
  using assms
proof (induction rule: hub_spec.induct)
  case (spec_join p S)
  then have "q \<noteq> p" by (metis domI dom_map_of_conv_image_fst)
  with spec_join show ?case by simp
next
  case (spec_frame p S bs)
  then show ?case
    by (auto simp: spec_deliver_def map_of_map_snd subseq_append_iff)
next
  case (spec_unqueued p gs rest S)
  then have "q = p \<Longrightarrow> fs = gs @ rest" by simp
  with spec_unqueued(3) show ?case by (auto simp: map_of_map_snd)
next
  case (spec_gone p S)
  then show ?case by (simp add: map_of_filter_key)
qed auto

lemma spec_run_in_order:
  assumes "lts_run hub_spec S ls S'" and "distinct (map fst S)" and "map_of S q = Some fs" and "Gone q \<notin> set ls"
  shows "distinct (map fst S') \<and> (\<exists>gs. map_of S' q = Some gs \<and> subseq (departed q ls @ gs) (fs @ arrived q ls))"
  using assms
proof (induction)
  case (run_snoc S ls T l U)
  then obtain gs where gs: "distinct (map fst T)" "map_of T q = Some gs" "subseq (departed q ls @ gs) (fs @ arrived q ls)"
    by auto
  have "l \<noteq> Gone q" using run_snoc.prems by auto
  from hub_spec_port [OF run_snoc.hyps(2) gs(1,2) this] obtain ks
    where ks: "map_of U q = Some ks" "subseq (departed q [l] @ ks) (gs @ arrived q [l])" by blast
  have "subseq (departed q ls @ departed q [l] @ ks) (departed q ls @ gs @ arrived q [l])"
    using ks(2) by (simp add: list_emb_append_mono)
  moreover have "subseq ((departed q ls @ gs) @ arrived q [l]) ((fs @ arrived q ls) @ arrived q [l])"
    by (rule list_emb_append_mono [OF gs(3) subseq_order.order_refl])
  ultimately have "subseq (departed q (ls @ [l]) @ ks) (fs @ arrived q (ls @ [l]))"
    unfolding arrived_append departed_append append_assoc by (rule subseq_order.order_trans)
  with ks(1) hub_spec_distinct [OF run_snoc.hyps(2) gs(1)] show ?case by blast
qed auto

section \<open>The switch, with labels\<close>

definition hub_view :: "ptr \<Rightarrow> world \<Rightarrow> port_view" where
  "hub_view hub w = map (\<lambda>p. (p, v2_waiting w p)) (ports (the (w_hub w hub)))"

text \<open>
  What an event did, read off the states before and after it: the answer of a handshake makes
  its connection a port or not, the arrival of a datagram is the frame \<open>recvfrom\<close> gave, a write
  event takes the first frames out of the queue of its port, and the last two may lose the port.
\<close>

definition event_label :: "env \<Rightarrow> ptr \<Rightarrow> event_cb \<Rightarrow> ptr \<Rightarrow> world \<Rightarrow> world \<Rightarrow> hub_label" where
  "event_label E hub cb arg w w' =
     (let p = v2_conn (the (w_v2c w arg)); stays = (p \<in> set (ports (the (w_hub w' hub)))) in
      if cb = Vde2_srv_send_request then (if stays then Join p else Idle)
      else if cb = Vde2_conn_read_data_event then
        Frame p (retbytes (sys E (trace w) (Sys_recvfrom (data_fd (v2_rec w p)) 1518)))
      else if cb = Vde2_conn_write_data_event then
        (if stays then Unqueued p (take (length (v2_waiting w p) - length (v2_waiting w' p)) (v2_waiting w p)) else Gone p)
      else if cb = Vde2_conn_read_ctl_event then (if stays then Idle else Gone p)
      else Idle)"

inductive switch_lstep :: "nat \<Rightarrow> env \<Rightarrow> ptr \<Rightarrow> ptr \<Rightarrow> ptr \<Rightarrow> world \<Rightarrow> hub_label \<Rightarrow> world \<Rightarrow> bool"
  for n E transport component hub where
  lstep_event: "due w transport hub cb arg \<Longrightarrow> run_event n E ext cb fd arg w = Inr ((), w') \<Longrightarrow>
    switch_lstep n E transport component hub w (event_label E hub cb arg w w') w'"
| lstep_outside: "outside transport component hub w w' \<Longrightarrow> switch_lstep n E transport component hub w Idle w'"

lemma switch_step_labelled:
  "switch_step n E transport component hub w w' \<longleftrightarrow> (\<exists>l. switch_lstep n E transport component hub w l w')"
proof
  assume "switch_step n E transport component hub w w'"
  then show "\<exists>l. switch_lstep n E transport component hub w l w'"
    by cases (blast intro: lstep_event lstep_outside)+
next
  assume "\<exists>l. switch_lstep n E transport component hub w l w'"
  then obtain l where "switch_lstep n E transport component hub w l w'" ..
  then show "switch_step n E transport component hub w w'"
    by cases (blast intro: switch_event switch_outside)+
qed

section \<open>The switch refines the specification\<close>

lemma hub_view_same:
  assumes "w_hub w hub = Some h" and "w_hub w' hub = Some h" and "\<And>p. p \<in> set (ports h) \<Longrightarrow> v2_waiting w' p = v2_waiting w p"
  shows "hub_view hub w' = hub_view hub w"
  using assms by (simp add: hub_view_def)

lemma elsewhere_view:
  assumes "elsewhere component hub w w'" and "hub_sys component hub w"
  shows "hub_view hub w' = hub_view hub w"
proof -
  obtain h where h: "w_hub w hub = Some h" "\<And>p. p \<in> set (ports h) \<Longrightarrow> v2_port w hub p"
    using assms(2) by (auto simp: hub_sys_def)
  have "v2_rec w' p = v2_rec w p" if "p \<in> set (ports h)" for p
    using h(2) [OF that] assms(1) h(1) that by (auto simp: elsewhere_def v2_port_def v2_at_def v2_rec_def)
  then show ?thesis
    using assms(1) h(1) by (intro hub_view_same) (auto simp: elsewhere_def v2_waiting_def)
qed

lemma aside_waiting:
  assumes "aside out tr conn (be_priv k) w w'" and "v2_at w conn k v" and "v2_port w hub p" and "p \<noteq> conn"
  shows "v2_waiting w' p = v2_waiting w p"
proof -
  obtain c x where c: "v2_at w p c x" using assms(3) by (auto simp: v2_port_def)
  have "be_priv c \<noteq> be_priv k" using v2_at_unique [OF c assms(2)] assms(4) by metis
  with assms(1,4) have "v2_rec w' p = v2_rec w p" by (simp add: aside_def v2_rec_def) (use c in \<open>simp add: v2_at_def\<close>)
  then show ?thesis by (simp add: v2_waiting_def)
qed

lemma spares_waiting:
  assumes "spares hub S w w'" and "v2_port w hub p" and "p \<notin> S"
  shows "v2_waiting w' p = v2_waiting w p"
  using assms v2_waiting_payloads unfolding spares_def v2_port_def by metis

lemma hub_view_gone:
  assumes "hub_sys component hub w" and "w_hub w hub = Some h" and "port_gone hub p w w'" and "spares hub {p} w w'"
  shows "hub_view hub w' = filter (\<lambda>(q, _). q \<noteq> p) (hub_view hub w)" and "p \<notin> set (ports (the (w_hub w' hub)))"
proof -
  have port: "\<And>q. q \<in> set (ports h) \<Longrightarrow> v2_port w hub q" and dist: "distinct (ports h)"
    using assms(1,2) by (auto simp: hub_sys_def)
  have left: "ports (the (w_hub w' hub)) = filter (\<lambda>q. q \<noteq> p) (ports h)"
    using assms(2,3) dist by (auto simp: port_gone_def distinct_remove1_removeAll removeAll_filter_not_eq conj_commute intro: filter_cong)
  then show "p \<notin> set (ports (the (w_hub w' hub)))" by simp
  have "v2_waiting w' q = v2_waiting w q" if "q \<in> set (ports h)" "q \<noteq> p" for q
    using spares_waiting [OF assms(4) port [OF that(1)]] that(2) by simp
  then show "hub_view hub w' = filter (\<lambda>(q, _). q \<noteq> p) (hub_view hub w)"
    using assms(2) left by (simp add: hub_view_def filter_map comp_def)
qed

text \<open>Event by event.\<close>

lemma ctl_event_spec:
  assumes "hub_env E" and "hub_sys component hub w" and "w_hub w hub = Some h" and "p \<in> set (ports h)"
    and "w_conn w p = Some c" and "vde2_conn_read_ctl_event E (be_priv c) w = Inr ((), w')"
  shows "hub_spec (hub_view hub w) (event_label E hub Vde2_conn_read_ctl_event (be_priv c) w w') (hub_view hub w')"
proof -
  have port: "\<And>q. q \<in> set (ports h) \<Longrightarrow> v2_port w hub q" using assms(2,3) by (auto simp: hub_sys_def)
  have arg: "v2_conn (the (w_v2c w (be_priv c))) = p" using port [OF assms(4)] assms(5) by (auto simp: v2_port_def v2_at_def)
  have ev: "spares hub {p} w w'" "port_gone hub p w w' \<or> w_hub w' = w_hub w \<and> v2_waiting w' p = v2_waiting w p"
    using ctl_event [OF assms(1,2) port [OF assms(4)] assms(5)] assms(6) by auto
  from ev(2) show ?thesis
  proof
    assume gone: "port_gone hub p w w'"
    have "p \<in> fst ` set (hub_view hub w)" using assms(3,4) by (force simp: hub_view_def)
    then show ?thesis using hub_view_gone [OF assms(2,3) gone ev(1)] arg by (simp add: event_label_def spec_gone)
  next
    assume same: "w_hub w' = w_hub w \<and> v2_waiting w' p = v2_waiting w p"
    have "hub_view hub w' = hub_view hub w"
      by (rule hub_view_same) (use same assms(3) spares_waiting [OF ev(1) port] in auto)
    with same assms(3,4) arg show ?thesis by (simp add: event_label_def spec_idle)
  qed
qed

lemma write_event_spec:
  assumes "hub_env E" and "hub_sys component hub w" and "w_hub w hub = Some h" and "p \<in> set (ports h)"
    and "w_conn w p = Some c" and "data_ev_wr (v2_rec w p) \<noteq> NULL" and "MAXQLEN < n"
    and "vde2_conn_write_data_event n E (be_priv c) w = Inr ((), w')"
  shows "hub_spec (hub_view hub w) (event_label E hub Vde2_conn_write_data_event (be_priv c) w w') (hub_view hub w')"
proof -
  have port: "\<And>q. q \<in> set (ports h) \<Longrightarrow> v2_port w hub q" using assms(2,3) by (auto simp: hub_sys_def)
  have arg: "v2_conn (the (w_v2c w (be_priv c))) = p" using port [OF assms(4)] assms(5) by (auto simp: v2_port_def v2_at_def)
  have ev: "spares hub {p} w w'"
    "port_gone hub p w w' \<or> w_hub w' = w_hub w \<and> (\<exists>fs. v2_waiting w p = fs @ v2_waiting w' p)"
    using write_event [OF assms(1,2) port [OF assms(4)] assms(5-7)] assms(8) by auto
  from ev(2) show ?thesis
  proof
    assume gone: "port_gone hub p w w'"
    have "p \<in> fst ` set (hub_view hub w)" using assms(3,4) by (force simp: hub_view_def)
    then show ?thesis using hub_view_gone [OF assms(2,3) gone ev(1)] arg by (simp add: event_label_def spec_gone)
  next
    assume "w_hub w' = w_hub w \<and> (\<exists>fs. v2_waiting w p = fs @ v2_waiting w' p)"
    then obtain fs where fs: "w_hub w' = w_hub w" "v2_waiting w p = fs @ v2_waiting w' p" by blast
    have "event_label E hub Vde2_conn_write_data_event (be_priv c) w w' = Unqueued p fs"
      using fs assms(3,4) arg by (simp add: event_label_def)
    moreover have "hub_view hub w' = map (\<lambda>(q, gs). (q, if q = p then v2_waiting w' p else gs)) (hub_view hub w)"
      using fs(1) assms(3) spares_waiting [OF ev(1) port] by (simp add: hub_view_def)
    moreover have "(p, fs @ v2_waiting w' p) \<in> set (hub_view hub w)" using fs(2) assms(3,4) by (force simp: hub_view_def)
    ultimately show ?thesis by (simp add: spec_unqueued)
  qed
qed

lemma read_event_spec:
  assumes "hub_env E" and "recv_ok E" and "hub_sys component hub w" and "w_hub w hub = Some h" and "p \<in> set (ports h)"
    and "w_conn w p = Some c" and "vde2_conn_read_data_event E (be_priv c) w = Inr ((), w')"
  shows "hub_spec (hub_view hub w) (event_label E hub Vde2_conn_read_data_event (be_priv c) w w') (hub_view hub w')"
proof -
  have port: "v2_port w hub p" using assms(3-5) by (auto simp: hub_sys_def)
  have arg: "v2_conn (the (w_v2c w (be_priv c))) = p" using port assms(6) by (auto simp: v2_port_def v2_at_def)
  obtain bs x where bs: "sys E (trace w) (Sys_recvfrom (data_fd (v2_rec w p)) 1518) =
      \<lparr>retval = int (length bs), reterrno = x, retbytes = bs\<rparr>" "length bs \<le> 1518"
    using assms(2) by (rule recv_ok_result)
  have ev: "w_hub w' = w_hub w" "\<forall>q\<in>set (ports h). v2_waiting w' q =
      (if q \<noteq> p \<and> 14 \<le> length bs \<and> v2_room w q then v2_waiting w q @ [bs] else v2_waiting w q)"
    using read_event [OF assms(1,3,4) port assms(6) bs] assms(7) by auto
  have "v2_room w q \<longleftrightarrow> length (v2_waiting w q) < spec_room" for q
    by (simp add: v2_room_def v2_waiting_def spec_room_def MAXQLEN_def)
  then have "hub_view hub w' = map (spec_deliver p bs) (hub_view hub w)"
    using ev assms(4) by (simp add: hub_view_def spec_deliver_def)
  moreover have "event_label E hub Vde2_conn_read_data_event (be_priv c) w w' = Frame p bs"
    using bs(1) arg by (simp add: event_label_def)
  moreover have "p \<in> fst ` set (hub_view hub w)" using assms(4,5) by (force simp: hub_view_def)
  ultimately show ?thesis by (simp add: spec_frame)
qed

lemma accept_event_spec:
  assumes "events_ok X" and "\<And>k. \<not> malloc_null X k" and "switch_inv transport component hub w"
    and "vde2_accept (dispatch X (d + 2)) fd transport w = Inr ((), w')"
  shows "hub_view hub w' = hub_view hub w"
proof -
  obtain kt t where kt: "w_comp w transport = Some kt" "w_tr w (comp_priv kt) = Some t" "transport \<noteq> NULL"
    "ctx_events w (comp_ctx kt)" "brk w \<noteq> NULL" and sys: "hub_sys component hub w" "heaps_fresh w"
    using assms(3) by (auto simp: switch_inv_def serves_hub_def)
  have "(\<exists>tr e. w' = w\<lparr>trace := tr, errno := e\<rparr>) \<or> new_peer transport kt w w'"
    using accept_ends [OF _ _ kt(1,3,4,2,5), of "dispatch X (d + 2)" fd] assms(1,2,4) by (auto simp: wp_def)
  then show ?thesis
  proof
    assume "new_peer transport kt w w'"
    from elsewhere_view [OF new_peer_elsewhere [OF this sys(2,1)] sys(1)] show ?thesis .
  qed (auto simp: hub_view_def v2_waiting_def v2_rec_def)
qed

lemma handshake_event_spec:
  assumes "events_ok X" and "\<And>k. \<not> malloc_null X k" and "requests_whole X"
    and "switch_inv transport component hub w" and "w_comp w transport = Some kt" and "w_tr w (comp_priv kt) = Some t"
    and "a \<in> set (tr_pending_conns t)" and "w_v2c w a = Some v" and "ctl_ev v \<noteq> NULL"
  shows "vde2_srv_get_request (dispatch X (d + 2)) a w = Inr ((), w') \<Longrightarrow> hub_view hub w' = hub_view hub w"
    and "vde2_srv_send_request (dispatch X (d + 2)) a w = Inr ((), w') \<Longrightarrow>
      hub_spec (hub_view hub w) (event_label E hub Vde2_srv_send_request a w w') (hub_view hub w')"
proof -
  let ?E = "dispatch X (d + 2)"
  have env: "hub_env ?E" by (rule hub_env_dispatch [OF assms(1,2)])
  have sys: "hub_sys component hub w" and serves: "serves_hub w transport component"
    using assms(4) by (simp_all add: switch_inv_def)
  obtain h where h: "w_hub w hub = Some h" "\<And>p. p \<in> set (ports h) \<Longrightarrow> v2_port w hub p" using sys by (auto simp: hub_sys_def)
  have "pending_ok w transport hub a" using assms(4-7) by (auto simp: switch_inv_def)
  from pending_greeting [OF this assms(8,9)] obtain c where
    g: "greeting w hub (v2_conn v) (be_priv c) c v" "be_priv c = a" "v2_transport v = transport" "pkt_queue v = []"
    by auto
  have at: "v2_at w (v2_conn v) c v" and new: "v2_conn v \<notin> set (ports h)" using g(1) h(1) by (simp_all add: greeting_def)
  have empty: "v2_waiting w (v2_conn v) = []" using v2_waiting_payloads [OF at] g(4) by simp
  note kt = assms(5) [folded g(3)]
  have others: "v2_waiting w' p = v2_waiting w p" if "aside True (comp_priv kt) (v2_conn v) (be_priv c) w w'" "p \<in> set (ports h)" for p
    by (rule aside_waiting [OF that(1) at h(2) [OF that(2)]]) (use new that(2) in blast)
  have dropped: "hub_view hub w' = hub_view hub w" if "dropped component hub h (comp_priv kt) (v2_conn v) (be_priv c) w w'"
    by (rule hub_view_same [OF h(1)]) (use that others in \<open>simp_all add: dropped_def\<close>)
  have joined: "hub_view hub w' = (v2_conn v, []) # hub_view hub w \<and> v2_conn v \<in> set (ports (the (w_hub w' hub)))"
    if "joined component hub h (comp_priv kt) (v2_conn v) (be_priv c) w w'"
    using that others h(1) empty by (simp add: joined_def hub_view_def)
  show "hub_view hub w' = hub_view hub w" if "vde2_srv_get_request ?E a w = Inr ((), w')"
  proof -
    have "hs False (comp_priv kt) (be_priv c) v w w' \<or> dropped component hub h (comp_priv kt) (v2_conn v) (be_priv c) w w'"
      using srv_get_request_ends [OF env sys h(1) g(1) serves [folded g(3)] _ kt refl] assms(3) that g(2) by (simp add: wp_def)
    then show ?thesis using dropped elsewhere_view [OF hs_elsewhere [OF _ sys g(1)] sys] by blast
  qed
  show "hub_spec (hub_view hub w) (event_label E hub Vde2_srv_send_request a w w') (hub_view hub w')"
    if "vde2_srv_send_request ?E a w = Inr ((), w')"
  proof -
    have "joined component hub h (comp_priv kt) (v2_conn v) (be_priv c) w w' \<or>
        dropped component hub h (comp_priv kt) (v2_conn v) (be_priv c) w w'"
      using srv_send_request_ends [OF env sys h(1) g(1) serves [folded g(3)] _ _ _ kt refl,
          where X = "dispatch X (Suc d)" and Y = "dispatch X d"] assms(2) that g(2) by (auto simp: wp_def)
    then show ?thesis
    proof
      assume "joined component hub h (comp_priv kt) (v2_conn v) (be_priv c) w w'"
      moreover have "v2_conn v \<notin> fst ` set (hub_view hub w)" using new h(1) by (auto simp: hub_view_def)
      ultimately show ?thesis using joined assms(8) by (simp add: event_label_def spec_join)
    next
      assume d: "dropped component hub h (comp_priv kt) (v2_conn v) (be_priv c) w w'"
      then have "v2_conn v \<notin> set (ports (the (w_hub w' hub)))" using new by (simp add: dropped_def)
      with dropped [OF d] assms(8) show ?thesis by (simp add: event_label_def spec_idle)
    qed
  qed
qed

section \<open>The simulation\<close>

definition switch_good :: "nat \<Rightarrow> env \<Rightarrow> ptr \<Rightarrow> ptr \<Rightarrow> ptr \<Rightarrow> world \<Rightarrow> bool" where
  "switch_good n X transport component hub w \<longleftrightarrow> events_ok X \<and> (\<forall>k. \<not> malloc_null X k) \<and> recv_ok X \<and>
     requests_whole X \<and> MAXQLEN < n \<and> switch_inv transport component hub w"

lemma switch_good_step:
  assumes "switch_good n X transport component hub w" and "switch_lstep n (dispatch X (d + 2)) transport component hub w l w'"
  shows "switch_good n X transport component hub w'"
proof -
  have "(switch_step n (dispatch X (d + 2)) transport component hub)\<^sup>*\<^sup>* w w'"
    using assms(2) switch_step_labelled by blast
  then show ?thesis using assms(1) reachable_switch unfolding switch_good_def by blast
qed

lemma switch_lstep_spec:
  assumes "switch_good n X transport component hub w" and "switch_lstep n (dispatch X (d + 2)) transport component hub w l w'"
  shows "hub_spec (hub_view hub w) l (hub_view hub w')"
proof -
  have X: "events_ok X" "\<And>k. \<not> malloc_null X k" "recv_ok (dispatch X (d + 2))" "requests_whole X" "MAXQLEN < n"
    and inv: "switch_inv transport component hub w"
    using assms(1) by (simp_all add: switch_good_def)
  have env: "hub_env (dispatch X (d + 2))" by (rule hub_env_dispatch [OF X(1,2)])
  have sys: "hub_sys component hub w" using inv by (simp add: switch_inv_def)
  from assms(2) show ?thesis
  proof cases
    case (lstep_event cb arg ext fd)
    from lstep_event(2) have "hub_spec (hub_view hub w) (event_label (dispatch X (d + 2)) hub cb arg w w') (hub_view hub w')"
    proof cases
      case due_accept
      then show ?thesis
        using accept_event_spec [OF X(1,2) inv, of d fd] lstep_event(3) by (simp add: run_event_def event_label_def spec_idle)
    next
      case (due_request kt t v)
      then show ?thesis
        using handshake_event_spec(1) [OF X(1,2,4) inv due_request(2-6), of d] lstep_event(3)
        by (simp add: run_event_def event_label_def spec_idle)
    next
      case (due_answer kt t v)
      then show ?thesis
        using handshake_event_spec(2) [OF X(1,2,4) inv due_answer(2-6), of d] lstep_event(3)
        by (simp add: run_event_def)
    next
      case (due_port h p c)
      then consider "cb = Vde2_conn_read_ctl_event" | "cb = Vde2_conn_read_data_event"
        | "cb = Vde2_conn_write_data_event" "data_ev_wr (v2_rec w p) \<noteq> NULL"
        by (auto simp: event_due_def)
      then show ?thesis
      proof cases
        case 1
        then show ?thesis using ctl_event_spec [OF env sys due_port(2-4)] lstep_event(3) due_port(1) by (simp add: run_event_def)
      next
        case 2
        then show ?thesis using read_event_spec [OF env X(3) sys due_port(2-4)] lstep_event(3) due_port(1) by (simp add: run_event_def)
      next
        case 3
        then show ?thesis using write_event_spec [OF env sys due_port(2-4) _ X(5)] lstep_event(3) due_port(1) by (simp add: run_event_def)
      qed
    qed
    then show ?thesis by (simp only: lstep_event(1))
  next
    case lstep_outside
    then show ?thesis using elsewhere_view [OF _ sys] by (simp add: outside_def spec_idle)
  qed
qed

interpretation sw: lts_simulation "switch_lstep n (dispatch X (d + 2)) transport component hub" hub_spec
  "switch_good n X transport component hub" "hub_view hub" for n X d transport component hub
  by unfold_locales (fact switch_good_step switch_lstep_spec)+

lemma hub_view_lookup:
  assumes "hub_sys component hub w" and "w_hub w hub = Some h"
  shows "distinct (map fst (hub_view hub w))" and "map_of (hub_view hub w) q = (if q \<in> set (ports h) then Some (v2_waiting w q) else None)"
proof -
  have "distinct (ports h)" using assms by (auto simp: hub_sys_def)
  then show "distinct (map fst (hub_view hub w))" using assms(2) by (simp add: hub_view_def comp_def)
  show "map_of (hub_view hub w) q = (if q \<in> set (ports h) then Some (v2_waiting w q) else None)"
    using assms(2) by (simp add: hub_view_def map_of_map_restrict)
qed

section \<open>Properties\<close>

text \<open>C3: order, over whole runs of the switch. Follow a port for as long as it stays: what has left its
  queue and what still waits there is, in this order, a subsequence of what waited at first followed
  by the frames that arrived on the other ports. So every frame goes out at most once, behind the
  frames that came before it, never back to the port it came from, and no frame is made up, while
  peers join and leave and other ports fail.\<close>

theorem switch_frames_in_order:
  assumes "events_ok X" and "\<And>k. \<not> malloc_null X k" and "recv_ok X" and "requests_whole X" and "4192 < n"
    and "switch_inv transport component hub w0" and "w_hub w0 hub = Some h0" and "q \<in> set (ports h0)"
    and "lts_run (switch_lstep n (dispatch X (d + 2)) transport component hub) w0 ls w" and "Gone q \<notin> set ls"
  shows "\<exists>h. w_hub w hub = Some h \<and> q \<in> set (ports h) \<and>
    subseq (departed q ls @ v2_waiting w q) (v2_waiting w0 q @ arrived q ls)"
proof -
  have good: "switch_good n X transport component hub w0"
    using assms(1-6) by (simp add: switch_good_def vde2_consts)
  have sys0: "hub_sys component hub w0" using assms(6) by (simp add: switch_inv_def)
  have run: "lts_run hub_spec (hub_view hub w0) ls (hub_view hub w)" "switch_good n X transport component hub w"
    using sw.run_simulated [OF assms(9) good] by blast+
  then have sys: "hub_sys component hub w" by (simp add: switch_good_def switch_inv_def)
  then obtain h where h: "w_hub w hub = Some h" by (auto simp: hub_sys_def)
  have "map_of (hub_view hub w0) q = Some (v2_waiting w0 q)" using hub_view_lookup(2) [OF sys0 assms(7)] assms(8) by simp
  from spec_run_in_order [OF run(1) hub_view_lookup(1) [OF sys0 assms(7)] this assms(10)]
  obtain gs where gs: "map_of (hub_view hub w) q = Some gs" "subseq (departed q ls @ gs) (v2_waiting w0 q @ arrived q ls)"
    by blast
  from gs(1) have "q \<in> set (ports h)" "gs = v2_waiting w q"
    unfolding hub_view_lookup(2) [OF sys h] by (simp_all split: if_splits)
  with gs(2) h show ?thesis by blast
qed

theorem switch_frames_in_order_witness:
  "\<exists>w ls. lts_run (switch_lstep 5000 (dispatch example_switch_env (0 + 2)) 51 50 40) example_greeting ls w \<and>
    arrived 21 ls \<noteq> [] \<and> subseq (v2_waiting w 21) (v2_waiting example_greeting 21 @ arrived 21 ls)"
proof -
  have whole: "requests_whole example_switch_env" by (simp add: requests_whole_def example_switch_env_def)
  have n: "(4192 :: nat) < 5000" by simp
  note h = example_greeting_facts(2)
  have c: "w_conn example_greeting 20 = Some example_v2_connection" "20 \<in> set (ports \<lparr>hub_component = 50, ports = [21, 20]\<rparr>)"
    "21 \<in> set (ports \<lparr>hub_component = 50, ports = [21, 20]\<rparr>)"
    by (simp_all add: example_greeting_def example_switch_facts(3))
  let ?E = "dispatch example_switch_env (0 + 2)" and ?cb = Vde2_conn_read_data_event
  let ?a = "be_priv example_v2_connection"
  have due: "due example_greeting 51 40 ?cb ?a" by (rule due_port [OF h c(2,1)]) (simp add: event_due_def)
  obtain w where w: "run_event 5000 ?E (\<lambda>_ _ _. ret ()) ?cb 8 ?a example_greeting = Inr ((), w)"
    using switch_event_runs [OF example_switch_env_facts(1-3) whole _ example_greeting_inv due,
        where n = 5000 and d = 0 and ext = "\<lambda>_ _ _. ret ()" and fd = 8] by (auto simp: vde2_consts)
  let ?l = "event_label ?E 40 ?cb ?a example_greeting w"
  have "lts_run (switch_lstep 5000 ?E 51 50 40) example_greeting ([] @ [?l]) w"
    by (rule run_snoc, rule run_nil, rule lstep_event [OF due w])
  then have run: "lts_run (switch_lstep 5000 ?E 51 50 40) example_greeting [?l] w" by simp
  have l: "?l = Frame 20 (replicate 20 CHR ''x'')"
    by (simp add: event_label_def example_greeting_def example_switch_def example_switch_env_def
        example_v2_connection_def)
  with switch_frames_in_order [OF example_switch_env_facts(1-3) whole n example_greeting_inv h c(3) run] run show ?thesis
    by (intro exI [of _ w] exI [of _ "[?l]"]) auto
qed

end
