(* ===== verification/Hub2Hub.thy ===== *)
theory Hub2Hub
  imports HubSystem
begin

text \<open>
  Two hubs joined by a local connection, as \<open>vde_hub2hub\<close> builds them: each hub has one end of the
  local connection as a port and otherwise vde2 connections. Writing on the end of one hub calls
  the other hub's read callback before it returns, so a frame that arrives at a port of one hub
  is queued at the ports of both within the one event.

  The environment is that of \<open>Dispatch\<close> with four levels of calls through pointers: the read callback
  of the first hub, the write of the local connection, the read callback of the second hub,
  and the write of a vde2 connection.
\<close>

definition link_hub :: "world \<Rightarrow> ptr \<Rightarrow> ptr \<Rightarrow> bool" where
  "link_hub w hub c \<longleftrightarrow> (\<exists>h. w_hub w hub = Some h \<and> distinct (ports h) \<and> c \<in> set (ports h) \<and> hub_port w hub c \<and>
     (\<forall>p\<in>set (ports h) - {c}. v2_port w hub p))"

definition linked_hubs :: "world \<Rightarrow> ptr \<Rightarrow> ptr \<Rightarrow> ptr \<Rightarrow> ptr \<Rightarrow> ptr \<Rightarrow> ptr \<Rightarrow> bool" where
  "linked_hubs w hub1 c1 l1 hub2 c2 l2 \<longleftrightarrow> hub1 \<noteq> hub2 \<and> lc_pair w c1 l1 c2 l2 \<and>
     link_hub w hub1 c1 \<and> link_hub w hub2 c2"

lemma linked_sym: "linked_hubs w hub1 c1 l1 hub2 c2 l2 \<Longrightarrow> linked_hubs w hub2 c2 l2 hub1 c1 l1"
  by (auto simp: linked_hubs_def lc_pair_def)

lemma linked_ports:
  assumes "linked_hubs w hub1 c1 l1 hub2 c2 l2" and "w_hub w hub1 = Some h1" and "w_hub w hub2 = Some h2"
  shows "distinct (ports h1)" and "c1 \<in> set (ports h1)" and "c2 \<in> set (ports h2)"
    and "\<And>p. p \<in> set (ports h1) \<Longrightarrow> p \<noteq> c1 \<Longrightarrow> v2_port w hub1 p"
    and "\<And>p. p \<in> set (ports h1) \<Longrightarrow> p \<noteq> c1 \<Longrightarrow> p \<notin> set (ports h2)"
proof -
  show "distinct (ports h1)" "c1 \<in> set (ports h1)" "c2 \<in> set (ports h2)"
    and v1: "\<And>p. p \<in> set (ports h1) \<Longrightarrow> p \<noteq> c1 \<Longrightarrow> v2_port w hub1 p"
    using assms by (auto simp: linked_hubs_def link_hub_def)
  have "hub_port w hub2 p" if "p \<in> set (ports h2)" for p
    using that assms(1,3) by (cases "p = c2") (auto simp: linked_hubs_def link_hub_def v2_port_def v2_at_def hub_calls_def hub_port_def)
  moreover have "hub1 \<noteq> hub2" using assms(1) by (simp add: linked_hubs_def)
  ultimately show "p \<notin> set (ports h2)" if "p \<in> set (ports h1)" "p \<noteq> c1" for p
    using v1 [OF that] by (fastforce simp: v2_port_def v2_at_def hub_calls_def hub_port_def)
qed

lemma linked_frame:
  assumes "linked_hubs w hub1 c1 l1 hub2 c2 l2" and "engine_frame w w'" and "v2_backend X" and "v2_usable X w' = v2_usable X w"
  shows "linked_hubs w' hub1 c1 l1 hub2 c2 l2"
proof -
  have "v2_port w' hub p" if "v2_port w hub p" for hub p
    by (rule v2_port_keeps [OF that assms(2), of X]) (use v2_port_usable [OF assms(3) that] assms(4) in simp)
  with assms(1,2) show ?thesis
    by (auto simp: linked_hubs_def link_hub_def lc_pair_def lc_end_def hub_port_def engine_frame_def)
qed

lemma v2_usable_any: "v2_backend E \<Longrightarrow> v2_backend Z \<Longrightarrow> v2_usable E = v2_usable Z"
  by (simp add: fun_eq_iff v2_usable_def)

text \<open>The packet sent to a set of ports, as far as they have room.\<close>

definition queued :: "ptr set \<Rightarrow> char list \<Rightarrow> world \<Rightarrow> world \<Rightarrow> ptr \<Rightarrow> bool" where
  "queued T bs w w' d \<longleftrightarrow>
     v2_waiting w' d = (if d \<in> T \<and> v2_room w d then v2_waiting w d @ [bs] else v2_waiting w d)"

lemma v2_room_waiting: "v2_room w d \<longleftrightarrow> length (v2_waiting w d) < MAXQLEN"
  by (simp add: v2_room_def v2_waiting_def)

lemma queued_trans: "queued S bs w w1 d \<Longrightarrow> queued T bs w1 w2 d \<Longrightarrow> S \<inter> T = {} \<Longrightarrow> queued (S \<union> T) bs w w2 d"
  by (auto simp: queued_def v2_room_waiting split: if_splits)

text \<open>Writing on the local connection is a broadcast of the other hub.\<close>

lemma link_write:
  assumes "linked_hubs w hub1 c1 l1 hub2 c2 l2" and "w_hub w hub2 = Some h2" and "v2_pkt_ok pkt"
    and "call_be_write E Vde_lc_write = vde_lc_write Y" and "call_read_cb Y Hub_engine_readcb = hub_engine_readcb Z" and "v2_backend Z"
  shows "\<exists>w'. vde_connection_write E c1 pkt w = Inr (0, w') \<and> engine_frame w w' \<and> v2_usable Z w' = v2_usable Z w \<and>
    (\<forall>d. v2_usable Z w d \<longrightarrow> queued (set (ports h2) - {c2}) (pkt_payload pkt) w w' d)"
proof -
  obtain k1 k2 where k: "w_conn w c1 = Some k1" "c1 \<noteq> NULL" "be_write k1 = Some Vde_lc_write"
    "w_conn w c2 = Some k2" "read_cb k2 = Some Hub_engine_readcb" "cb_priv k2 = hub2" and pair: "lc_pair w c1 l1 c2 l2"
    using assms(1) by (auto simp: linked_hubs_def link_hub_def lc_pair_def lc_end_def hub_port_def)
  have us: "v2_usable Z w q" if "q \<in> set (ports h2)" "q \<noteq> c2" for q
    using v2_port_usable [OF assms(6)] assms(1,2) that by (auto simp: linked_hubs_def link_hub_def)
  have "distinct (ports h2)" using assms(1,2) by (auto simp: linked_hubs_def link_hub_def)
  from broadcast_v2 [OF assms(6,2) this assms(3) us] obtain w' where
    w': "hub_engine_readcb Z c2 pkt hub2 w = Inr (0, w')" "engine_frame w w'" "v2_usable Z w' = v2_usable Z w"
    "\<forall>d. v2_usable Z w d \<longrightarrow> queued (set (ports h2) - {c2}) (pkt_payload pkt) w w' d"
    unfolding queued_def by blast
  have "vde_lc_write Y c1 pkt w = Inr (0, w')"
    using lc_write_delivers [OF pair k(4,5)] w'(1) assms(5) k(6) by (simp add: mbind_apply)
  with k(1-3) assms(4) w'(2-4) show ?thesis by (simp add: mon)
qed

text \<open>A frame from another port than the link: one pass over the ports of the first hub, in the middle of it one over
  those of the second.\<close>

lemma linked_broadcast:
  assumes linked: "linked_hubs w hub1 c1 l1 hub2 c2 l2" and h1: "w_hub w hub1 = Some h1" and h2: "w_hub w hub2 = Some h2"
    and p: "p \<noteq> c1" and pkt: "v2_pkt_ok pkt" and E: "v2_backend E" "call_be_write E Vde_lc_write = vde_lc_write Y"
      "call_read_cb Y Hub_engine_readcb = hub_engine_readcb Z" "v2_backend Z"
  shows "\<exists>w'. hub_engine_readcb E p pkt hub1 w = Inr (0, w') \<and> engine_frame w w' \<and> linked_hubs w' hub1 c1 l1 hub2 c2 l2 \<and>
    (\<forall>d. v2_usable E w d \<longrightarrow>
      queued ((set (ports h1) - {c1, p}) \<union> (set (ports h2) - {c2})) (pkt_payload pkt) w w' d)"
proof -
  let ?f = "\<lambda>q. mbind (vde_connection_write E q pkt) (\<lambda>_. ret ())" and ?b = "pkt_payload pkt"
  let ?P = "\<lambda>w. w_hub w hub1 = Some h1 \<and> w_hub w hub2 = Some h2 \<and> linked_hubs w hub1 c1 l1 hub2 c2 l2"
  note ports = linked_ports [OF linked h1 h2]
  have eq: "v2_usable Z = v2_usable E" using v2_usable_any E(1,4) by blast
  have us: "v2_usable E w q" if "?P w" "q \<in> set (ports h1)" "q \<noteq> c1" for w q
    using linked_ports(4) [of w hub1 c1 l1 hub2 c2 l2 h1 h2 q] that v2_port_usable [OF E(1)] by blast
  note link = link_write [OF _ _ pkt E(2-4), unfolded eq]
  have keep: "?P w'" if "?P w" "engine_frame w w'" "v2_usable E w' = v2_usable E w" for w w'
    using that linked_frame [OF _ that(2) E(1) that(3)] by (auto simp: engine_frame_def)
  have "keeps ?P (vde_connection_write E q pkt)" if q: "q \<in> set (ports h1)" for q
  proof (rule keepsI)
    fix w a w' assume P: "?P w" and run: "vde_connection_write E q pkt w = Inr (a, w')"
    have "engine_frame w w' \<and> v2_usable E w' = v2_usable E w"
      using link [of w hub1 c1 l1 hub2 c2 l2 h2] v2q.put_law [OF pkt us [OF P q]] P run by (cases "q = c1") auto
    with keep [OF P] show "?P w'" by blast
  qed
  then have eval: "hub_engine_readcb E p pkt hub1 w = mbind (mapM ?f (filter (\<lambda>q. q \<noteq> p) (ports h1))) (\<lambda>_. ret 0) w"
    by (intro hub_readcb_eval [where P = ?P]) (use h1 h2 linked ports(1) in auto)
  obtain as bs where split: "filter (\<lambda>q. q \<noteq> p) (ports h1) = as @ c1 # bs"
    using ports(2) p split_list [of c1 "filter (\<lambda>q. q \<noteq> p) (ports h1)"] by auto
  have "distinct (as @ c1 # bs)" unfolding split [symmetric] using ports(1) by simp
  moreover have sets: "set as \<union> set bs \<union> {c1} = set (ports h1) - {p}" using arg_cong [OF split, of set] by auto
  ultimately have dist: "distinct as" "distinct bs" "c1 \<notin> set as" "c1 \<notin> set bs" "set as \<inter> set bs = {}"
    and sub: "\<And>q. q \<in> set as \<union> set bs \<Longrightarrow> q \<in> set (ports h1) \<and> q \<noteq> c1" by auto
  have P: "?P w" using h1 h2 linked by blast
  obtain w1 where w1: "mapM ?f as w = Inr ((), w1)" "engine_frame w w1" "v2_usable E w1 = v2_usable E w"
    "\<forall>d. v2_usable E w d \<longrightarrow> queued (set as) ?b w w1 d"
    using v2q.write_all [OF pkt _ dist(1), of E w] us [OF P] sub unfolding queued_def by blast
  have P1: "?P w1" by (rule keep [OF P w1(2,3)])
  obtain w2 where w2: "vde_connection_write E c1 pkt w1 = Inr (0, w2)" "engine_frame w1 w2" "v2_usable E w2 = v2_usable E w1"
    "\<forall>d. v2_usable E w1 d \<longrightarrow> queued (set (ports h2) - {c2}) ?b w1 w2 d"
    using link [of w1 hub1 c1 l1 hub2 c2 l2 h2] P1 by blast
  have P2: "?P w2" by (rule keep [OF P1 w2(2,3)])
  obtain w3 where w3: "mapM ?f bs w2 = Inr ((), w3)" "engine_frame w2 w3" "v2_usable E w3 = v2_usable E w2"
    "\<forall>d. v2_usable E w2 d \<longrightarrow> queued (set bs) ?b w2 w3 d"
    using v2q.write_all [OF pkt _ dist(2), of E w2] us [OF P2] sub unfolding queued_def by blast
  have "mapM ?f (as @ c1 # bs) w = Inr ((), w3)" using w1(1) w2(1) w3(1) by (simp add: mapM_append mbind_apply)
  then have "hub_engine_readcb E p pkt hub1 w = Inr (0, w3)" using eval split by (simp add: mbind_apply)
  moreover have "engine_frame w w3" using w1(2) w2(2) w3(2) engine_frame_trans by blast
  moreover have "linked_hubs w3 hub1 c1 l1 hub2 c2 l2" using keep [OF P2 w3(2,3)] by blast
  moreover have "queued ((set (ports h1) - {c1, p}) \<union> (set (ports h2) - {c2})) ?b w w3 d" if d: "v2_usable E w d" for d
  proof -
    have "set as \<inter> (set (ports h2) - {c2}) = {}" "(set as \<union> (set (ports h2) - {c2})) \<inter> set bs = {}"
      using ports(5) sub dist(5) by blast+
    then have "queued (set as \<union> (set (ports h2) - {c2}) \<union> set bs) ?b w w3 d"
      using d w1(3,4) w2(3,4) w3(3,4) queued_trans by metis
    moreover have "set as \<union> (set (ports h2) - {c2}) \<union> set bs = (set (ports h1) - {c1, p}) \<union> (set (ports h2) - {c2})"
      using sets dist(3,4) by auto
    ultimately show ?thesis by simp
  qed
  ultimately show ?thesis by blast
qed

lemma linked_hubs_trace: "linked_hubs (w\<lparr>trace := tr\<rparr>) = linked_hubs w"
  by (simp add: fun_eq_iff linked_hubs_def link_hub_def lc_pair_def lc_end_def hub_port_def v2_port_def trace_irrelevant)

text \<open>C10: what \<open>vde_hub2hub\<close> is for. When two hubs are joined by a local connection, a frame of at least 14 bytes that
  arrives at a port of one is queued, within the event that reads it, once, unchanged and last, for
  every other port with room of both hubs. The port it came from does not get it back, over the link
  neither. A shorter datagram is queued nowhere, and the hubs stay linked.\<close>

theorem linked_hubs_forward_frame:
  assumes "events_ok X" and "\<And>k. \<not> malloc_null X k" and "linked_hubs w hub1 c1 l1 hub2 c2 l2"
    and "w_hub w hub1 = Some h1" and "w_hub w hub2 = Some h2" and "p \<in> set (ports h1)" and "p \<noteq> c1"
    and "w_conn w p = Some c" and "length bs \<le> 1518"
    and "sys X (trace w) (Sys_recvfrom (data_fd (v2_rec w p)) 1518) =
      \<lparr>retval = int (length bs), reterrno = x, retbytes = bs\<rparr>"
  shows "\<exists>w'. run_event n (dispatch X (d + 4)) ext Vde2_conn_read_data_event fd (be_priv c) w = Inr ((), w') \<and>
    linked_hubs w' hub1 c1 l1 hub2 c2 l2 \<and> w_hub w' = w_hub w \<and> w_conn w' = w_conn w \<and>
    (\<forall>q\<in>set (ports h1) \<union> set (ports h2) - {c1, c2}. v2_waiting w' q =
      (if q \<noteq> p \<and> 14 \<le> length bs \<and> v2_room w q then v2_waiting w q @ [bs] else v2_waiting w q))"
proof -
  let ?E = "dispatch X (d + 4)" and ?F = "dispatch X (d + 3)"
  note ports = linked_ports [OF assms(3-5)]
  obtain v where at: "v2_at w p c v" and calls: "hub_calls hub1 c"
    using ports(4) [OF assms(6,7)] assms(8) by (auto simp: v2_port_def v2_at_def)
  have c: "read_cb c = Some Hub_engine_readcb" "cb_priv c = hub1" "pkt_head_sz c \<le> MAX_HEAD_SZ" "pkt_tail_sz c \<le> MAX_TAIL_SZ"
    using calls by (simp_all add: hub_calls_def vde2_consts)
  have sc: "sys ?E (trace w) (Sys_recvfrom (data_fd v) 1518) = \<lparr>retval = int (length bs), reterrno = x, retbytes = bs\<rparr>"
    using assms(10) by (simp add: v2_rec_eq [OF at])
  let ?w1 = "w\<lparr>trace := trace w @ [Sys_recvfrom (data_fd v) 1518]\<rparr>"
  obtain pkt where pkt: "v2_pkt_ok pkt" "pkt_bytes pkt = Inr bs"
    "vde2_conn_read_data_event ?E (be_priv c) w =
      (if length bs < 14 then ret () else deliver ?E Hub_engine_readcb p pkt hub1) ?w1"
    using read_event_delivers [OF at c(1,3,4) assms(9) sc] c(2) by auto
  have nums: "d + 4 = Suc (d + 3)" "d + 3 = Suc (d + 2)" "d + 2 = Suc (d + 1)" "d + 1 = Suc d" by simp_all
  have rc: "call_read_cb ?E Hub_engine_readcb = hub_engine_readcb ?F" unfolding nums(1) by (rule dispatch_inside(5))
  have be: "v2_backend (dispatch X (Suc m))" for m by (rule v2_backend_dispatch [OF assms(1,2)])
  show ?thesis
  proof (cases "length bs < 14")
    case True
    with pkt(3) assms(3) show ?thesis
      by (intro exI [of _ ?w1]) (simp add: run_event_def linked_hubs_trace trace_irrelevant)
  next
    case False
    have "\<exists>w'. hub_engine_readcb ?F p pkt hub1 ?w1 = Inr (0, w') \<and> engine_frame ?w1 w' \<and> linked_hubs w' hub1 c1 l1 hub2 c2 l2 \<and>
      (\<forall>d. v2_usable ?F ?w1 d \<longrightarrow>
        queued ((set (ports h1) - {c1, p}) \<union> (set (ports h2) - {c2})) (pkt_payload pkt) ?w1 w' d)"
      by (rule linked_broadcast [OF _ _ _ assms(7) pkt(1), where Y = "dispatch X (d + 2)" and Z = "dispatch X (d + 1)"])
        (use assms(3-5) be in \<open>simp_all add: linked_hubs_trace nums del: add_Suc_right One_nat_def\<close>)
    then obtain w' where w': "hub_engine_readcb ?F p pkt hub1 ?w1 = Inr (0, w')" "engine_frame ?w1 w'"
      "linked_hubs w' hub1 c1 l1 hub2 c2 l2"
      "\<forall>d. v2_usable ?F ?w1 d \<longrightarrow>
        queued ((set (ports h1) - {c1, p}) \<union> (set (ports h2) - {c2})) (pkt_payload pkt) ?w1 w' d"
      by blast
    have "vde2_conn_read_data_event ?E (be_priv c) w = Inr ((), w')"
      using pkt(3) False w'(1) rc by (simp add: deliver_def)
    moreover have "w_hub w' = w_hub w" "w_conn w' = w_conn w" using w'(2) by (simp_all add: engine_frame_def)
    moreover have "v2_waiting w' q = (if q \<noteq> p \<and> 14 \<le> length bs \<and> v2_room w q then v2_waiting w q @ [bs] else v2_waiting w q)"
      if q: "q \<in> set (ports h1) \<union> set (ports h2) - {c1, c2}" for q
    proof -
      have "\<exists>hub. v2_port w hub q"
        using q ports(4) linked_ports(4) [OF linked_sym [OF assms(3)] assms(5,4)] by blast
      then have "v2_usable ?F ?w1 q"
        using v2_port_usable [OF be] unfolding nums(2) by (auto simp: v2_usable_def trace_irrelevant)
      with w'(4) have "queued ((set (ports h1) - {c1, p}) \<union> (set (ports h2) - {c2})) bs ?w1 w' q"
        using pkt(2) by (simp add: pkt_payload_def)
      then show ?thesis using q ports(5) [OF assms(6,7)] False by (auto simp: queued_def trace_irrelevant)
    qed
    ultimately show ?thesis using w'(3) by (intro exI [of _ w']) (simp add: run_event_def)
  qed
qed

text \<open>Two hubs with one vde2 port each.\<close>

definition example_link :: vde_connection where
  "example_link = example_v2_connection\<lparr>max_pload := 0, be_write := Some Vde_lc_write, be_close := Some Vde_lc_close\<rparr>"

definition example_linked :: world where
  "example_linked = example_ctx_world\<lparr>brk := 100,
     w_conn := [20 \<mapsto> example_v2_connection, 22 \<mapsto> example_v2_connection\<lparr>be_priv := 32, cb_priv := 41\<rparr>,
       23 \<mapsto> example_link\<lparr>be_priv := 33\<rparr>, 24 \<mapsto> example_link\<lparr>be_priv := 34, cb_priv := 41\<rparr>],
     w_v2c := [30 \<mapsto> zero_vde2_conn\<lparr>data_fd := 8, v2_conn := 20\<rparr>, 32 \<mapsto> zero_vde2_conn\<lparr>data_fd := 9, v2_conn := 22\<rparr>],
     w_lc := [33 \<mapsto> \<lparr>lc_conn = 23, lc_peer = 34\<rparr>, 34 \<mapsto> \<lparr>lc_conn = 24, lc_peer = 33\<rparr>],
     w_hub := [40 \<mapsto> \<lparr>hub_component = 50, ports = [20, 23]\<rparr>, 41 \<mapsto> \<lparr>hub_component = 51, ports = [22, 24]\<rparr>]\<rparr>"

lemma example_linked_ports:
  "v2_port example_linked 40 20" "v2_port example_linked 41 22" "hub_port example_linked 40 23" "hub_port example_linked 41 24"
  by (simp_all add: v2_port_def v2_at_def example_linked_def example_v2_connection_def example_link_def zero_vde2_conn_def
      ctx_events_def example_ctx_world_def example_context_def v2_queue_ok_def hub_calls_def hub_port_def)

lemma example_linked_facts:
  "linked_hubs example_linked 40 23 33 41 24 34"
  "w_hub example_linked 40 = Some \<lparr>hub_component = 50, ports = [20, 23]\<rparr>"
  "w_hub example_linked 41 = Some \<lparr>hub_component = 51, ports = [22, 24]\<rparr>"
  "w_conn example_linked 20 = Some example_v2_connection"
  "v2_waiting example_linked 22 = []" "v2_room example_linked 22"
proof -
  show h: "w_hub example_linked 40 = Some \<lparr>hub_component = 50, ports = [20, 23]\<rparr>"
    "w_hub example_linked 41 = Some \<lparr>hub_component = 51, ports = [22, 24]\<rparr>"
    "w_conn example_linked 20 = Some example_v2_connection"
    by (simp_all add: example_linked_def)
  have "lc_pair example_linked 23 33 24 34"
    by (simp add: lc_pair_def lc_end_def example_linked_def example_link_def)
  then show "linked_hubs example_linked 40 23 33 41 24 34"
    using example_linked_ports h(1,2) by (auto simp: linked_hubs_def link_hub_def)
qed (simp_all add: v2_waiting_def v2_room_def v2_rec_def example_linked_def zero_vde2_conn_def vde2_consts)

theorem linked_hubs_forward_frame_witness:
  "\<exists>w'. run_event 1 (dispatch example_switch_env (0 + 4)) (\<lambda>_ _ _. ret ()) Vde2_conn_read_data_event 8 30
      example_linked = Inr ((), w') \<and> v2_waiting w' 22 = [replicate 20 CHR ''x'']"
proof -
  have p: "20 \<in> set (ports \<lparr>hub_component = 50, ports = [20, 23]\<rparr>)" "(20 :: nat) \<noteq> 23" "length (replicate 20 CHR ''x'') \<le> 1518"
    by simp_all
  from linked_hubs_forward_frame [OF example_switch_env_facts(1,2) example_linked_facts(1-3) p(1,2) example_linked_facts(4)
      p(3) example_switch_env_facts(5), where n = 1 and d = 0 and ext = "\<lambda>_ _ _. ret ()" and fd = 8]
  show ?thesis using example_linked_facts(5,6) example_switch_facts(10) by fastforce
qed

end
