(* ===== verification/Programs.thy ===== *)
theory Programs
  imports Startup HubSpec Hub2Hub
begin

text \<open>
  The programs \<^verbatim>\<open>src/vde_hub.c\<close> and \<^verbatim>\<open>src/vde_hub2hub.c\<close>, up to the event loop: \<open>vde_hub\<close> is a hub on one
  socket with a control engine on another, \<open>vde_hub2hub\<close> is two hubs joined by a local connection.

  The programs report a failed call and go on, so the variables a failed call did not set are part
  of the model: \<open>junk\<close> gives the indeterminate contents of a local variable by its name. The
  properties carry the invariant of \<open>Switch\<close> and the refinement of \<open>HubSpec\<close> over to the running program, and
  show that \<open>vde_hub2hub\<close> starts up in the state \<open>linked_hubs\<close> of \<open>Hub2Hub\<close>. Not
  modelled are the reports and the reference counts of the parameter objects.
\<close>

section \<open>The programs\<close>

text \<open>The handler of \<^verbatim>\<open>src/libevent_handler.c\<close>; its functions are application functions for the library.\<close>

abbreviation (input) Libevent_event_add :: app_fun where "Libevent_event_add \<equiv> 1"
abbreviation (input) Libevent_event_del :: app_fun where "Libevent_event_del \<equiv> 2"
abbreviation (input) Libevent_timeout_add :: app_fun where "Libevent_timeout_add \<equiv> 3"
abbreviation (input) Libevent_timeout_del :: app_fun where "Libevent_timeout_del \<equiv> 4"

definition libevent_eh :: vde_event_handler where
  "libevent_eh = \<lparr>eh_event_add = Some Libevent_event_add, eh_event_del = Some Libevent_event_del,
     eh_timeout_add = Some Libevent_timeout_add, eh_timeout_del = Some Libevent_timeout_del\<rparr>"

text \<open>
  Both programs do the same twice: a vde2 transport, an engine, a connection manager between them,
  and listening. The results are the values of the engine's variable afterwards.
\<close>

definition serve :: "env \<Rightarrow> ptr \<Rightarrow> ptr \<Rightarrow> ptr \<Rightarrow> string \<Rightarrow> string \<Rightarrow> string \<Rightarrow> string \<Rightarrow> string \<Rightarrow> string \<Rightarrow> ptr prog" where
  "serve E ctx engine0 cm0 tr tr_text family e cm cm_text =
     mbind (vde_sobj_from_string E (tr_text @ [CHR 0x00])) (\<lambda>params.
     mbind (vde_context_new_component E ctx VDE_TRANSPORT (Some ''vde2'') (Some tr) params) (\<lambda>_.
     mbind (vde_context_new_component E ctx VDE_ENGINE (Some family) (Some e) SNull) (\<lambda>(_, engine).
     mbind (vde_sobj_from_string E (cm_text @ [CHR 0x00])) (\<lambda>params.
     mbind (vde_context_new_component E ctx VDE_CONNECTION_MANAGER (Some ''default'') (Some cm) params) (\<lambda>(_, mgr).
     mbind (vde_conn_manager_listen E (case mgr of None \<Rightarrow> cm0 | Some p \<Rightarrow> p)) (\<lambda>_.
     ret (case engine of None \<Rightarrow> engine0 | Some p \<Rightarrow> p)))))))"

definition vde_hub_main :: "env \<Rightarrow> (string \<Rightarrow> ptr) \<Rightarrow> int prog" where
  "vde_hub_main E junk =
     mbind (vde_context_new E True) (\<lambda>(_, ctx).
     mbind (vde_context_init E ctx (Some libevent_eh) None) (\<lambda>_.
     mbind (serve E ctx (junk ''engine'') (junk ''cm'') ''tr1'' ''{'path': '/tmp/vde3_test'}''
       ''hub'' ''e1'' ''cm1'' ''{'engine': 'e1', 'transport': 'tr1'}'') (\<lambda>_.
     mbind (serve E ctx (junk ''cengine'') (junk ''ccm'') ''tr2'' ''{'path': '/tmp/vde3_test_ctrl'}''
       ''ctrl'' ''e2'' ''cm2'' ''{'engine': 'e2', 'transport': 'tr2'}'') (\<lambda>_.
     ret 0))))"

definition vde_hub2hub_main :: "env \<Rightarrow> int \<Rightarrow> (string \<Rightarrow> ptr) \<Rightarrow> int prog" where
  "vde_hub2hub_main E tmp_errno junk =
     mbind (vde_context_new E True) (\<lambda>(_, ctx).
     mbind (vde_context_init E ctx (Some libevent_eh) None) (\<lambda>_.
     mbind (serve E ctx (junk ''e1'') (junk ''cm1'') ''tr1'' ''{'path': '/tmp/vde3_test_1'}''
       ''hub'' ''e1'' ''cm1'' ''{'engine': 'e1', 'transport': 'tr1'}'') (\<lambda>e1.
     mbind (serve E ctx (junk ''e2'') (junk ''cm2'') ''tr2'' ''{'path': '/tmp/vde3_test_2'}''
       ''hub'' ''e2'' ''cm2'' ''{'engine': 'e2', 'transport': 'tr2'}'') (\<lambda>e2.
     mbind (vde_connect_engines_unqueued E tmp_errno ctx e1 NULL e2 NULL) (\<lambda>_.
     ret 0)))))"

section \<open>A context with the modules of the repository\<close>

text \<open>
  What the program finds on the machine it starts on: memory, modules where they are looked for,
  a working event handler and sockets.
\<close>

definition machine_ok :: "env \<Rightarrow> bool" where
  "machine_ok X \<longleftrightarrow> quark_ok X \<and> (\<forall>k. \<not> malloc_null X k) \<and> events_ok X \<and> listen_calls_ok X \<and>
     commands_ok (engine_hub_commands X) \<and> commands_ok (engine_ctrl_commands X) \<and>
     (\<exists>tree. fts_open X (default_modules_path X) = Inr tree \<and> fts_close X (default_modules_path X) = 0 \<and>
        readable X (fts_files 0 tree) \<and> (\<forall>m\<in>set repo_modules. installed X (fts_files 0 tree) m))"

lemma fresh_above_but_modules:
  assumes "but_modules w' = but_modules w" and "fresh_above w" and "\<And>p. w_ctx w p = None \<Longrightarrow> w_ctx w' p = None"
  shows "fresh_above w'"
proof -
  have "brk w' = brk w" "w_conn w' = w_conn w" "w_lc w' = w_lc w" "w_signal w' = w_signal w" "w_comp w' = w_comp w"
    "w_hub w' = w_hub w" "w_ctrl w' = w_ctrl w" "w_cc w' = w_cc w" "w_pc w' = w_pc w" "w_cm w' = w_cm w"
    "w_v2c w' = w_v2c w" "w_tr w' = w_tr w"
    using assms(1) by (cases w, cases w', simp add: but_modules_def)+
  with assms(2,3) show ?thesis unfolding fresh_above_def by simp
qed

lemma context_boots:
  assumes "machine_ok X" and "E = dispatch X n"
  shows "\<exists>ctx w1 w. vde_context_new E True empty_world = Inr ((0, ctx), w1) \<and>
    vde_context_init E ctx (Some libevent_eh) None w1 = Inr (0, w) \<and> booted E ctx w \<and> ctx_ents ctx w = [] \<and>
    w_conn w = (\<lambda>_. None)"
proof -
  obtain tree where tree: "fts_open X (default_modules_path X) = Inr tree" "fts_close X (default_modules_path X) = 0"
    "readable X (fts_files 0 tree)" "\<And>m. m \<in> set repo_modules \<Longrightarrow> installed X (fts_files 0 tree) m"
    using assms(1) by (auto simp: machine_ok_def)
  let ?files = "fts_files 0 tree"
  have E: "\<not> malloc_null E k" "quark_ok E" "readable E ?files" "fts_open E (default_modules_path E) = Inr tree"
    "fts_close E (default_modules_path E) = 0" "installed E ?files m = installed X ?files m" for k m
    using assms tree(1-3)
    by (simp_all add: machine_ok_def quark_ok_def readable_def installed_def provides_def)
  let ?x = "\<lparr>ctx_initialized = 1, event_handler = libevent_eh, components = vde_ordhash_new False, modules = []\<rparr>"
  let ?w1 = "empty_world\<lparr>brk := 2, w_ctx := [1 \<mapsto> zero_context]\<rparr>"
  let ?w2 = "empty_world\<lparr>brk := 3, w_ctx := [1 \<mapsto> ?x]\<rparr>"
  have new: "vde_context_new E True empty_world = Inr ((0, 1), ?w1)"
    using E(1) by (simp add: vde_context_new_def mon empty_world_def)
  have mods: "modules_inv E 1 ?w2" "genuine E ?files ?w2" "registered 1 ?w2 = {}"
    using E(2) by (simp_all add: modules_inv_def modules_ok_def genuine_def registered_def empty_world_def)
  obtain w where w: "vde_modules_load E 1 None ?w2 = Inr (0, w)"
    "loaded E 1 ?files ?w2 (\<Union>path\<in>set ?files. offered E path) w"
    using modules_load_registers [OF E(3) mods(1,2) E(4,5)] by blast
  have init: "vde_context_init E 1 (Some libevent_eh) None ?w1 = Inr (0, w)"
    using E(1) w(1) by (simp add: vde_context_init_def mon libevent_eh_def zero_context_def)
  obtain ms where ms: "w_ctx w = [1 \<mapsto> ?x\<lparr>modules := ms\<rparr>]" "but_modules w = but_modules ?w2"
    using w(2) by (auto simp: loaded_def mod_frame_def)
  define oh where "oh = the (vde_ordhash_new False)"
  have oh: "vde_ordhash_new False = Some oh" "oh_inv oh" "oh_ents oh = []" "oh_list oh = []"
    by (simp_all add: oh_def vde_ordhash_new_def oh_inv_def oh_ents_def)
  have "fresh_above ?w2" by (simp add: fresh_above_def empty_world_def)
  then have "fresh_above w"
    by (rule fresh_above_but_modules [OF ms(2)]) (simp add: ms(1) split: if_splits)
  moreover have "ctx_inv E 1 w" using E(2) ms(1) oh by (simp add: ctx_inv_def keys_interned_def)
  moreover have "ctx_events w 1" using ms(1) by (simp add: ctx_events_def libevent_eh_def)
  moreover have "has_module w 1 m" if "m \<in> set repo_modules" for m
    by (rule installed_loaded [OF w(2) _ mods(3)]) (use tree(4) [OF that] E(6) in simp)
  ultimately have "booted E 1 w" using w(2) by (simp add: booted_def loaded_def)
  moreover have "ctx_ents 1 w = []" using ms(1) oh by (simp add: ctx_ents_def)
  moreover have "w_conn w = (\<lambda>_. None)"
    using ms(2) by (cases w) (simp add: but_modules_def empty_world_def)
  ultimately show ?thesis using new init by blast
qed

section \<open>One listening engine\<close>

definition parses_to :: "env \<Rightarrow> string \<Rightarrow> vde_sobj \<Rightarrow> bool" where
  "parses_to X str obj \<longleftrightarrow> CHR 0x00 \<notin> set str \<and> sobj_parse X str = Some obj"

lemma params_parse:
  assumes "booted E ctx w" and "parses_to E str obj" and "\<not> malloc_null E (brk w)"
  shows "vde_sobj_from_string E (str @ [CHR 0x00]) w = Inr (obj, w\<lparr>brk := Suc (brk w)\<rparr>)"
    and "booted E ctx (w\<lparr>brk := Suc (brk w)\<rparr>)" and "grown b w (w\<lparr>brk := Suc (brk w)\<rparr>)"
    and "ctx_ents ctx (w\<lparr>brk := Suc (brk w)\<rparr>) = ctx_ents ctx w"
proof -
  show "vde_sobj_from_string E (str @ [CHR 0x00]) w = Inr (obj, w\<lparr>brk := Suc (brk w)\<rparr>)"
    using assms(2,3) c_string_token [of str "[]"] by (simp add: vde_sobj_from_string_def parses_to_def mon)
  show "booted E ctx (w\<lparr>brk := Suc (brk w)\<rparr>)"
    using assms(1) by (simp add: booted_def fresh_above_def ctx_inv_def keys_interned_def entry_ok_def
        modules_inv_def modules_ok_def has_module_def)
  show "grown b w (w\<lparr>brk := Suc (brk w)\<rparr>)" by (simp add: grown_def)
  show "ctx_ents ctx (w\<lparr>brk := Suc (brk w)\<rparr>) = ctx_ents ctx w" by (simp add: ctx_ents_def)
qed

text \<open>A transport that listens, with a connection manager that hands its connections to an engine.\<close>

definition serves :: "world \<Rightarrow> ptr \<Rightarrow> ptr \<Rightarrow> bool" where
  "serves w transport engine \<longleftrightarrow> transport \<noteq> NULL \<and> engine \<noteq> NULL \<and>
     (\<exists>kt kc m t. w_comp w transport = Some kt \<and> comp_kind kt = VDE_TRANSPORT \<and>
        c_cm_accept_cb kt = Some Conn_manager_accept_cb \<and> ctx_events w (comp_ctx kt) \<and>
        cm_cb_arg kt \<noteq> NULL \<and> w_comp w (cm_cb_arg kt) = Some kc \<and> w_cm w (comp_priv kc) = Some m \<and>
        cm_engine m = engine \<and> do_remote_authorization m = 0 \<and>
        w_tr w (comp_priv kt) = Some t \<and> listen_event t \<noteq> NULL \<and> tr_pending_conns t = [])"

lemma manager_serves:
  assumes "managed t e component w0 w" and "listening (comp_priv ct) tt w w'" and "booted E ctx w'"
    and "w_comp w0 t = Some ct" and "comp_kind ct = VDE_TRANSPORT" and "comp_ctx ct = ctx" and "tr_pending_conns tt = []"
  shows "serves w' t e"
proof -
  obtain fd ev where q: "quiet (w\<lparr>w_tr := (w_tr w)(comp_priv ct \<mapsto> tt\<lparr>listen_fd := fd, listen_event := ev\<rparr>)\<rparr>) w'" "ev \<noteq> NULL"
    using assms(2) by (auto simp: listening_def)
  note f = quiet_all [OF q(1), simplified]
  obtain kc ce where kc: "w_comp w component = Some kc" "w_cm w (comp_priv kc) = Some \<lparr>cm_transport = t, cm_engine = e,
      cm_component = component, pending_conns = [], do_remote_authorization = 0\<rparr>"
    "w_comp w t = Some (ct\<lparr>refcount := refcount ct + 1, c_cm_connect_cb := Some Conn_manager_connect_cb,
      c_cm_accept_cb := Some Conn_manager_accept_cb, c_cm_error_cb := Some Conn_manager_error_cb,
      cm_cb_arg := component\<rparr>)" "w_comp w e = Some ce"
    using assms(1,4) by (auto simp: managed_def)
  have "w_comp w' NULL = None" "ctx_events w' ctx" using assms(3) by (simp_all add: booted_def fresh_above_def)
  then have "ctx_events w' ctx" "t \<noteq> NULL" "e \<noteq> NULL" "component \<noteq> NULL"
    using kc(1,3,4) unfolding f(15) by (metis option.distinct(1))+
  with kc(1-3) assms(5-7) q(2) show ?thesis unfolding serves_def f by simp
qed

lemma manager_frame:
  assumes "managed t e component w0 w" and "listening tr tt w w'" and "w_comp w0 e = Some g"
  shows "w_hub w' = w_hub w0" "w_signal w' = w_signal w0" "w_comp w' e = Some (g\<lparr>refcount := refcount g + 1\<rparr>)"
proof -
  obtain fd ev where q: "quiet (w\<lparr>w_tr := (w_tr w)(tr \<mapsto> tt\<lparr>listen_fd := fd, listen_event := ev\<rparr>)\<rparr>) w'"
    using assms(2) by (auto simp: listening_def)
  note f = quiet_all [OF q, simplified]
  show "w_hub w' = w_hub w0" "w_signal w' = w_signal w0" "w_comp w' e = Some (g\<lparr>refcount := refcount g + 1\<rparr>)"
    using assms(1,3) unfolding managed_def f by auto
qed

lemma serve_runs:
  assumes E: "E = dispatch X (Suc (Suc d))" and X: "machine_ok X" and "booted E ctx w"
    and texts: "parses_to X tr_text (SHash [(''path'', SString dir)])" "length dir \<le> 104"
      "parses_to X cm_text (SHash [(''engine'', SString e), (''transport'', SString tr)])"
    and names: "\<And>s. s \<in> {tr, e, cm} \<Longrightarrow> hget (ctx_ents ctx w) (quark_id X s) = NULL" "distinct [tr, e, cm]"
    and engine: "\<And>w1. booted E ctx w1 \<Longrightarrow> hget (ctx_ents ctx w1) (quark_id X e) = NULL \<Longrightarrow>
      \<exists>w2 g. vde_context_new_component E ctx VDE_ENGINE (Some family) (Some e) SNull w1 = Inr ((0, Some (brk w1)), w2) \<and>
        booted E ctx w2 \<and> grown (brk w1) w1 w2 \<and> ctx_ents ctx w2 = ctx_ents ctx w1 @ [(quark_id X e, brk w1)] \<and>
        brk w1 < brk w2 \<and> w_comp w2 (brk w1) = Some g \<and> comp_kind g = VDE_ENGINE \<and> R (brk w1) g w2"
  shows "\<exists>w' w2 t p g k. serve E ctx engine0 cm0 tr tr_text family e cm cm_text w = Inr (p, w') \<and> booted E ctx w' \<and>
    grown (brk w) w w' \<and> ctx_ents ctx w' = ctx_ents ctx w @ [(quark_id X tr, t), (quark_id X e, p), (quark_id X cm, k)] \<and>
    serves w' t p \<and> brk w \<le> p \<and> R p g w2 \<and> w_hub w' = w_hub w2 \<and> w_signal w' = w_signal w2 \<and> w_comp w2 p = Some g \<and>
    w_comp w' p = Some (g\<lparr>refcount := refcount g + 1\<rparr>)"
proof -
  have mem: "\<And>k. \<not> malloc_null X k" and q: "inj (quark_id X)" and sys: "listen_calls_ok X" "events_ok X"
    using X by (simp_all add: machine_ok_def quark_ok_def)
  have inj: "quark_id X s = quark_id X s' \<longleftrightarrow> s = s'" for s s' using q by (auto dest: injD)
  have texts': "parses_to E tr_text (SHash [(''path'', SString dir)])"
    "parses_to E cm_text (SHash [(''engine'', SString e), (''transport'', SString tr)])"
    using texts(1,3) by (simp_all add: E parses_to_def)
  have memE: "\<not> malloc_null E k" for k using mem by (simp add: E)
  let ?wa = "w\<lparr>brk := Suc (brk w)\<rparr>"
  note a = params_parse [OF assms(3) texts'(1) memE]
  obtain w1 kt where w1: "vde_context_new_component E ctx VDE_TRANSPORT (Some ''vde2'') (Some tr)
      (SHash [(''path'', SString dir)]) ?wa = Inr ((0, Some (brk ?wa)), w1)" "booted E ctx w1" "grown (brk ?wa) ?wa w1"
    "ctx_ents ctx w1 = ctx_ents ctx w @ [(quark_id X tr, brk ?wa)]" "brk ?wa < brk w1"
    "w_comp w1 (brk ?wa) = Some kt" "comp_kind kt = VDE_TRANSPORT" "comp_ctx kt = ctx" "c_tr_listen kt = Some Vde2_listen"
    "comp_priv kt = Suc (brk ?wa)" "w_tr w1 (comp_priv kt) = Some \<lparr>vdesock_dir = dir, listen_fd = 0, listen_event = NULL, connections = 0, tr_pending_conns = []\<rparr>"
    using new_transport [OF a(2) [unfolded E] mem texts(2), of tr] names(1) [of tr] a(4) unfolding E by auto
  have new1: "hget (ctx_ents ctx w1) (quark_id X s) = NULL" if "s \<in> {e, cm}" for s
    unfolding w1(4) by (rule hget_snoc) (use names(1) [of s] names(2) that in \<open>auto simp: inj\<close>)
  from engine [OF w1(2) new1] obtain w2 g where w2:
    "vde_context_new_component E ctx VDE_ENGINE (Some family) (Some e) SNull w1 = Inr ((0, Some (brk w1)), w2)"
    "booted E ctx w2" "grown (brk w1) w1 w2" "ctx_ents ctx w2 = ctx_ents ctx w1 @ [(quark_id X e, brk w1)]"
    "brk w1 < brk w2" "w_comp w2 (brk w1) = Some g" "comp_kind g = VDE_ENGINE" "R (brk w1) g w2"
    by blast
  have t2: "w_comp w2 (brk ?wa) = Some kt"
    "w_tr w2 (comp_priv kt) = Some \<lparr>vdesock_dir = dir, listen_fd = 0, listen_event = NULL, connections = 0, tr_pending_conns = []\<rparr>"
    using w2(3) w1(2,5,6,11) fresh_above_below(5) [of w1 "comp_priv kt"] by (auto simp: grown_def booted_def)
  let ?w3 = "w2\<lparr>brk := Suc (brk w2)\<rparr>"
  note c = params_parse [OF w2(2) texts'(2) memE]
  have "hget (ctx_ents ctx w2) (quark_id X cm) = NULL"
    unfolding w2(4) by (rule hget_snoc) (use new1 [of cm] names(2) in \<open>auto simp: inj\<close>)
  then obtain w4 where w4: "vde_context_new_component E ctx VDE_CONNECTION_MANAGER (Some ''default'') (Some cm)
      (SHash [(''engine'', SString e), (''transport'', SString tr)]) ?w3 = Inr ((0, Some (brk ?w3)), w4)"
    "booted E ctx w4" "grown (brk w) ?w3 w4" "ctx_ents ctx w4 = ctx_ents ctx w2 @ [(quark_id X cm, brk ?w3)]"
    "managed (brk ?wa) (brk w1) (brk ?w3) ?w3 w4"
    using new_conn_manager [OF c(2) [unfolded E] mem, of cm tr "brk ?wa" kt e "brk w1" g "brk w"]
      c(4) t2(1) w1(4,5,7) w2(4-7) unfolding E by auto
  obtain w5 where w5: "vde_conn_manager_listen E (brk ?w3) w4 = Inr (0, w5)"
    "listening (comp_priv kt) \<lparr>vdesock_dir = dir, listen_fd = 0, listen_event = NULL, connections = 0, tr_pending_conns = []\<rparr> w4 w5"
    using manager_listens [OF sys w4(2,5), of kt, of _ d] t2 w1(7-9) unfolding E by auto
  have tr4: "w_tr w4 (comp_priv kt) \<noteq> None" using w4(5) t2(2) by (simp add: managed_def)
  note k = listening_keeps [OF w5(2) w4(2) tr4, of "brk w"]
  have run: "serve E ctx engine0 cm0 tr tr_text family e cm cm_text w = Inr (brk w1, w5)"
    using a(1) w1(1) w2(1) c(1) w4(1) w5(1) by (simp add: serve_def)
  have "grown (brk w) w w1" by (rule grown_trans [OF a(3)], rule grown_mono [OF w1(3)]) simp
  then have "grown (brk w) w w2" by (rule grown_trans, intro grown_mono [OF w2(3)]) (use w1(5) in simp)
  then have "grown (brk w) w w4" by (rule grown_trans [OF _ grown_trans [OF c(3) w4(3)]])
  then have "grown (brk w) w w5" by (rule grown_trans) (rule k(2), use w1(10) in simp)
  moreover have "ctx_ents ctx w5 = ctx_ents ctx w @ [(quark_id X tr, brk ?wa), (quark_id X e, brk w1), (quark_id X cm, brk ?w3)]"
    using k(3) w4(4) w2(4) w1(4,10) by simp
  moreover have "serves w5 (brk ?wa) (brk w1)"
    by (rule manager_serves [OF w4(5) w5(2) k(1)]) (use t2(1) w1(7,8,10) in simp_all)
  moreover have "booted E ctx w5" by (rule k(1)) (use w1(10) in simp)
  moreover have "w_comp ?w3 (brk w1) = Some g" "brk w \<le> brk w1" using w2(6) w1(5) by simp_all
  ultimately show ?thesis
    using run w2(6,8) manager_frame [OF w4(5) w5(2), of g]
    by (intro exI [of _ w5] exI [of _ w2] exI [of _ "brk ?wa"] exI [of _ "brk w1"] exI [of _ g] exI [of _ "brk ?w3"]) simp
qed

section \<open>The switch after the startup\<close>

lemma serves_switch:
  assumes "booted E ctx w" and "serves w transport component" and "hub_sys component hub w"
    and "w_comp w component = Some g" and "comp_kind g = VDE_ENGINE" and "c_eng_new_conn g = Some Hub_engine_newconn"
  shows "switch_inv transport component hub w"
proof -
  have fresh: "fresh_above w" using assms(1) by (simp add: booted_def)
  then have "brk w \<noteq> NULL" "\<forall>p. brk w \<le> p \<longrightarrow> w_pc w p = None" and "heaps_fresh w"
    by (simp_all add: fresh_above_def heaps_fresh_def)
  moreover from this have "serves_hub w transport component"
    using assms(2,4-6) unfolding serves_def serves_hub_def by auto
  ultimately show ?thesis
    using assms(2,3) unfolding switch_inv_def serves_def by auto
qed

text \<open>What starts up later leaves a switch alone.\<close>

lemma grown_outside:
  assumes "switch_inv transport component hub w" and "grown (brk w) w w'" and "fresh_above w" and "fresh_above w'"
  shows "outside transport component hub w w'"
proof -
  obtain kt kc m t g h where k: "w_comp w transport = Some kt" "w_comp w (cm_cb_arg kt) = Some kc"
    "w_cm w (comp_priv kc) = Some m" "w_tr w (comp_priv kt) = Some t" "w_comp w component = Some g" "w_hub w hub = Some h"
    using assms(1) by (auto simp: switch_inv_def serves_hub_def hub_sys_def)
  note below = fresh_above_below [OF assms(3)]
  have lt: "transport < brk w" "cm_cb_arg kt < brk w" "comp_priv kc < brk w" "comp_priv kt < brk w" "component < brk w" "hub < brk w"
    using below(1) [OF k(1)] below(1) [OF k(2)] below(4) [OF k(3)] below(5) [OF k(4)] below(1) [OF k(5)] below(2) [OF k(6)]
    by simp_all
  have same: "w_comp w' p = w_comp w p" "w_signal w' p = w_signal w p" "w_hub w' p = w_hub w p" "w_cm w' p = w_cm w p"
    "w_tr w' p = w_tr w p" if "p < brk w" for p
    using assms(2) that by (simp_all add: grown_def)
  have all: "w_conn w' = w_conn w" "w_v2c w' = w_v2c w" "brk w \<le> brk w'" "\<forall>x. ctx_events w x \<longrightarrow> ctx_events w' x"
    using assms(2) by (simp_all add: grown_def)
  have "w_signal w \<subseteq>\<^sub>m w_signal w'" using same(2) below(3) by (force simp: map_le_def dom_def)
  then have "elsewhere component hub w w'"
    using all lt same unfolding elsewhere_def by simp
  moreover have "heaps_fresh w'" "\<forall>p. brk w' \<le> p \<longrightarrow> w_pc w' p = None"
    using assms(4) by (simp_all add: fresh_above_def heaps_fresh_def)
  ultimately show ?thesis
    using all k lt same unfolding outside_def by simp
qed

text \<open>The texts of the parameters, as the JSON parser reads them.\<close>

definition hub_texts_ok :: "env \<Rightarrow> bool" where
  "hub_texts_ok X \<longleftrightarrow>
     parses_to X ''{'path': '/tmp/vde3_test'}'' (SHash [(''path'', SString ''/tmp/vde3_test'')]) \<and>
     parses_to X ''{'engine': 'e1', 'transport': 'tr1'}'' (SHash [(''engine'', SString ''e1''), (''transport'', SString ''tr1'')]) \<and>
     parses_to X ''{'path': '/tmp/vde3_test_ctrl'}'' (SHash [(''path'', SString ''/tmp/vde3_test_ctrl'')]) \<and>
     parses_to X ''{'engine': 'e2', 'transport': 'tr2'}'' (SHash [(''engine'', SString ''e2''), (''transport'', SString ''tr2'')])"

text \<open>A hub that is served, whatever the names.\<close>

lemma serve_hub:
  assumes E: "E = dispatch X (Suc (Suc d))" and X: "machine_ok X" and "booted E ctx w"
    and texts: "parses_to X tr_text (SHash [(''path'', SString dir)])" "length dir \<le> 104"
      "parses_to X cm_text (SHash [(''engine'', SString e), (''transport'', SString tr)])"
    and names: "\<And>s. s \<in> {tr, e, cm} \<Longrightarrow> hget (ctx_ents ctx w) (quark_id X s) = NULL" "distinct [tr, e, cm]"
  shows "\<exists>w' t p k. serve E ctx engine0 cm0 tr tr_text ''hub'' e cm cm_text w = Inr (p, w') \<and> booted E ctx w' \<and>
    grown (brk w) w w' \<and> ctx_ents ctx w' = ctx_ents ctx w @ [(quark_id X tr, t), (quark_id X e, p), (quark_id X cm, k)] \<and>
    switch_inv t p (Suc p) w' \<and> w_hub w' (Suc p) = Some \<lparr>hub_component = p, ports = []\<rparr> \<and> brk w \<le> p"
proof -
  let ?R = "\<lambda>p g w2. c_eng_new_conn g = Some Hub_engine_newconn \<and> hub_sys p (Suc p) w2 \<and> comp_kind g = VDE_ENGINE \<and>
    w_hub w2 (Suc p) = Some \<lparr>hub_component = p, ports = []\<rparr>"
  have mem: "\<And>k. \<not> malloc_null X k" and cmds: "commands_ok (engine_hub_commands X)" using X by (simp_all add: machine_ok_def)
  have engine: "\<exists>w2 g. vde_context_new_component E ctx VDE_ENGINE (Some ''hub'') (Some e) SNull w1 = Inr ((0, Some (brk w1)), w2) \<and>
      booted E ctx w2 \<and> grown (brk w1) w1 w2 \<and> ctx_ents ctx w2 = ctx_ents ctx w1 @ [(quark_id X e, brk w1)] \<and>
      brk w1 < brk w2 \<and> w_comp w2 (brk w1) = Some g \<and> comp_kind g = VDE_ENGINE \<and> ?R (brk w1) g w2"
    if "booted E ctx w1" "hget (ctx_ents ctx w1) (quark_id X e) = NULL" for w1
    using new_hub [OF that(1) [unfolded E] mem cmds that(2)] unfolding E by blast
  obtain w' w2 t p g k where r: "serve E ctx engine0 cm0 tr tr_text ''hub'' e cm cm_text w = Inr (p, w')" "booted E ctx w'"
    "grown (brk w) w w'" "ctx_ents ctx w' = ctx_ents ctx w @ [(quark_id X tr, t), (quark_id X e, p), (quark_id X cm, k)]"
    "serves w' t p" "?R p g w2" "w_hub w' = w_hub w2" "w_signal w' = w_signal w2" "w_comp w2 p = Some g"
    "w_comp w' p = Some (g\<lparr>refcount := refcount g + 1\<rparr>)" "brk w \<le> p"
    using serve_runs [OF assms(1-6) names engine, of engine0 cm0] by blast
  have "hub_sys p (Suc p) w'"
    by (rule hub_sys_keep [OF _ _ r(8,7,10,9)]) (use r(6) in simp_all)
  from serves_switch [OF r(2,5) this r(10)] r(1-4,6,7,11) show ?thesis by auto
qed

lemma hub_main_starts:
  assumes "machine_ok X" and "hub_texts_ok X"
  shows "\<exists>w t p. vde_hub_main (dispatch X (d + 2)) junk empty_world = Inr (0, w) \<and> switch_inv t p (Suc p) w \<and>
    w_hub w (Suc p) = Some \<lparr>hub_component = p, ports = []\<rparr>"
proof -
  let ?E = "dispatch X (Suc (Suc d))"
  have mem: "\<And>k. \<not> malloc_null X k" and q: "inj (quark_id X)" and cmds: "commands_ok (engine_ctrl_commands X)"
    using assms(1) by (simp_all add: machine_ok_def quark_ok_def)
  have inj: "quark_id X s = quark_id X s' \<longleftrightarrow> s = s'" for s s' using q by (auto dest: injD)
  note texts = assms(2) [unfolded hub_texts_ok_def]
  obtain ctx w0 w1 where w1: "vde_context_new ?E True empty_world = Inr ((0, ctx), w0)"
    "vde_context_init ?E ctx (Some libevent_eh) None w0 = Inr (0, w1)" "booted ?E ctx w1" "ctx_ents ctx w1 = []"
    using context_boots [OF assms(1) refl, of "Suc (Suc d)"] by blast
  obtain w2 t p k where w2: "serve ?E ctx (junk ''engine'') (junk ''cm'') ''tr1'' ''{'path': '/tmp/vde3_test'}''
      ''hub'' ''e1'' ''cm1'' ''{'engine': 'e1', 'transport': 'tr1'}'' w1 = Inr (p, w2)" "booted ?E ctx w2"
    "ctx_ents ctx w2 = [(quark_id X ''tr1'', t), (quark_id X ''e1'', p), (quark_id X ''cm1'', k)]"
    "switch_inv t p (Suc p) w2" "w_hub w2 (Suc p) = Some \<lparr>hub_component = p, ports = []\<rparr>"
    using serve_hub [OF refl assms(1) w1(3), of "''{'path': '/tmp/vde3_test'}''" "''/tmp/vde3_test''"
        "''{'engine': 'e1', 'transport': 'tr1'}''" "''e1''" "''tr1''" "''cm1''" "junk ''engine''" "junk ''cm''"] texts w1(4)
    by auto
  have engine: "\<exists>w2 g. vde_context_new_component ?E ctx VDE_ENGINE (Some ''ctrl'') (Some ''e2'') SNull w1 = Inr ((0, Some (brk w1)), w2) \<and>
      booted ?E ctx w2 \<and> grown (brk w1) w1 w2 \<and> ctx_ents ctx w2 = ctx_ents ctx w1 @ [(quark_id X ''e2'', brk w1)] \<and>
      brk w1 < brk w2 \<and> w_comp w2 (brk w1) = Some g \<and> comp_kind g = VDE_ENGINE \<and> True"
    if "booted ?E ctx w1" "hget (ctx_ents ctx w1) (quark_id X ''e2'') = NULL" for w1
    using new_ctrl [OF that(1) mem cmds that(2)] by blast
  have names: "hget (ctx_ents ctx w2) (quark_id X s) = NULL" if "s \<in> {''tr2'', ''e2'', ''cm2''}" for s
    using that by (auto simp: w2(3) hget_def inj)
  have ctrl_texts: "parses_to X ''{'path': '/tmp/vde3_test_ctrl'}'' (SHash [(''path'', SString ''/tmp/vde3_test_ctrl'')])"
    "length ''/tmp/vde3_test_ctrl'' \<le> 104"
    "parses_to X ''{'engine': 'e2', 'transport': 'tr2'}'' (SHash [(''engine'', SString ''e2''), (''transport'', SString ''tr2'')])"
    and ctrl_names: "distinct [''tr2'', ''e2'', ''cm2'']"
    using texts by simp_all
  obtain w3 r where w3: "serve ?E ctx (junk ''cengine'') (junk ''ccm'') ''tr2'' ''{'path': '/tmp/vde3_test_ctrl'}''
      ''ctrl'' ''e2'' ''cm2'' ''{'engine': 'e2', 'transport': 'tr2'}'' w2 = Inr (r, w3)" "booted ?E ctx w3" "grown (brk w2) w2 w3"
    using serve_runs [OF refl assms(1) w2(2) ctrl_texts names ctrl_names engine, of "junk ''cengine''" "junk ''ccm''"] by blast
  have fresh: "fresh_above w2" "fresh_above w3" using w2(2) w3(2) by (simp_all add: booted_def)
  have out: "outside t p (Suc p) w2 w3" by (rule grown_outside [OF w2(4) w3(3) fresh])
  have "switch_inv t p (Suc p) w3" by (rule switch_inv_outside [OF w2(4) out])
  moreover have "w_hub w3 (Suc p) = Some \<lparr>hub_component = p, ports = []\<rparr>"
    using w2(5) out by (simp add: outside_def elsewhere_def)
  moreover have "vde_hub_main (dispatch X (d + 2)) junk empty_world = Inr (0, w3)"
    using w1(1,2) w2(1) w3(1) by (simp add: vde_hub_main_def)
  ultimately show ?thesis by blast
qed

section \<open>Two hubs and a local connection\<close>

definition hub2hub_texts_ok :: "env \<Rightarrow> bool" where
  "hub2hub_texts_ok X \<longleftrightarrow>
     parses_to X ''{'path': '/tmp/vde3_test_1'}'' (SHash [(''path'', SString ''/tmp/vde3_test_1'')]) \<and>
     parses_to X ''{'engine': 'e1', 'transport': 'tr1'}'' (SHash [(''engine'', SString ''e1''), (''transport'', SString ''tr1'')]) \<and>
     parses_to X ''{'path': '/tmp/vde3_test_2'}'' (SHash [(''path'', SString ''/tmp/vde3_test_2'')]) \<and>
     parses_to X ''{'engine': 'e2', 'transport': 'tr2'}'' (SHash [(''engine'', SString ''e2''), (''transport'', SString ''tr2'')])"

text \<open>A hub takes a connection that sets no limit on the payload.\<close>

lemma hub_takes_conn:
  assumes "hub_sys component hub w" and "w_hub w hub = Some h" and "w_conn w conn = Some c" and "max_pload c = 0" and "conn \<noteq> NULL"
    and "w_comp w component = Some g" and "comp_kind g = VDE_ENGINE" and "c_eng_new_conn g = Some Hub_engine_newconn"
  shows "vde_engine_new_connection (dispatch X (Suc n)) component conn req w = Inr (0,
    w\<lparr>w_hub := (w_hub w)(hub \<mapsto> h\<lparr>ports := conn # ports h\<rparr>), w_conn := (w_conn w)(conn \<mapsto> hub_conn hub c)\<rparr>)"
proof -
  have k: "component \<noteq> NULL" "comp_priv g = hub" and n: "no_listeners w component"
    using assms(1,6) by (auto simp: hub_sys_def no_listeners_def)
  have "no_listeners (w\<lparr>w_hub := hb, w_conn := cn\<rparr>) component" for hb cn using n by (simp add: no_listeners_def)
  then show ?thesis
    using hub_newconn_eval [OF assms(6) k assms(2,3,5), of "dispatch X n" req] assms(4-8) k(1)
    by (simp add: vde_engine_new_connection_def mon raise_quiet)
qed

lemma hub_sys_other_hub:
  assumes "hub_sys component hub w" and "w_hub w hub = Some \<lparr>hub_component = component, ports = []\<rparr>" and "hub \<noteq> hub'"
    and "w' = w\<lparr>w_hub := (w_hub w)(hub' \<mapsto> h'), w_conn := cn\<rparr>"
  shows "hub_sys component hub w'"
  using assms by (auto simp: hub_sys_def no_listeners_def)

lemma switch_engine:
  assumes "switch_inv t p hub w"
  obtains g where "w_comp w p = Some g" "comp_kind g = VDE_ENGINE" "c_eng_new_conn g = Some Hub_engine_newconn" "hub_sys p hub w"
  using assms by (auto simp: switch_inv_def serves_hub_def)

lemma hubs_linked:
  assumes "\<not> vde3_debug X" and "\<And>k. \<not> malloc_null X k" and "fresh_above w" and "hub1 \<noteq> hub2"
    and "switch_inv t1 p1 hub1 w" and "w_hub w hub1 = Some \<lparr>hub_component = p1, ports = []\<rparr>"
    and "switch_inv t2 p2 hub2 w" and "w_hub w hub2 = Some \<lparr>hub_component = p2, ports = []\<rparr>"
  shows "\<exists>w' c1 l1 c2 l2. vde_connect_engines_unqueued (dispatch X (Suc n)) e ctx p1 NULL p2 NULL w = Inr (0, w') \<and>
    lc_pair w' c1 l1 c2 l2 \<and> hub_port w' hub1 c1 \<and> hub_port w' hub2 c2 \<and>
    w_hub w' = (w_hub w)(hub1 \<mapsto> \<lparr>hub_component = p1, ports = [c1]\<rparr>, hub2 \<mapsto> \<lparr>hub_component = p2, ports = [c2]\<rparr>) \<and>
    serves_hub w' t1 p1 \<and> serves_hub w' t2 p2"
proof -
  let ?E = "dispatch X (Suc n)" and ?l1 = "brk w" and ?l2 = "Suc (brk w)" and ?c1 = "Suc (Suc (brk w))" and ?c2 = "Suc (Suc (Suc (brk w)))"
  let ?k = "zero_connection\<lparr>c_context := ctx, max_pload := 0, be_write := Some Vde_lc_write, be_close := Some Vde_lc_close\<rparr>"
  let ?w1 = "lc_started ctx w"
  have b: "brk w \<noteq> NULL" by (rule fresh_above_below(6) [OF assms(3)])
  have w1: "w_conn ?w1 = (w_conn w)(?c1 \<mapsto> ?k\<lparr>be_priv := ?l1\<rparr>, ?c2 \<mapsto> ?k\<lparr>be_priv := ?l2\<rparr>)" "w_comp ?w1 = w_comp w"
    "w_hub ?w1 = w_hub w" "w_signal ?w1 = w_signal w" "w_tr ?w1 = w_tr w"
    "w_lc ?w1 = (w_lc w)(?l1 \<mapsto> \<lparr>lc_conn = ?c1, lc_peer = ?l2\<rparr>, ?l2 \<mapsto> \<lparr>lc_conn = ?c2, lc_peer = ?l1\<rparr>)"
    "w_ctx ?w1 = w_ctx w" "w_cm ?w1 = w_cm w" "w_pc ?w1 = w_pc w" "brk w \<le> brk ?w1"
    by (simp_all add: lc_started_def Let_def)
  obtain g1 where g1: "w_comp w p1 = Some g1" "comp_kind g1 = VDE_ENGINE" "c_eng_new_conn g1 = Some Hub_engine_newconn" "hub_sys p1 hub1 w"
    using assms(5) by (rule switch_engine)
  obtain g2 where g2: "w_comp w p2 = Some g2" "comp_kind g2 = VDE_ENGINE" "c_eng_new_conn g2 = Some Hub_engine_newconn" "hub_sys p2 hub2 w"
    using assms(7) by (rule switch_engine)
  have sys1: "hub_sys p1 hub1 ?w1" "hub_sys p2 hub2 ?w1"
    using hub_sys_keep [OF g1(4) assms(6), of ?w1 g1 g1] hub_sys_keep [OF g2(4) assms(8), of ?w1 g2 g2] g1(1) g2(1) w1 by simp_all
  let ?w2 = "?w1\<lparr>w_hub := (w_hub ?w1)(hub1 \<mapsto> \<lparr>hub_component = p1, ports = [?c1]\<rparr>),
    w_conn := (w_conn ?w1)(?c1 \<mapsto> hub_conn hub1 (?k\<lparr>be_priv := ?l1\<rparr>))\<rparr>"
  have r1: "vde_engine_new_connection ?E p1 ?c1 NULL ?w1 = Inr (0, ?w2)"
    using hub_takes_conn [OF sys1(1), of "\<lparr>hub_component = p1, ports = []\<rparr>" ?c1 "?k\<lparr>be_priv := ?l1\<rparr>" g1 X n NULL] assms(6) g1 w1
    by simp
  have sys2: "hub_sys p2 hub2 ?w2"
    by (rule hub_sys_other_hub [OF sys1(2) _ _ refl]) (use assms(4,8) w1(3) in simp_all)
  let ?w3 = "?w2\<lparr>w_hub := (w_hub ?w2)(hub2 \<mapsto> \<lparr>hub_component = p2, ports = [?c2]\<rparr>),
    w_conn := (w_conn ?w2)(?c2 \<mapsto> hub_conn hub2 (?k\<lparr>be_priv := ?l2\<rparr>))\<rparr>"
  have r2: "vde_engine_new_connection ?E p2 ?c2 NULL ?w2 = Inr (0, ?w3)"
    using hub_takes_conn [OF sys2, of "\<lparr>hub_component = p2, ports = []\<rparr>" ?c2 "?k\<lparr>be_priv := ?l2\<rparr>" g2 X n NULL] assms(4,8) g2 w1
    by simp
  have run: "vde_connect_engines_unqueued ?E e ctx p1 NULL p2 NULL w = Inr (0, ?w3)"
    by (rule connect_engines_run [OF _ _ b r1 r2]) (use assms(1,2) in simp_all)
  have "lc_pair ?w3 ?c1 ?l1 ?c2 ?l2" using b w1(6) by (simp add: lc_pair_def lc_end_def hub_conn_def)
  moreover have "hub_port ?w3 hub1 ?c1" "hub_port ?w3 hub2 ?c2" by (simp_all add: hub_port_def hub_conn_def)
  moreover have keep: "serves_hub ?w3 t p" if "switch_inv t p hub w" for t p hub
  proof -
    have "serves_hub w t p" using that by (simp add: switch_inv_def)
    then show ?thesis by (rule serves_hub_keep) (use that w1 in \<open>auto simp: switch_inv_def\<close>)
  qed
  ultimately show ?thesis using run w1(3) keep [OF assms(5)] keep [OF assms(7)]
    by (intro exI [of _ ?w3] exI [of _ ?c1] exI [of _ ?l1] exI [of _ ?c2] exI [of _ ?l2]) simp
qed

section \<open>Properties\<close>


text \<open>A machine with the four modules in one directory.\<close>

definition example_objects :: "(string \<times> nat \<times> vde_module) list" where
  "example_objects = [(''lib/vde2.so'', 101, transport_vde2_module), (''lib/hub.so'', 102, engine_hub_module),
     (''lib/ctrl.so'', 103, engine_ctrl_module), (''lib/cm.so'', 104, conn_manager_module)]"

definition example_texts :: "(string \<times> vde_sobj) list" where
  "example_texts =
     [(''{'path': '/tmp/vde3_test'}'', SHash [(''path'', SString ''/tmp/vde3_test'')]),
      (''{'path': '/tmp/vde3_test_1'}'', SHash [(''path'', SString ''/tmp/vde3_test_1'')]),
      (''{'path': '/tmp/vde3_test_2'}'', SHash [(''path'', SString ''/tmp/vde3_test_2'')]),
      (''{'engine': 'e1', 'transport': 'tr1'}'', SHash [(''engine'', SString ''e1''), (''transport'', SString ''tr1'')]),
      (''{'path': '/tmp/vde3_test_ctrl'}'', SHash [(''path'', SString ''/tmp/vde3_test_ctrl'')]),
      (''{'engine': 'e2', 'transport': 'tr2'}'', SHash [(''engine'', SString ''e2''), (''transport'', SString ''tr2'')])]"

definition example_machine :: env where
  "example_machine = example_peer_env\<lparr>vde3_debug := False,
     fts_open := (\<lambda>_. Inr [FTS_D ''lib'' (map (FTS_F \<circ> fst) example_objects)]), fts_close := (\<lambda>_. 0),
     dl_open := (\<lambda>path. case map_of example_objects path of None \<Rightarrow> NULL | Some (p, m) \<Rightarrow> p),
     dl_sym := (\<lambda>h. Some (h, the (map_of (map snd example_objects) h))),
     sobj_parse := map_of example_texts,
     engine_hub_commands := [example_command ''status'', end_command],
     engine_ctrl_commands := [example_command ''add'', end_command]\<rparr>"

lemma example_files: "fts_files 0 [FTS_D ''lib'' (map (FTS_F \<circ> fst) example_objects)] = map fst example_objects"
  by (simp add: example_objects_def)

lemma example_provides:
  "provides example_machine path = map_of example_objects path"
  by (auto simp: provides_def example_machine_def example_objects_def is_so_path_def)

lemma repo_modules_ok: "m \<in> set repo_modules \<Longrightarrow> module_ok m"
  by (auto simp: repo_modules_def module_ok_def kind_ops_ok_def component_ops_ok_def transport_vde2_module_def
      engine_hub_module_def engine_ctrl_module_def conn_manager_module_def)

lemma example_installed: "m \<in> set repo_modules \<Longrightarrow> installed example_machine (map fst example_objects) m"
  using repo_modules_ok [of m]
  unfolding installed_def example_provides
  by (auto simp: repo_modules_def example_objects_def module_id_def repo_module_simps)

lemma example_machine_ok: "machine_ok example_machine"
proof -
  have "quark_ok example_machine"
    by (rule quark_ok_num) (simp add: example_machine_def example_peer_env_def example_greet_env_def
        example_switch_env_def example_v2_env_def)
  moreover have "\<forall>k. \<not> malloc_null example_machine k" "events_ok example_machine"
    using example_peer_env_facts(1,2) by (simp_all add: example_machine_def events_ok_def)
  moreover have "listen_calls_ok example_machine"
    by (simp add: listen_calls_ok_def example_machine_def example_peer_env_def example_greet_env_def)
  moreover have "commands_ok [example_command s, end_command]" for s
    unfolding commands_ok_def
    by (rule exI [of _ "[example_command s]"]) (simp add: named_array_simps example_command_def end_command_def)
  then have "commands_ok (engine_hub_commands example_machine)" "commands_ok (engine_ctrl_commands example_machine)"
    by (simp_all add: example_machine_def)
  moreover have "readable example_machine (map fst example_objects)"
    unfolding readable_def example_provides
    by (auto simp: example_machine_def example_peer_env_def example_greet_env_def) (auto simp: example_objects_def)
  moreover have "fts_open example_machine paths = Inr [FTS_D ''lib'' (map (FTS_F \<circ> fst) example_objects)]"
    "fts_close example_machine paths = 0" for paths
    by (simp_all add: example_machine_def)
  ultimately show ?thesis
    using example_installed example_files unfolding machine_ok_def by simp
qed

lemma example_machine_env: "hub_texts_ok example_machine" "recv_ok example_machine" "requests_whole example_machine"
proof -
  show "hub_texts_ok example_machine"
    by (simp add: hub_texts_ok_def parses_to_def example_machine_def example_texts_def)
  show "recv_ok example_machine"
    by (simp add: recv_ok_def example_machine_def example_peer_env_def example_greet_env_def)
  show "requests_whole example_machine"
    using requests_valid_whole [OF example_peer_env_facts(4)] by (simp add: example_machine_def requests_whole_def)
qed






section \<open>A defect\<close>

text \<open>Without modules no component can be created; the program only reports this and then listens on whatever its
  variable holds.\<close>

lemma vde_hub_without_modules_faults:
  assumes "quark_ok X" and "\<And>k. \<not> malloc_null X k" and "fts_open X (default_modules_path X) = Inr []"
    and "fts_close X (default_modules_path X) = 0" and "hub_texts_ok X" and "junk ''cm'' \<noteq> NULL"
  shows "vde_hub_main (dispatch X n) junk empty_world = Inl Dangling"
  using assms
  by (simp add: c_string_def vde_hub_main_def serve_def vde_context_new_def vde_context_init_def vde_modules_load_def
      vde_modules_default_path_def vde_context_new_component_def vde_context_get_component_def
      vde_context_get_component_by_qname_def vde_context_lookup_module_def vde_sobj_from_string_def
      vde_conn_manager_listen_def hub_texts_ok_def parses_to_def Let_def mon empty_world_def libevent_eh_def zero_context_def
      vde_ordhash_new_def vde_ordhash_lookup_def deref_None)

end
