(* ===== verification/Spec2Isabelle.thy ===== *)
theory Spec2Isabelle
  imports Connmgr Localconn Hub Vde2Flow Vde2Socket CtrlFlow CtrlCalls Libevent Logging Programs
begin

text \<open>
  Verification of vde3, a framework for virtual distributed ethernet: programs that move ethernet
  frames and control messages between local sockets and engines. This theory imports the whole
  development.

  \<^bold>\<open>The program.\<close> A \<^emph>\<open>context\<close> (\<^verbatim>\<open>src/context.c\<close>) holds the registered \<^emph>\<open>modules\<close> (\<^verbatim>\<open>src/module.c\<close>) and the
  \<^emph>\<open>components\<close> made from them (\<^verbatim>\<open>src/component.c\<close>), each with commands and \<^emph>\<open>signals\<close> (\<^verbatim>\<open>src/signal.c\<close>). There are
  three kinds of components. A transport accepts peers: \<^verbatim>\<open>src/transport_vde2.c\<close> speaks the protocol of vde2 over
  Unix sockets. An engine handles traffic: \<^verbatim>\<open>src/engine_hub.c\<close> sends every frame to all other ports,
  \<^verbatim>\<open>src/engine_ctrl.c\<close> answers JSON-RPC calls. A connection manager (\<^verbatim>\<open>src/conn_manager.c\<close>) joins a transport to an
  engine. Traffic flows over \<^emph>\<open>connections\<close> (\<^verbatim>\<open>src/connection.c\<close>), objects with a backend (the transport, or the
  peer end of a local connection, \<^verbatim>\<open>src/localconnection.c\<close>) and callbacks into an engine. The application's
  event loop (\<^verbatim>\<open>src/libevent_handler.c\<close>) drives it all, and the programs are \<^verbatim>\<open>src/vde_hub.c\<close> and
  \<^verbatim>\<open>src/vde_hub2hub.c\<close>.

  \<^bold>\<open>How C is modelled.\<close> \<open>Prelude\<close> has the monad: a C function maps a state to a fault or to a result and a
  new state. \<open>World\<close> has the state, one record per \<open>struct\<close> and one heap per structure type, and the record
  \<open>env\<close> of what lies outside the repository: allocation failures, GLib's quarks, json-c, the operating system,
  the event handler of the application, the indeterminate contents of stack buffers, and the command arrays and
  wrappers that the build generates. System calls are recorded in a trace, and their answers are a function of it.
  \<open>Memory\<close> has the primitive actions. Null and dangling pointers, double frees, reads out of bounds, null
  function pointers, failed assertions in a debug build and lists changed under an iterator are faults, so a
  theorem that a program returns says that none of these happens. Function pointers are datatypes; \<open>Dispatch\<close> ties
  the knot between them and the functions of the model.

  \<^bold>\<open>Which theory models what.\<close>
  \<^item> \<open>Ordhash\<close>: \<^verbatim>\<open>src/vde_ordhash.c\<close>, with its iterators. The locale \<open>ordered_table\<close> is the contract of a table that remembers the
    order of insertion; any history of operations refines it, and removing all entries and deleting terminates.
  \<^item> \<open>Packet\<close>: \<^verbatim>\<open>src/include/vde3/packet.h\<close>, with sizes as machine words. Layout, bounds, copies.
  \<^item> \<open>Connection\<close>: \<^verbatim>\<open>src/connection.c\<close> and its header. \<open>Backend\<close>: the locale \<open>conn_backend\<close>, what an engine relies on when it
    writes to many connections; interpreted in \<open>Vde2\<close>.
  \<^item> \<open>Signal\<close>, \<open>Registry\<close>, \<open>Component\<close>: \<^verbatim>\<open>src/signal.c\<close> and \<^verbatim>\<open>src/component.c\<close>. The locale \<open>name_registry\<close> is interpreted twice, for the
    commands and for the signals of a component. Registering and deregistering are inverse, attaching and
    detaching are inverse, raising a signal calls every listener once.
  \<^item> \<open>Modules\<close>, \<open>Loading\<close>: \<^verbatim>\<open>src/module.c\<close> and the module registry of \<^verbatim>\<open>src/context.c\<close>: the guards of registration, which files are
    loaded, that loading ends.
  \<^item> \<open>Context\<close>: the rest of \<^verbatim>\<open>src/context.c\<close>. A component is created with the operations of its kind or not at all, is
    found under its name, and is deleted only when nothing uses it; finalization releases everything.
  \<^item> \<open>Sobj\<close>: the object macros of \<^verbatim>\<open>src/include/vde3.h\<close> and \<^verbatim>\<open>src/common.c\<close>.
  \<^item> \<open>Localconn\<close>: \<^verbatim>\<open>src/localconnection.c\<close>. \<open>Connmgr\<close>: \<^verbatim>\<open>src/conn_manager.c\<close>; a manager pins its transport and its engine, and an
    accepted connection reaches the engine.
  \<^item> \<open>Hub\<close>, \<open>HubLife\<close>: \<^verbatim>\<open>src/engine_hub.c\<close>, callback by callback, and its start and end.
  \<^item> \<open>Ctrl\<close>, \<open>CtrlFlow\<close>, \<open>CtrlCalls\<close>: \<^verbatim>\<open>src/engine_ctrl.c\<close>. The model; the streams (a message goes out in order whatever its length,
    incoming packets are cut into exactly the strings they hold); the calls (one reply per string, paths, notices).
  \<^item> \<open>Vde2\<close>, \<open>Vde2Flow\<close>, \<open>Vde2Socket\<close>: \<^verbatim>\<open>src/transport_vde2.c\<close>. The model and the interpretation of \<open>conn_backend\<close>; traffic on an
    established connection (queueing, draining, retrying, delivering); sockets and what is left when a call fails.
  \<^item> \<open>Libevent\<close>: \<^verbatim>\<open>src/libevent_handler.c\<close> over an abstract libevent, with the locale \<open>event_handler\<close>.
  \<^item> \<open>Logging\<close>: \<^verbatim>\<open>src/logging.c\<close> and the log macros.

  \<^bold>\<open>Components together.\<close>
  \<^item> \<open>HubSystem\<close>: a hub whose ports are vde2 connections, as a step relation. The invariant \<open>hub_sys\<close>, no faults, a frame
    reaches every other port that has room and leaves through it.
  \<^item> \<open>Handshake\<close>, \<open>Switch\<close>: with the listening socket and the connection manager. \<open>switch_inv\<close> adds the pending connections; a
    proper peer becomes a port; in every reachable state every event that is due runs to its end.
  \<^item> \<open>HubSpec\<close>: the abstract hub, a list of ports with the frames waiting on each, moved by labelled steps. The locale
    \<open>lts_simulation\<close>, interpreted on the switch, carries every property of the runs of the specification over to it:
    frames leave a port in order, at most once, and only frames of other ports.
  \<^item> \<open>Hub2Hub\<close>: two hubs joined by a local connection; a frame crosses the link within one event.
  \<^item> \<open>Startup\<close>, \<open>Programs\<close>: both main functions from an empty memory on. \<open>vde_hub\<close> comes up in \<open>switch_inv\<close>, so it never faults
    and refines the abstract hub; \<open>vde_hub2hub\<close> comes up in \<open>linked_hubs\<close>.

  \<^bold>\<open>Bounds.\<close> Two things in the model are bounded. The nesting of calls through function pointers is bounded by the depth of
  \<open>dispatch\<close>: depth 2 is enough for the hub and its transport, 4 for two linked hubs, and the theorems hold for
  every greater depth. The loops that send a queue call back into an engine that may queue more, so they carry a
  bound on their rounds: for the queue of a vde2 connection any bound above 4192, the limit \<open>MAXQLEN\<close> of the queue, is
  enough, since each round takes a packet out for good or is the last. Running out of either bound is a fault,
  and the theorems show that it does not happen. All other loops are recursions that Isabelle has proved total.

  \<^bold>\<open>Assumptions.\<close> They are hypotheses of the theorems, and each theorem that has any is followed by an instance of it at a
  concrete state. The common ones: the event handler registers and removes events without touching the library's
  memory (\<open>events_ok\<close>), memory does not run out, \<open>recvfrom\<close> on a readable socket returns a datagram cut to the size
  asked for (\<open>recv_ok\<close>), the fixed part of a handshake request arrives in one read (\<open>requests_whole\<close>), and for the
  programs also that the modules are installed and the listening sockets can be made (\<open>machine_ok\<close>). Where the
  code misbehaves without such an assumption, a lemma shows it: a failed \<open>recvfrom\<close> is taken for a packet
  (\<open>vde2_read_error_overruns\<close>), a short request is read past its end (\<open>short_request_overruns\<close>), a program without
  modules listens on an unset variable (\<open>vde_hub_without_modules_faults\<close>).

  \<^bold>\<open>Not modelled.\<close> GLib, json-c, libevent, the dynamic loader and the operating system are parameters or, where the code
  relies on no more than lists and tables, their mathematical counterparts. So are the command wrappers and command
  arrays, which a script of the build generates. The text that \<open>printf\<close> writes, the reference counts of json objects and
  the socket options of Darwin are left out. The inline function that returns the name
  of a signal is the selector of the record. The scripts in Python (the generator of the wrappers and a test
  console) are not part of the library. Declarations in the headers have no content of their own.
\<close>

end
